(* ===== verification/Knit_Prelude.thy ===== *)
theory Knit_Prelude
  imports Main "HOL-Library.AList" "HOL-Library.Sublist" "HOL-Library.Multiset"
begin

text \<open>
  Shared vocabulary of the development: the outcome of a Go function that can return an
  error or panic, sequencing of such functions, loops over slices that stop at the first
  error, and generic facts on lists and maps. Nothing here is about the gateway itself.

  A Go function \<open>func f(x T) (U, error)\<close> becomes a function into
  \<open>('e, 'a) outcome\<close>: \<open>Ok\<close> for a nil error, \<open>Err\<close> for a returned error, \<open>Panic\<close>
  for a run-time panic (a nil dereference, a type mismatch reported by protobuf
  reflection). A panic in a goroutine of the gateway is not recovered by the gateway's code.
\<close>

named_theorems outcome_simps \<open>unfolding rules for the sequencing combinators\<close>
named_theorems store_simps \<open>effect of the store operations on the store's components\<close>

section \<open>Outcomes\<close>

datatype ('e, 'a) outcome = Ok 'a | Err 'e | Panic string

definition obind :: "('e, 'a) outcome \<Rightarrow> ('a \<Rightarrow> ('e, 'b) outcome) \<Rightarrow> ('e, 'b) outcome" where
  "obind r f = (case r of Ok x \<Rightarrow> f x | Err e \<Rightarrow> Err e | Panic s \<Rightarrow> Panic s)"

lemma obind_Ok [simp]: "obind (Ok x) f = f x"
  by (simp add: obind_def)

lemma obind_Err [simp]: "obind (Err e) f = Err e"
  by (simp add: obind_def)

lemma obind_Panic [simp]: "obind (Panic s) f = Panic s"
  by (simp add: obind_def)

lemma obind_eq_Ok_iff: "obind r f = Ok y \<longleftrightarrow> (\<exists>x. r = Ok x \<and> f x = Ok y)"
  by (cases r) auto

lemma obind_eq_Err_iff: "obind r f = Err e \<longleftrightarrow> r = Err e \<or> (\<exists>x. r = Ok x \<and> f x = Err e)"
  by (cases r) auto

lemma obind_eq_Panic_iff:
  "obind r f = Panic s \<longleftrightarrow> r = Panic s \<or> (\<exists>x. r = Ok x \<and> f x = Panic s)"
  by (cases r) auto

lemmas obind_iffs = obind_eq_Ok_iff obind_eq_Err_iff obind_eq_Panic_iff

lemma obind_assoc: "obind (obind r f) g = obind r (\<lambda>x. obind (f x) g)"
  by (cases r) auto

definition is_ok :: "('e, 'a) outcome \<Rightarrow> bool" where
  "is_ok r = (case r of Ok _ \<Rightarrow> True | _ \<Rightarrow> False)"

lemma is_ok_simps [simp]: "is_ok (Ok x)" "\<not> is_ok (Err e)" "\<not> is_ok (Panic s)"
  by (simp_all add: is_ok_def)

lemma is_ok_iff: "is_ok r \<longleftrightarrow> (\<exists>x. r = Ok x)"
  by (cases r) auto

text \<open>A Go \<open>if cond { return err }\<close> guard.\<close>

definition guard_err :: "bool \<Rightarrow> 'e \<Rightarrow> ('e, unit) outcome" where
  "guard_err bad e = (if bad then Err e else Ok ())"

lemma guard_err_eq_Ok_iff [simp]: "guard_err bad e = Ok u \<longleftrightarrow> \<not> bad"
  by (simp add: guard_err_def)

lemma guard_err_eq_Err_iff [simp]: "guard_err bad e = Err e' \<longleftrightarrow> bad \<and> e' = e"
  by (auto simp: guard_err_def)

lemma guard_err_not_Panic [simp]: "guard_err bad e \<noteq> Panic s"
  by (simp add: guard_err_def)

text \<open>A nil error carries no value: \<open>if err := f(); err != nil { return err }\<close>.\<close>

definition of_sum :: "'e + 'a \<Rightarrow> ('e, 'a) outcome" where
  "of_sum r = (case r of Inl e \<Rightarrow> Err e | Inr x \<Rightarrow> Ok x)"

lemma of_sum_simps [simp]: "of_sum (Inl e) = Err e" "of_sum (Inr x) = Ok x"
  by (simp_all add: of_sum_def)

lemma of_sum_iffs [simp]:
  "of_sum r = Ok x \<longleftrightarrow> r = Inr x" "of_sum r = Err e \<longleftrightarrow> r = Inl e" "of_sum r \<noteq> Panic s"
  by (cases r; simp)+

text \<open>The loop \<open>for i, x := range xs { out[i], err = f(x) ... }\<close>, stopping at the first error.\<close>

fun omap :: "('a \<Rightarrow> ('e, 'b) outcome) \<Rightarrow> 'a list \<Rightarrow> ('e, 'b list) outcome" where
  "omap f [] = Ok []"
| "omap f (x # xs) = obind (f x) (\<lambda>y. obind (omap f xs) (\<lambda>ys. Ok (y # ys)))"

lemma omap_eq_Ok_iff: "omap f xs = Ok ys \<longleftrightarrow> list_all2 (\<lambda>x y. f x = Ok y) xs ys"
  by (induction xs arbitrary: ys) (auto simp: obind_iffs list_all2_Cons1)

lemma omap_length: "omap f xs = Ok ys \<Longrightarrow> length ys = length xs"
  by (auto simp: omap_eq_Ok_iff dest: list_all2_lengthD)

lemma omap_nth: "omap f xs = Ok ys \<Longrightarrow> i < length xs \<Longrightarrow> f (xs ! i) = Ok (ys ! i)"
  by (auto simp: omap_eq_Ok_iff dest: list_all2_nthD)

lemma omap_cong [fundef_cong]:
  "xs = ys \<Longrightarrow> (\<And>x. x \<in> set ys \<Longrightarrow> f x = g x) \<Longrightarrow> omap f xs = omap g ys"
  by (induction ys arbitrary: xs) auto

lemma obind_cong [fundef_cong]:
  "r = r' \<Longrightarrow> (\<And>x. r' = Ok x \<Longrightarrow> f x = g x) \<Longrightarrow> obind r f = obind r' g"
  by (cases r') auto

lemma omap_Err_obtain:
  assumes "omap f xs = Err e"
  obtains x where "x \<in> set xs" "f x = Err e"
  using assms by (induction xs) (auto simp: obind_iffs)

lemma omap_not_Panic: "(\<And>x s. x \<in> set xs \<Longrightarrow> f x \<noteq> Panic s) \<Longrightarrow> omap f xs \<noteq> Panic s"
  by (induction xs) (auto simp: obind_iffs)

section \<open>Association lists as Go maps\<close>

lemma map_of_AList_update [simp]: "map_of (AList.update k v xs) = (map_of xs)(k \<mapsto> v)"
  by (simp add: update_conv fun_eq_iff)

lemma AList_update_fresh: "k \<notin> fst ` set xs \<Longrightarrow> AList.update k v xs = xs @ [(k, v)]"
  by (induction xs) auto

section \<open>Lists\<close>

text \<open>The first element with a property, as a Go search loop that returns early finds it.\<close>

lemma find_Some_iff2: "find P xs = Some x \<Longrightarrow> x \<in> set xs \<and> P x"
  by (induction xs) (auto split: if_splits)

lemma find_eq_None_iff: "find P xs = None \<longleftrightarrow> (\<forall>x \<in> set xs. \<not> P x)"
  by (induction xs) auto

lemma find_exists: "x \<in> set xs \<Longrightarrow> P x \<Longrightarrow> \<exists>y. find P xs = Some y"
  by (induction xs) auto

definition max_list :: "nat list \<Rightarrow> nat" where
  "max_list xs = fold max xs 0"

lemma fold_max_mono: "a \<le> fold max xs (a::nat)"
proof (induction xs arbitrary: a)
  case (Cons x xs)
  from Cons [of "max x a"] show ?case by simp
qed simp

lemma fold_max_ge: "x \<in> set xs \<Longrightarrow> x \<le> fold max xs (a::nat)"
proof (induction xs arbitrary: a)
  case (Cons y ys)
  then show ?case using fold_max_mono [of "max y a" ys] by auto
qed simp

lemma fold_max_less: "a < n \<Longrightarrow> (\<And>x. x \<in> set xs \<Longrightarrow> x < n) \<Longrightarrow> fold max xs (a::nat) < n"
  by (induction xs arbitrary: a) auto

lemma max_list_ge: "x \<in> set xs \<Longrightarrow> x \<le> max_list xs"
  by (simp add: max_list_def fold_max_ge)

lemma max_list_less: "0 < n \<Longrightarrow> (\<And>x. x \<in> set xs \<Longrightarrow> x < n) \<Longrightarrow> max_list xs < n"
  by (simp add: max_list_def fold_max_less)

lemma max_list_Nil [simp]: "max_list [] = 0"
  by (simp add: max_list_def)

end
