(* ===== verification/Knit_Text.thy ===== *)
theory Knit_Text
  imports Knit_Prelude "HOL-Library.Char_ord" "HOL-Library.List_Lexorder" "HOL-Library.Word"
begin

text \<open>
  The text routines of \<^verbatim>\<open>format.go\<close> and what the gateway uses of Go's \<^verbatim>\<open>strings\<close>,
  \<^verbatim>\<open>strconv\<close> and \<^verbatim>\<open>encoding/base64\<close>. A Go string is a list of bytes, here \<^typ>\<open>string\<close>
  (a \<^typ>\<open>char\<close> is a byte); a \<^verbatim>\<open>[]byte\<close> is a list of \<^typ>\<open>8 word\<close>. The reference decoders
  (\<open>parse_nat\<close>, \<open>parse_int\<close>, \<open>base64_decode\<close>) are not in the source: they state what the encoders
  promise.
\<close>

type_synonym byte = "8 word"
type_synonym bytes = "byte list"

section \<open>camelCase and snakeCase\<close>

definition isASCIILower :: "char \<Rightarrow> bool" where
  "isASCIILower c \<longleftrightarrow> CHR ''a'' \<le> c \<and> c \<le> CHR ''z''"

definition isASCIIUpper :: "char \<Rightarrow> bool" where
  "isASCIIUpper c \<longleftrightarrow> CHR ''A'' \<le> c \<and> c \<le> CHR ''Z''"

text \<open>\<^verbatim>\<open>char -= 'a' - 'A'\<close> and \<^verbatim>\<open>char += 'a' - 'A'\<close> on bytes (\<^const>\<open>char_of\<close> reduces modulo 256).\<close>

definition to_upper :: "char \<Rightarrow> char" where
  "to_upper c = char_of ((of_char c :: nat) + 256 - 32)"

definition to_lower :: "char \<Rightarrow> char" where
  "to_lower c = char_of ((of_char c :: nat) + 32)"

text \<open>The loop of \<^verbatim>\<open>camelCase\<close>; the first argument is \<^verbatim>\<open>wasUnderscore\<close>.\<close>

fun camel_loop :: "bool \<Rightarrow> string \<Rightarrow> string" where
  "camel_loop was [] = []"
| "camel_loop was (c # cs) =
     (if c \<noteq> CHR ''_'' then
        (let c' = (if was \<and> isASCIILower c then to_upper c else c)
         in c' # camel_loop (c' = CHR ''_'') cs)
      else camel_loop True cs)"

definition camelCase :: "string \<Rightarrow> string" where
  "camelCase s = camel_loop False s"

fun snakeCase :: "string \<Rightarrow> string" where
  "snakeCase [] = []"
| "snakeCase (c # cs) =
     (if isASCIIUpper c then CHR ''_'' # to_lower c # snakeCase cs else c # snakeCase cs)"

lemma upper_facts:
  assumes "isASCIIUpper c"
  shows "isASCIILower (to_lower c)" "to_lower c \<noteq> CHR ''_''" "to_upper (to_lower c) = c" "c \<noteq> CHR ''_''"
proof -
  from assms have r: "65 \<le> (of_char c :: nat)" "(of_char c :: nat) \<le> 90"
    by (simp_all add: isASCIIUpper_def less_eq_char_def)
  have o: "(of_char (to_lower c) :: nat) = of_char c + 32"
    using r by (simp add: to_lower_def)
  show "isASCIILower (to_lower c)"
    using o r by (simp add: isASCIILower_def less_eq_char_def)
  show "to_lower c \<noteq> CHR ''_''"
  proof
    assume "to_lower c = CHR ''_''"
    with o have "(of_char c :: nat) + 32 = 95" by simp
    with r show False by simp
  qed
  have "char_of ((of_char c :: nat) + 256) = char_of (((of_char c :: nat) + 256) mod 256)"
    by (simp only: char_of_mod_256)
  then show "to_upper (to_lower c) = c"
    using o by (simp add: to_upper_def add.commute)
  show "c \<noteq> CHR ''_''"
    using r by auto
qed


lemma lower_not_upper: "isASCIILower c \<Longrightarrow> \<not> isASCIIUpper c"
  by (auto simp: isASCIILower_def isASCIIUpper_def less_eq_char_def)

lemma to_upper_of_lower:
  assumes "isASCIILower c"
  shows "isASCIIUpper (to_upper c)" "to_upper c \<noteq> CHR ''_''"
proof -
  from assms have r: "97 \<le> (of_char c :: nat)" "(of_char c :: nat) \<le> 122"
    by (simp_all add: isASCIILower_def less_eq_char_def)
  have "(of_char c :: nat) + 256 - 32 = (of_char c - 32) + 256"
    using r by simp
  then have "(of_char (to_upper c) :: nat) = ((of_char c - 32) + 256) mod 256"
    by (simp only: to_upper_def of_char_of)
  also have "\<dots> = of_char c - 32"
    unfolding mod_add_self2 using r by simp
  finally have o: "(of_char (to_upper c) :: nat) = of_char c - 32" .
  have "65 \<le> (of_char (to_upper c) :: nat) \<and> (of_char (to_upper c) :: nat) \<le> 90"
    using o r by linarith
  then show "isASCIIUpper (to_upper c)"
    by (simp add: isASCIIUpper_def less_eq_char_def)
  then show "to_upper c \<noteq> CHR ''_''"
    by (auto simp: isASCIIUpper_def less_eq_char_def)
qed

lemma camel_loop_no_underscore: "CHR ''_'' \<notin> set (camel_loop b s)"
  by (induction b s rule: camel_loop.induct) (auto simp: Let_def dest: to_upper_of_lower)

lemma camel_loop_id: "CHR ''_'' \<notin> set s \<Longrightarrow> camel_loop False s = s"
  by (induction s) auto

lemma camelCase_id: "CHR ''_'' \<notin> set s \<Longrightarrow> camelCase s = s"
  by (simp add: camelCase_def camel_loop_id)

lemma camelCase_idem: "camelCase (camelCase s) = camelCase s"
  by (rule camelCase_id) (simp add: camelCase_def camel_loop_no_underscore)

lemma camel_loop_snake: "CHR ''_'' \<notin> set s \<Longrightarrow> camel_loop False (snakeCase s) = s"
proof (induction s)
  case (Cons c cs)
  show ?case
  proof (cases "isASCIIUpper c")
    case True
    with Cons upper_facts [OF True] show ?thesis by simp
  next
    case False
    with Cons show ?thesis by auto
  qed
qed simp

section \<open>strings\<close>

definition has_prefix :: "string \<Rightarrow> string \<Rightarrow> bool" where
  "has_prefix s p = prefix p s"

definition has_suffix :: "string \<Rightarrow> string \<Rightarrow> bool" where
  "has_suffix s p = suffix p s"

fun string_join :: "string list \<Rightarrow> string \<Rightarrow> string" where
  "string_join [] sep = []"
| "string_join [x] sep = x"
| "string_join (x # y # ys) sep = x @ sep @ string_join (y # ys) sep"

text \<open>\<^verbatim>\<open>strings.Split(s, sep)\<close> for a separator of one byte: always at least one part.\<close>

fun split_on :: "char \<Rightarrow> string \<Rightarrow> string list" where
  "split_on sep [] = [[]]"
| "split_on sep (c # cs) =
     (if c = sep then [] # split_on sep cs
      else (case split_on sep cs of [] \<Rightarrow> [[c]] | p # ps \<Rightarrow> (c # p) # ps))"

text \<open>\<^verbatim>\<open>strings.SplitN(s, sep, 2)\<close>: the part before the first separator, and the rest if there is one.\<close>

definition split_first :: "char \<Rightarrow> string \<Rightarrow> string list" where
  "split_first sep s =
     (let h = takeWhile (\<lambda>c. c \<noteq> sep) s; t = dropWhile (\<lambda>c. c \<noteq> sep) s
      in if t = [] then [h] else [h, tl t])"

definition trim_left :: "char \<Rightarrow> string \<Rightarrow> string" where
  "trim_left c s = dropWhile (\<lambda>d. d = c) s"

definition trim_prefix :: "string \<Rightarrow> string \<Rightarrow> string" where
  "trim_prefix s p = (if has_prefix s p then drop (length p) s else s)"

definition replace_all_char :: "string \<Rightarrow> char \<Rightarrow> char \<Rightarrow> string" where
  "replace_all_char s a b = map (\<lambda>c. if c = a then b else c) s"

text \<open>\<^verbatim>\<open>strings.ToLower\<close> on ASCII text (HTTP header names are ASCII).\<close>

definition ascii_lower_string :: "string \<Rightarrow> string" where
  "ascii_lower_string s = map (\<lambda>c. if isASCIIUpper c then to_lower c else c) s"

lemma split_on_not_Nil [simp]: "split_on sep s \<noteq> []"
  by (induction s) (auto split: list.splits)

lemma split_on_join: "string_join (split_on sep s) [sep] = s"
proof (induction s)
  case (Cons c cs)
  obtain p ps where ps: "split_on sep cs = p # ps"
    by (cases "split_on sep cs") auto
  with Cons show ?case by (cases ps) auto
qed simp

lemma split_on_parts: "p \<in> set (split_on sep s) \<Longrightarrow> sep \<notin> set p"
proof (induction s arbitrary: p)
  case (Cons c cs)
  then show ?case by (cases "split_on sep cs") (auto split: if_splits)
qed simp

section \<open>strconv\<close>

definition digit_char :: "nat \<Rightarrow> char" where
  "digit_char d = char_of (48 + d)"

definition digit_val :: "char \<Rightarrow> nat" where
  "digit_val c = of_char c - 48"

fun dec_nat :: "nat \<Rightarrow> string" where
  "dec_nat n = (if n < 10 then [digit_char n] else dec_nat (n div 10) @ [digit_char (n mod 10)])"

declare dec_nat.simps [simp del]

definition dec_int :: "int \<Rightarrow> string" where
  "dec_int i = (if i < 0 then CHR ''-'' # dec_nat (nat (- i)) else dec_nat (nat i))"

text \<open>\<^verbatim>\<open>strconv.FormatInt(x, 10)\<close> for an \<^verbatim>\<open>int64\<close>, \<^verbatim>\<open>FormatUint\<close> for a \<^verbatim>\<open>uint64\<close>, \<^verbatim>\<open>FormatBool\<close>.\<close>

definition format_int :: "64 word \<Rightarrow> string" where
  "format_int w = dec_int (sint w)"

definition format_uint :: "64 word \<Rightarrow> string" where
  "format_uint w = dec_nat (unat w)"

definition format_bool :: "bool \<Rightarrow> string" where
  "format_bool b = (if b then ''true'' else ''false'')"

definition parse_nat :: "string \<Rightarrow> nat" where
  "parse_nat s = foldl (\<lambda>a c. 10 * a + digit_val c) 0 s"

definition parse_int :: "string \<Rightarrow> int" where
  "parse_int s = (case s of [] \<Rightarrow> 0
     | c # cs \<Rightarrow> if c = CHR ''-'' then - int (parse_nat cs) else int (parse_nat s))"

lemma digit_val_char: "d < 10 \<Longrightarrow> digit_val (digit_char d) = d"
  by (simp add: digit_val_def digit_char_def)

lemma digit_char_not_minus: "d < 10 \<Longrightarrow> digit_char d \<noteq> CHR ''-''"
proof
  assume "d < 10" "digit_char d = CHR ''-''"
  then have "(of_char (digit_char d) :: nat) = 45" by simp
  with \<open>d < 10\<close> show False by (simp add: digit_char_def)
qed

lemma parse_nat_snoc: "parse_nat (s @ [c]) = 10 * parse_nat s + digit_val c"
  by (simp add: parse_nat_def)

lemma parse_nat_dec_nat [simp]: "parse_nat (dec_nat n) = n"
proof (induction n rule: dec_nat.induct)
  case (1 n)
  show ?case
  proof (cases "n < 10")
    case True
    then show ?thesis
      by (simp add: dec_nat.simps [of n] parse_nat_def digit_val_char)
  next
    case False
    with 1 show ?thesis
      by (simp add: dec_nat.simps [of n] parse_nat_snoc digit_val_char)
  qed
qed

lemma dec_nat_chars: "c \<in> set (dec_nat n) \<Longrightarrow> \<exists>d < 10. c = digit_char d"
proof (induction n arbitrary: c rule: dec_nat.induct)
  case (1 n)
  show ?case
  proof (cases "n < 10")
    case True
    with 1 show ?thesis by (auto simp: dec_nat.simps [of n])
  next
    case False
    with "1.prems" have "c \<in> set (dec_nat (n div 10)) \<or> c = digit_char (n mod 10)"
      by (auto simp: dec_nat.simps [of n])
    with 1 False show ?thesis by (metis mod_less_divisor zero_less_numeral)
  qed
qed

lemma dec_nat_not_Nil [simp]: "dec_nat n \<noteq> []"
  by (subst dec_nat.simps) simp

lemma parse_int_dec_int [simp]: "parse_int (dec_int i) = i"
proof (cases "i < 0")
  case True
  then show ?thesis by (simp add: dec_int_def parse_int_def)
next
  case False
  obtain c cs where c: "dec_nat (nat i) = c # cs"
    by (cases "dec_nat (nat i)") auto
  then have "c \<noteq> CHR ''-''"
    using dec_nat_chars [of c "nat i"] digit_char_not_minus by auto
  moreover have "parse_nat (c # cs) = nat i"
    unfolding c [symmetric] by simp
  ultimately show ?thesis
    using False c by (simp add: dec_int_def parse_int_def)
qed

text \<open>\<^verbatim>\<open>strconv.Quote\<close>, used by the \<^verbatim>\<open>%q\<close> verb in error texts: exact on ASCII; a byte of a
  multi-byte character is kept, as Quote keeps printable characters.\<close>

definition hex_digit :: "nat \<Rightarrow> char" where
  "hex_digit d = (if d < 10 then char_of (48 + d) else char_of (87 + d))"

definition quote_char :: "char \<Rightarrow> string" where
  "quote_char c =
     (let n = (of_char c :: nat); bs = (char_of (92::nat) :: char)
      in if n = 34 \<or> n = 92 then [bs, c]
         else if n = 7 then [bs, CHR ''a''] else if n = 8 then [bs, CHR ''b'']
         else if n = 12 then [bs, CHR ''f''] else if n = 10 then [bs, CHR ''n'']
         else if n = 13 then [bs, CHR ''r''] else if n = 9 then [bs, CHR ''t'']
         else if n = 11 then [bs, CHR ''v'']
         else if n < 32 \<or> n = 127 then [bs, CHR ''x'', hex_digit (n div 16), hex_digit (n mod 16)]
         else [c])"

definition go_quote :: "string \<Rightarrow> string" where
  "go_quote s = (let q = (char_of (34::nat) :: char) in q # concat (map quote_char s) @ [q])"

section \<open>encoding/base64\<close>

definition b64_alphabet :: string where
  "b64_alphabet = ''ABCDEFGHIJKLMNOPQRSTUVWXYZabcdefghijklmnopqrstuvwxyz0123456789+/''"

definition b64_char :: "nat \<Rightarrow> char" where
  "b64_char n = b64_alphabet ! n"

text \<open>Three bytes are four groups of six bits; the last group of one or two bytes reads zeros.\<close>

definition sextet1 :: "byte \<Rightarrow> nat" where
  "sextet1 a = unat a div 4"

definition sextet2 :: "byte \<Rightarrow> byte \<Rightarrow> nat" where
  "sextet2 a b = unat a mod 4 * 16 + unat b div 16"

definition sextet3 :: "byte \<Rightarrow> byte \<Rightarrow> nat" where
  "sextet3 b c = unat b mod 16 * 4 + unat c div 64"

definition sextet4 :: "byte \<Rightarrow> nat" where
  "sextet4 c = unat c mod 64"

text \<open>\<^verbatim>\<open>StdEncoding.EncodeToString\<close> pads the last group with \<open>=\<close>, \<^verbatim>\<open>RawStdEncoding\<close> does not.\<close>

fun base64_encode :: "bool \<Rightarrow> bytes \<Rightarrow> string" where
  "base64_encode pad [] = []"
| "base64_encode pad [a] =
     [b64_char (sextet1 a), b64_char (sextet2 a 0)] @ (if pad then ''=='' else [])"
| "base64_encode pad [a, b] =
     [b64_char (sextet1 a), b64_char (sextet2 a b), b64_char (sextet3 b 0)]
     @ (if pad then ''='' else [])"
| "base64_encode pad (a # b # c # rest) =
     [b64_char (sextet1 a), b64_char (sextet2 a b), b64_char (sextet3 b c), b64_char (sextet4 c)]
     @ base64_encode pad rest"

definition b64_val :: "char \<Rightarrow> nat" where
  "b64_val c = length (takeWhile (\<lambda>d. d \<noteq> c) b64_alphabet)"

definition octet1 :: "nat \<Rightarrow> nat \<Rightarrow> byte" where
  "octet1 p q = of_nat (p * 4 + q div 16)"

definition octet2 :: "nat \<Rightarrow> nat \<Rightarrow> byte" where
  "octet2 q r = of_nat (q mod 16 * 16 + r div 4)"

definition octet3 :: "nat \<Rightarrow> nat \<Rightarrow> byte" where
  "octet3 r s = of_nat (r mod 4 * 64 + s)"

fun b64_decode_groups :: "nat list \<Rightarrow> bytes" where
  "b64_decode_groups (p # q # r # s # rest) =
     octet1 p q # octet2 q r # octet3 r s # b64_decode_groups rest"
| "b64_decode_groups [p, q, r] = [octet1 p q, octet2 q r]"
| "b64_decode_groups [p, q] = [octet1 p q]"
| "b64_decode_groups _ = []"

definition base64_decode :: "string \<Rightarrow> bytes" where
  "base64_decode s = b64_decode_groups (map b64_val (filter (\<lambda>c. c \<noteq> CHR ''='') s))"

lemma b64_all: "list_all (\<lambda>n. b64_val (b64_char n) = n \<and> b64_char n \<noteq> CHR ''='') [0..<64]"
  by code_simp

lemma b64_val_char: "n < 64 \<Longrightarrow> b64_val (b64_char n) = n"
  using b64_all by (simp add: list_all_iff)

lemma b64_char_not_pad: "n < 64 \<Longrightarrow> b64_char n \<noteq> CHR ''=''"
  using b64_all by (simp add: list_all_iff)

lemma unat_byte_less [simp]: "unat (a :: byte) < 256"
  using unsigned_less [of a] by simp

lemma sextet_bounds:
  "sextet1 a < 64" "sextet2 a b < 64" "sextet3 b c < 64" "sextet4 c < 64"
proof -
  have "unat a < 256" "unat b < 256" "unat c < 256" by simp_all
  then show "sextet1 a < 64" "sextet2 a b < 64" "sextet3 b c < 64" "sextet4 c < 64"
    unfolding sextet1_def sextet2_def sextet3_def sextet4_def by linarith+
qed

lemmas b64_chars [simp] = sextet_bounds [THEN b64_val_char] sextet_bounds [THEN b64_char_not_pad]

lemma octet_sextet [simp]:
  "octet1 (sextet1 a) (sextet2 a b) = a" "octet2 (sextet2 a b) (sextet3 b c) = b"
  "octet3 (sextet3 b c) (sextet4 c) = c"
proof -
  have l: "unat b div 16 < 16" "unat c div 64 < 4"
    using unat_byte_less [of b] unat_byte_less [of c] by linarith+
  have e: "unat a div 4 * 4 + (unat a mod 4 * 16 + unat b div 16) div 16 = unat a"
    "(unat a mod 4 * 16 + unat b div 16) mod 16 * 16
       + (unat b mod 16 * 4 + unat c div 64) div 4 = unat b"
    "(unat b mod 16 * 4 + unat c div 64) mod 4 * 64 + unat c mod 64 = unat c"
    using l by (simp_all add: div_add1_eq)
  show "octet1 (sextet1 a) (sextet2 a b) = a"
    unfolding octet1_def sextet1_def sextet2_def e(1) by simp
  show "octet2 (sextet2 a b) (sextet3 b c) = b"
    unfolding octet2_def sextet2_def sextet3_def e(2) by simp
  show "octet3 (sextet3 b c) (sextet4 c) = c"
    unfolding octet3_def sextet3_def sextet4_def e(3) by simp
qed

lemma base64_decode_encode [simp]: "base64_decode (base64_encode pad bs) = bs"
  unfolding base64_decode_def
  by (induction pad bs rule: base64_encode.induct) simp_all

section \<open>Text encodings as an interface\<close>

text \<open>
  What the formatter relies on wherever it turns data into text that is used as a key or read
  back by the client: the text determines the data. Decimal integers (map keys, 64-bit
  values), base64 (bytes) and the snake-case form of a name all provide it.
\<close>

locale text_encoding =
  fixes enc :: "'a \<Rightarrow> string"
    and dec :: "string \<Rightarrow> 'a"
    and valid :: "'a \<Rightarrow> bool"
  assumes dec_enc: "valid x \<Longrightarrow> dec (enc x) = x"
begin

lemma enc_eq_iff: "valid x \<Longrightarrow> valid y \<Longrightarrow> enc x = enc y \<longleftrightarrow> x = y"
  by (metis dec_enc)

lemma enc_inj_on: "(\<And>x. x \<in> A \<Longrightarrow> valid x) \<Longrightarrow> inj_on enc A"
  by (metis dec_enc inj_on_inverseI)

lemma distinct_map_enc: "(\<And>x. x \<in> set xs \<Longrightarrow> valid x) \<Longrightarrow> distinct (map enc xs) \<longleftrightarrow> distinct xs"
  using enc_inj_on [of "set xs"] by (auto simp: distinct_map)

end

definition parse_int64 :: "string \<Rightarrow> 64 word" where
  "parse_int64 s = word_of_int (parse_int s)"

definition parse_uint64 :: "string \<Rightarrow> 64 word" where
  "parse_uint64 s = of_nat (parse_nat s)"

interpretation int64_text: text_encoding format_int parse_int64 "\<lambda>_. True"
  by unfold_locales (simp add: format_int_def parse_int64_def)

interpretation uint64_text: text_encoding format_uint parse_uint64 "\<lambda>_. True"
  by unfold_locales (simp add: format_uint_def parse_uint64_def)

interpretation base64_std: text_encoding "base64_encode True" base64_decode "\<lambda>_. True"
  by unfold_locales simp

interpretation base64_raw: text_encoding "base64_encode False" base64_decode "\<lambda>_. True"
  by unfold_locales simp

interpretation snake_text: text_encoding snakeCase camelCase "\<lambda>s. CHR ''_'' \<notin> set s"
  by unfold_locales (simp add: camelCase_def camel_loop_snake)

lemma format_bool_inj: "format_bool a = format_bool b \<longleftrightarrow> a = b"
  by (simp add: format_bool_def)

end
