(* ===== verification/Knit_Error.thy ===== *)
theory Knit_Error
  imports Knit_Text
begin

text \<open>
  Go errors as values. An error made by \<^verbatim>\<open>fmt.Errorf\<close> or \<^verbatim>\<open>errors.New\<close> keeps its format
  string and arguments as the source writes them, so every error site of the model can be
  read against the source; \<open>error_string\<close> is the error's text. A \<^verbatim>\<open>*connect.Error\<close> carries
  a code, an underlying error and details; an error that comes from a library call is an
  \<open>ExternalError\<close>. \<open>as_connect\<close> is \<^verbatim>\<open>errors.As(err, &connectErr)\<close>.
\<close>

datatype connect_code =
    CodeCanceled | CodeUnknown | CodeInvalidArgument | CodeDeadlineExceeded | CodeNotFound
  | CodeAlreadyExists | CodePermissionDenied | CodeResourceExhausted | CodeFailedPrecondition
  | CodeAborted | CodeOutOfRange | CodeUnimplemented | CodeInternal | CodeUnavailable
  | CodeDataLoss | CodeUnauthenticated

record error_detail =
  ed_type :: string
  ed_bytes :: bytes

text \<open>An argument of a format string: a string, an integer, a list of strings, or a wrapped error.\<close>

datatype go_error =
    Errorf string "fmt_arg list"
  | ConnectError connect_code go_error "error_detail list"
  | ExternalError string
and fmt_arg = AStr string | AInt int | AStrs "string list" | AErr go_error

text \<open>\<^verbatim>\<open>connect.NewError(code, err)\<close> has no details.\<close>

definition new_connect_error :: "connect_code \<Rightarrow> go_error \<Rightarrow> go_error" where
  "new_connect_error c e = ConnectError c e []"

fun error_code :: "go_error \<Rightarrow> connect_code option" where
  "error_code (ConnectError c e ds) = Some c"
| "error_code _ = None"

lemma error_code_new [simp]: "error_code (new_connect_error c e) = Some c"
  by (simp add: new_connect_error_def)

text \<open>\<^verbatim>\<open>errors.As\<close>: the first \<^verbatim>\<open>*connect.Error\<close> along the chain of wrapped errors.\<close>

fun as_connect :: "go_error \<Rightarrow> (connect_code \<times> go_error \<times> error_detail list) option"
and as_connect_args :: "fmt_arg list \<Rightarrow> (connect_code \<times> go_error \<times> error_detail list) option" where
  "as_connect (ConnectError c e ds) = Some (c, e, ds)"
| "as_connect (Errorf f args) = as_connect_args args"
| "as_connect (ExternalError s) = None"
| "as_connect_args [] = None"
| "as_connect_args (AErr e # args) = as_connect e"
| "as_connect_args (a # args) = as_connect_args args"

text \<open>A rendered argument: its text under \<^verbatim>\<open>%s\<close>, \<^verbatim>\<open>%v\<close>, \<^verbatim>\<open>%d\<close>, \<^verbatim>\<open>%w\<close>. \<^verbatim>\<open>%q\<close> quotes it.\<close>

fun sprintf :: "string \<Rightarrow> string list \<Rightarrow> string" where
  "sprintf [] args = []"
| "sprintf [c] args = [c]"
| "sprintf (c # d # cs) args =
     (if c \<noteq> CHR ''%'' then c # sprintf (d # cs) args
      else if d = CHR ''%'' then d # sprintf cs args
      else (case args of [] \<Rightarrow> c # d # sprintf cs []
            | a # as \<Rightarrow> (if d = CHR ''q'' then go_quote a else a) @ sprintf cs as))"

text \<open>The text of an error; \<open>code_text\<close> is connect's \<^verbatim>\<open>Code.String\<close>, which is not under \<^verbatim>\<open>src/\<close>.\<close>

fun error_string :: "(connect_code \<Rightarrow> string) \<Rightarrow> go_error \<Rightarrow> string"
and arg_string :: "(connect_code \<Rightarrow> string) \<Rightarrow> fmt_arg \<Rightarrow> string" where
  "error_string code_text (Errorf f args) = sprintf f (map (arg_string code_text) args)"
| "error_string code_text (ConnectError c e ds) = code_text c @ '': '' @ error_string code_text e"
| "error_string code_text (ExternalError s) = s"
| "arg_string code_text (AStr s) = s"
| "arg_string code_text (AInt i) = dec_int i"
| "arg_string code_text (AStrs ss) = ''['' @ string_join ss '' '' @ '']''"
| "arg_string code_text (AErr e) = error_string code_text e"

text \<open>\<^verbatim>\<open>errors.New(text)\<close>.\<close>

abbreviation errors_New :: "string \<Rightarrow> go_error" where
  "errors_New s \<equiv> Errorf s []"

text \<open>A name between single quotes in a message.\<close>

definition quoted :: "string \<Rightarrow> string" where
  "quoted s = (let q = (char_of (39::nat) :: char) in q # s @ [q])"

text \<open>The result of a gateway function.\<close>

type_synonym 'a result = "(go_error, 'a) outcome"

text \<open>Wrapping an error with \<^verbatim>\<open>%w\<close> keeps the code that \<^verbatim>\<open>errors.As\<close> finds, whatever comes before it.\<close>

lemma as_connect_args_skip:
  "(\<And>a. a \<in> set pre \<Longrightarrow> \<not> (\<exists>e. a = AErr e)) \<Longrightarrow> as_connect_args (pre @ [AErr e]) = as_connect e"
proof (induction pre)
  case (Cons a pre)
  then show ?case by (cases a) auto
qed simp

end
