(* ===== verification/Knit_Model.thy ===== *)
theory Knit_Model
  imports Complex_Main Knit_Error
begin

text \<open>
  The data the gateway works on: protobuf descriptors and messages as the reflection API
  shows them, the Knit request, mask, schema and value messages, Connect clients and RPCs,
  and the store of the objects the gateway mutates while it handles a request. Descriptors
  are objects with an identity (they form a cyclic graph), so a message descriptor is
  referred to by a \<open>desc_id\<close> and looked up in a pool.
\<close>

section \<open>Numbers\<close>

text \<open>
  A \<^verbatim>\<open>float64\<close>: the values \<^verbatim>\<open>math.IsNaN\<close> and \<^verbatim>\<open>math.IsInf\<close> tell apart, the negative
  zero, and the other finite values by the rational they denote.
\<close>

datatype float64 = F_NaN | F_Inf | F_NegInf | F_NegZero | F_Num rat

text \<open>\<^verbatim>\<open>float64(x)\<close> for a 32-bit integer: exact.\<close>

definition float64_of_int :: "int \<Rightarrow> float64" where
  "float64_of_int i = F_Num (of_int i)"

section \<open>Descriptors\<close>

type_synonym desc_id = nat

datatype kind =
    BoolKind | EnumKind | Int32Kind | Sint32Kind | Uint32Kind | Int64Kind | Sint64Kind
  | Uint64Kind | Sfixed32Kind | Fixed32Kind | FloatKind | Sfixed64Kind | Fixed64Kind
  | DoubleKind | StringKind | BytesKind | MessageKind | GroupKind | OtherKind int

record enum_desc =
  en_full_name :: string
  en_values :: "(int \<times> string) list"

datatype field_desc =
  FieldDesc (fd_name: string) (fd_number: int) (fd_json_name: string) (fd_kind: kind)
    (fd_message: desc_id) (fd_enum: enum_desc) (fd_presence: bool) (fd_shape: field_shape)
and field_shape = Singular | Repeated | MapOf field_desc field_desc

record message_desc =
  md_full_name :: string
  md_name :: string
  md_fields :: "field_desc list"

type_synonym desc_pool = "desc_id \<Rightarrow> message_desc"

text \<open>\<^verbatim>\<open>IsMap\<close>, \<^verbatim>\<open>IsList\<close>; \<^verbatim>\<open>FieldDescriptors.ByName\<close> and \<^verbatim>\<open>ByNumber\<close> (nil is \<^const>\<open>None\<close>).\<close>

definition fd_is_map :: "field_desc \<Rightarrow> bool" where
  "fd_is_map fd = (case fd_shape fd of MapOf k v \<Rightarrow> True | _ \<Rightarrow> False)"

definition fd_is_list :: "field_desc \<Rightarrow> bool" where
  "fd_is_list fd = (case fd_shape fd of Repeated \<Rightarrow> True | _ \<Rightarrow> False)"

definition field_by_name :: "field_desc list \<Rightarrow> string \<Rightarrow> field_desc option" where
  "field_by_name fds n = find (\<lambda>fd. fd_name fd = n) fds"

definition field_by_number :: "field_desc list \<Rightarrow> int \<Rightarrow> field_desc option" where
  "field_by_number fds n = find (\<lambda>fd. fd_number fd = n) fds"

definition enum_value_by_number :: "enum_desc \<Rightarrow> int \<Rightarrow> string option" where
  "enum_value_by_number e n = map_option snd (find (\<lambda>p. fst p = n) (en_values e))"

datatype idempotency = IdempotencyUnknown | NoSideEffects | Idempotent

text \<open>
  \<open>mth_options_ok\<close>: the method's \<^verbatim>\<open>Options()\<close> is a \<^verbatim>\<open>*descriptorpb.MethodOptions\<close>.
  \<open>mth_relation\<close>: the \<^verbatim>\<open>(buf.knit.v1alpha1.relation)\<close> option, its \<^verbatim>\<open>name\<close>.
\<close>

record method_desc =
  mth_full_name :: string
  mth_name :: string
  mth_parent :: string
  mth_input :: desc_id
  mth_output :: desc_id
  mth_streaming_client :: bool
  mth_streaming_server :: bool
  mth_options_ok :: bool
  mth_idempotency :: idempotency
  mth_relation :: "string option"

record service_desc =
  sv_full_name :: string
  sv_name :: string
  sv_methods :: "method_desc list"
  sv_parent_file :: string

section \<open>Values and messages\<close>

text \<open>
  A \<^verbatim>\<open>google.protobuf.Value\<close>. \<open>VStruct a\<close> is a struct value whose \<^verbatim>\<open>*structpb.Struct\<close>
  is the object at address \<open>a\<close> of the store, so that patches can write into it later;
  \<open>VObject\<close> is a struct value no patch points to.
\<close>

datatype gvalue =
    VNull | VNumber float64 | VString string | VBool bool
  | VList "gvalue list" | VObject "(string \<times> gvalue) list" | VStruct nat

text \<open>The contents of the generated Go structs of the well-known types.\<close>

datatype go_struct =
    GoAny string bytes | GoFieldMask "string list" | GoTimestamp int int | GoDuration int int
  | GoValue gvalue | GoListValue "gvalue list" | GoStruct "(string \<times> gvalue) list"
  | GoBool bool | GoInt32 "32 word" | GoInt64 "64 word" | GoUInt32 "32 word" | GoUInt64 "64 word"
  | GoFloat float64 | GoDouble float64 | GoString string | GoBytes bytes

datatype map_key = KInt "64 word" | KUint "64 word" | KBool bool | KString string

text \<open>
  The Go type of a message: a \<^verbatim>\<open>*dynamicpb.Message\<close>, a generated type, or the generated type
  of a well-known type with its contents.
\<close>

datatype go_type = DynamicType | GeneratedType | WellKnownType go_struct

text \<open>
  A \<^verbatim>\<open>protoreflect.Value\<close>, and a \<^verbatim>\<open>proto.Message\<close>: its descriptor, its populated fields by
  number, and its Go type.
\<close>

datatype pval =
    PBool bool | PInt32 "32 word" | PInt64 "64 word" | PUint32 "32 word" | PUint64 "64 word"
  | PFloat float64 | PString string | PBytes bytes | PEnum int
  | PMsg pmsg | PList "pval list" | PMap "(map_key \<times> pval) list"
and pmsg = ProtoMsg (pm_desc: desc_id) (pm_fields: "(int \<times> pval) list") (pm_go: go_type)

text \<open>A \<^verbatim>\<open>protoreflect.MessageType\<close>: the descriptor and the Go type of a new message.\<close>

record message_type =
  mt_desc :: desc_id
  mt_fresh :: go_type

definition dynamic_message_type :: "desc_id \<Rightarrow> message_type" where
  "dynamic_message_type d = \<lparr>mt_desc = d, mt_fresh = DynamicType\<rparr>"

definition new_message :: "message_type \<Rightarrow> pmsg" where
  "new_message mt = ProtoMsg (mt_desc mt) [] (mt_fresh mt)"

text \<open>\<^verbatim>\<open>Has\<close>: whether the field is populated.\<close>

definition pm_has :: "pmsg \<Rightarrow> field_desc \<Rightarrow> bool" where
  "pm_has m fd = (map_of (pm_fields m) (fd_number fd) \<noteq> None)"

text \<open>\<^verbatim>\<open>Set\<close>.\<close>

definition pm_set :: "pmsg \<Rightarrow> field_desc \<Rightarrow> pval \<Rightarrow> pmsg" where
  "pm_set m fd v = ProtoMsg (pm_desc m) (AList.update (fd_number fd) v (pm_fields m)) (pm_go m)"

section \<open>The Knit messages\<close>

datatype on_error = NoOnError | Catch | Throw

text \<open>
  \<^verbatim>\<open>MaskField\<close>. \<open>mf_params\<close> is a pointer: its address (patches are grouped by it) and the
  value it points to.
\<close>

datatype mask_field =
  MaskField (mf_name: string) (mf_params: "(nat \<times> gvalue) option")
    (mf_mask: "mask_field list") (mf_on_error: on_error)

record request =
  rq_method :: string
  rq_body :: "gvalue option"
  rq_mask :: "mask_field list"
  rq_on_error :: on_error

datatype scalar_type =
    ST_UNSPECIFIED | ST_INT32 | ST_INT64 | ST_UINT32 | ST_UINT64 | ST_DOUBLE | ST_FLOAT
  | ST_BOOL | ST_STRING | ST_BYTES | ST_ENUM | ST_NULL

text \<open>\<^verbatim>\<open>Schema\<close>, \<^verbatim>\<open>Schema_Field\<close> (name, JSON name, type), \<^verbatim>\<open>Schema_Field_Type\<close> and its elements.\<close>

datatype schema = Schema (sc_name: string) (sc_fields: "schema_field list")
and schema_field = SchemaField (sf_name: string) (sf_json_name: string) (sf_type: field_type)
and field_type =
    TScalar scalar_type | TMessage schema
  | TRepeated element_type | TMap scalar_type element_type
and element_type = EScalar scalar_type | EMessage schema

record response =
  rs_method :: string
  rs_body :: gvalue
  rs_schema :: "schema option"

section \<open>Clients and RPCs\<close>

text \<open>\<^verbatim>\<open>http.Header\<close>: the association list of a Go map, keys distinct.\<close>

type_synonym header = "(string \<times> string list) list"

text \<open>A codec: the two of \<^verbatim>\<open>codec.go\<close>, or a caller's own given to \<^verbatim>\<open>WithCodec\<close>.\<close>

datatype codec = ProtoCodec | JSONCodec | CustomCodec nat

datatype client_option = OptCodec codec | OptGRPC | OptGRPCWeb | OptInterceptor string | OptOther nat

record connect_client =
  cc_http :: nat
  cc_url :: string
  cc_opts :: "client_option list"

record rpc =
  rpc_client :: connect_client
  rpc_headers :: header
  rpc_message :: pmsg

record deferred_message =
  dm_bytes :: bytes
  dm_codec :: "codec option"

text \<open>A value of the Go type \<^verbatim>\<open>any\<close> that a codec is given.\<close>

datatype go_any = AnyMsg pmsg | AnyIndirect go_any | AnyDeferred deferred_message | AnyOther string

record resolve_meta =
  rm_operations :: "string list"
  rm_headers :: header

section \<open>Library functions\<close>

text \<open>
  What the code calls of protobuf-go and connect-go (not under \<^verbatim>\<open>src/\<close>): arguments of the
  model. A \<open>resolver\<close> is a \<^verbatim>\<open>TypeResolver\<close> (nil is \<^const>\<open>None\<close>). \<open>pl_default\<close> is what
  \<^verbatim>\<open>Get\<close> answers for an unpopulated field; \<open>pl_as_struct\<close> unmarshals bytes into the
  generated Go struct of the named well-known type; \<open>pl_marshal\<close> and \<open>pl_unmarshal\<close> are
  \<^verbatim>\<open>proto.Marshal\<close> and \<^verbatim>\<open>proto.Unmarshal\<close> into a given message; the \<open>json\<close> ones are
  protojson; the \<open>custom\<close> ones a caller's codec; \<open>pl_as_time\<close> (seconds since the epoch and
  nanoseconds) and \<open>pl_as_duration\<close> (nanoseconds) are \<^verbatim>\<open>AsTime\<close> and \<^verbatim>\<open>AsDuration\<close>;
  \<open>pl_go_type\<close> is what the \<^verbatim>\<open>%T\<close> verb prints; \<open>pl_value_text\<close> is \<^verbatim>\<open>Value.String\<close> for a
  value that is not a string; \<open>pl_find_message\<close> is
  \<^verbatim>\<open>protoregistry.GlobalTypes.FindMessageByName\<close>; \<open>pl_procedure\<close> is the procedure that Connect
  derives from a client's URL.
\<close>

type_synonym resolver = "nat option"

record protolib =
  pl_default :: "field_desc \<Rightarrow> pval"
  pl_marshal :: "pmsg \<Rightarrow> go_error + bytes"
  pl_as_struct :: "string \<Rightarrow> bytes \<Rightarrow> go_error + go_struct"
  pl_unmarshal :: "bytes \<Rightarrow> pmsg \<Rightarrow> go_error + pmsg"
  pl_json_of_value :: "resolver \<Rightarrow> gvalue option \<Rightarrow> go_error + bytes"
  pl_json_of_msg :: "resolver \<Rightarrow> pmsg \<Rightarrow> go_error + bytes"
  pl_msg_of_json :: "resolver \<Rightarrow> bytes \<Rightarrow> pmsg \<Rightarrow> go_error + pmsg"
  pl_value_of_json :: "resolver \<Rightarrow> bytes \<Rightarrow> go_error + gvalue"
  pl_any_unmarshal_new :: "resolver \<Rightarrow> string \<Rightarrow> bytes \<Rightarrow> go_error + pmsg"
  pl_code_text :: "connect_code \<Rightarrow> string"
  pl_error_code_name :: "connect_code \<Rightarrow> string"
  pl_kind_text :: "kind \<Rightarrow> string"
  pl_scalar_text :: "scalar_type \<Rightarrow> string"
  pl_value_text :: "pval \<Rightarrow> string"
  pl_valid_full_name :: "string \<Rightarrow> bool"
  pl_go_type :: "go_any \<Rightarrow> string"
  pl_custom_name :: "nat \<Rightarrow> string"
  pl_custom_marshal :: "nat \<Rightarrow> go_any \<Rightarrow> go_error + bytes"
  pl_custom_unmarshal :: "nat \<Rightarrow> bytes \<Rightarrow> go_any \<Rightarrow> go_error + go_any"
  pl_find_message :: "string \<Rightarrow> go_error + message_type"
  pl_procedure :: "string \<Rightarrow> string"
  pl_as_time :: "int \<Rightarrow> int \<Rightarrow> int \<times> nat"
  pl_as_duration :: "int \<Rightarrow> int \<Rightarrow> int"

text \<open>\<^verbatim>\<open>Get\<close>: the field's value, or the default for an unpopulated field.\<close>

definition pm_get :: "protolib \<Rightarrow> pmsg \<Rightarrow> field_desc \<Rightarrow> pval" where
  "pm_get lib m fd = (case map_of (pm_fields m) (fd_number fd) of
     Some v \<Rightarrow> v | None \<Rightarrow> pl_default lib fd)"

lemma pm_get_set [simp]: "pm_get lib (pm_set m fd v) fd = v"
  by (simp add: pm_get_def pm_set_def)

lemma pm_has_set [simp]: "pm_has (pm_set m fd v) fd"
  by (simp add: pm_has_def pm_set_def)

lemma pm_get_set_other:
  "fd_number f \<noteq> fd_number fd \<Longrightarrow> pm_get lib (pm_set m fd v) f = pm_get lib m f"
  by (simp add: pm_get_def pm_set_def)

lemma pm_desc_set [simp]: "pm_desc (pm_set m fd v) = pm_desc m"
  by (simp add: pm_set_def)

lemma pm_desc_new [simp]: "pm_desc (new_message mt) = mt_desc mt"
  by (simp add: new_message_def)

lemma field_by_number_Some:
  "field_by_number fds n = Some fd \<Longrightarrow> fd \<in> set fds \<and> fd_number fd = n"
  unfolding field_by_number_def by (rule find_Some_iff2)

lemma field_by_name_Some: "field_by_name fds n = Some fd \<Longrightarrow> fd \<in> set fds \<and> fd_name fd = n"
  unfolding field_by_name_def by (rule find_Some_iff2)

end
