(* ===== verification/Knit_Store.thy ===== *)
theory Knit_Store
  imports Knit_Model
begin

text \<open>
  The objects the gateway shares and mutates while it handles one request, as an explicit
  store: the \<^verbatim>\<open>*structpb.Struct\<close> objects that patches are written into, the backing arrays
  of the \<^verbatim>\<open>path\<close> slices, the \<^verbatim>\<open>*resolveMeta\<close> objects that patches are grouped by, and the
  outbound RPCs in the order they were sent. Addresses are allocated upwards.

  The interface \<open>object_store\<close> states what the formatter and the stitcher rely on when they
  create a struct and later write into it; the store of structs provides it.
\<close>

text \<open>A slice of strings that starts at the beginning of its backing array.\<close>

record slice =
  sl_array :: nat
  sl_len :: nat

record store =
  st_structs :: "nat \<Rightarrow> string \<rightharpoonup> gvalue"
  st_next_struct :: nat
  st_arrays :: "nat \<Rightarrow> string list"
  st_next_array :: nat
  st_metas :: "nat \<Rightarrow> resolve_meta"
  st_next_meta :: nat
  st_rpcs :: "rpc list"

definition empty_store :: store where
  "empty_store = \<lparr>st_structs = (\<lambda>_. Map.empty), st_next_struct = 0,
     st_arrays = (\<lambda>_. []), st_next_array = 0,
     st_metas = (\<lambda>_. \<lparr>rm_operations = [], rm_headers = []\<rparr>), st_next_meta = 0, st_rpcs = []\<rparr>"

section \<open>Structs\<close>

text \<open>\<^verbatim>\<open>&structpb.Struct{Fields: map[string]*structpb.Value{}}\<close> and \<^verbatim>\<open>target.Fields[name] = v\<close>.\<close>

definition new_struct :: "store \<Rightarrow> nat \<times> store" where
  "new_struct s = (st_next_struct s,
     s\<lparr>st_structs := (st_structs s)(st_next_struct s := Map.empty),
       st_next_struct := Suc (st_next_struct s)\<rparr>)"

definition set_field :: "nat \<Rightarrow> string \<Rightarrow> gvalue \<Rightarrow> store \<Rightarrow> store" where
  "set_field a n v s =
     s\<lparr>st_structs := (st_structs s)(a := (st_structs s a)(n \<mapsto> v))\<rparr>"

locale object_store =
  fixes alloc :: "'s \<Rightarrow> nat \<times> 's"
    and upd :: "nat \<Rightarrow> 'k \<Rightarrow> 'v \<Rightarrow> 's \<Rightarrow> 's"
    and read :: "'s \<Rightarrow> nat \<Rightarrow> 'k \<rightharpoonup> 'v"
    and live :: "'s \<Rightarrow> nat \<Rightarrow> bool"
  assumes alloc_fresh: "alloc s = (a, s') \<Longrightarrow> \<not> live s a"
    and alloc_live: "alloc s = (a, s') \<Longrightarrow> live s' x \<longleftrightarrow> live s x \<or> x = a"
    and alloc_read: "alloc s = (a, s') \<Longrightarrow> read s' x = (if x = a then Map.empty else read s x)"
    and write_live: "live (upd a k v s) x \<longleftrightarrow> live s x"
    and write_read: "read (upd a k v s) x = (if x = a then (read s a)(k \<mapsto> v) else read s x)"
begin

text \<open>A sequence of writes, as the goroutines of one round perform them.\<close>

fun writes :: "(nat \<times> 'k \<times> 'v) list \<Rightarrow> 's \<Rightarrow> 's" where
  "writes [] s = s"
| "writes ((a, k, v) # ws) s = writes ws (upd a k v s)"

lemma writes_append: "writes (xs @ ys) s = writes ys (writes xs s)"
  by (induction xs arbitrary: s) auto

lemma writes_live: "live (writes ws s) x \<longleftrightarrow> live s x"
  by (induction ws s rule: writes.induct) (auto simp: write_live)

text \<open>What a field holds afterwards is the last value written to it.\<close>

lemma writes_read:
  "read (writes ws s) x k =
     (case map_of (rev (map (\<lambda>(a, k, v). ((a, k), v)) ws)) (x, k) of
        Some v \<Rightarrow> Some v | None \<Rightarrow> read s x k)"
proof (induction ws s rule: writes.induct)
  case (2 a k' v ws s)
  then show ?case
    by (auto simp: write_read map_add_def split: option.splits)
qed simp

text \<open>Writes to pairwise distinct fields commute: any order gives the same contents.\<close>

lemma writes_order_irrelevant:
  assumes "mset ws = mset ws'" and "distinct (map (\<lambda>(a, k, v). (a, k)) ws)"
  shows "read (writes ws s) x k = read (writes ws' s) x k"
proof -
  let ?f = "\<lambda>(a, k, v). ((a, k), v)"
  have m: "mset (map ?f ws) = mset (map ?f ws')"
    by (simp only: mset_map assms(1))
  have "map fst (map ?f ws) = map (\<lambda>(a, k, v). (a, k)) ws"
    by (induction ws) auto
  then have d: "distinct (map fst (map ?f ws))"
    using assms(2) by (simp only:)
  have fs: "mset (map fst (map ?f ws)) = mset (map fst (map ?f ws'))"
    by (simp only: mset_map [of fst] m)
  have d': "distinct (map fst (map ?f ws'))"
    using d mset_eq_imp_distinct_iff [OF fs] by (simp only:)
  have dr: "distinct (map fst (rev (map ?f ws)))" "distinct (map fst (rev (map ?f ws')))"
    using d d' by (simp_all only: rev_map [symmetric] distinct_rev)
  have "map_of (rev (map ?f ws)) = map_of (rev (map ?f ws'))"
  proof (rule map_of_eqI)
    show "set (map fst (rev (map ?f ws))) = set (map fst (rev (map ?f ws')))"
      using mset_eq_setD [OF fs] by (simp only: rev_map [symmetric] set_rev)
    show "\<forall>y \<in> set (map fst (rev (map ?f ws))).
        map_of (rev (map ?f ws)) y = map_of (rev (map ?f ws')) y"
    proof
      fix y
      assume "y \<in> set (map fst (rev (map ?f ws)))"
      then obtain p where p: "p \<in> set (rev (map ?f ws))" "y = fst p"
        unfolding set_map [of fst] by blast
      define v where "v = snd p"
      have v: "(y, v) \<in> set (rev (map ?f ws))"
        using p(1) unfolding p(2) v_def prod.collapse .
      then have v': "(y, v) \<in> set (rev (map ?f ws'))"
        using mset_eq_setD [OF m] by (simp only: set_rev)
      show "map_of (rev (map ?f ws)) y = map_of (rev (map ?f ws')) y"
        using map_of_is_SomeI [OF dr(1) v] map_of_is_SomeI [OF dr(2) v'] by (simp only:)
    qed
  qed
  then show ?thesis by (simp add: writes_read)
qed

end

interpretation structs: object_store new_struct set_field st_structs "\<lambda>s a. a < st_next_struct s"
  by unfold_locales (auto simp: new_struct_def set_field_def)

section \<open>Slices of the path\<close>

text \<open>
  \<^verbatim>\<open>[]string{x}\<close> and \<^verbatim>\<open>make([]string, n)\<close> with the elements copied in: an array of exactly
  that capacity. \<^verbatim>\<open>append(sl, x)\<close> writes into the array when there is room, so another
  slice of the same array sees the write; otherwise it copies into a larger array. How much
  larger is up to Go's run time: \<open>grow\<close> gives the new capacity for an old one, and the
  language only promises that it is enough.
\<close>

definition new_slice :: "string list \<Rightarrow> store \<Rightarrow> slice \<times> store" where
  "new_slice xs s =
     (\<lparr>sl_array = st_next_array s, sl_len = length xs\<rparr>,
      s\<lparr>st_arrays := (st_arrays s)(st_next_array s := xs), st_next_array := Suc (st_next_array s)\<rparr>)"

definition slice_elems :: "store \<Rightarrow> slice \<Rightarrow> string list" where
  "slice_elems s sl = take (sl_len sl) (st_arrays s (sl_array sl))"

definition slice_cap :: "store \<Rightarrow> slice \<Rightarrow> nat" where
  "slice_cap s sl = length (st_arrays s (sl_array sl))"

definition append_slice :: "(nat \<Rightarrow> nat) \<Rightarrow> slice \<Rightarrow> string \<Rightarrow> store \<Rightarrow> slice \<times> store" where
  "append_slice grow sl x s =
     (let arr = st_arrays s (sl_array sl); n = sl_len sl
      in if n < length arr then
           (sl\<lparr>sl_len := Suc n\<rparr>, s\<lparr>st_arrays := (st_arrays s)(sl_array sl := arr[n := x])\<rparr>)
         else
           (let pad = replicate (grow (length arr) - Suc n) []
            in (\<lparr>sl_array = st_next_array s, sl_len = Suc n\<rparr>,
                s\<lparr>st_arrays := (st_arrays s)(st_next_array s := take n arr @ [x] @ pad),
                  st_next_array := Suc (st_next_array s)\<rparr>)))"

text \<open>Whatever the growth, the returned slice holds the old elements and the new one.\<close>

lemma append_slice_elems:
  assumes "sl_len sl \<le> slice_cap s sl" "append_slice grow sl x s = (sl', s')"
  shows "slice_elems s' sl' = slice_elems s sl @ [x]"
  using assms
  by (auto simp: append_slice_def Let_def slice_elems_def slice_cap_def take_Suc_conv_app_nth
      split: if_splits)

lemma append_slice_wf:
  assumes "sl_len sl \<le> slice_cap s sl" "append_slice grow sl x s = (sl', s')"
  shows "sl_len sl' \<le> slice_cap s' sl'" "sl_len sl' = Suc (sl_len sl)"
  using assms by (auto simp: append_slice_def Let_def slice_cap_def split: if_splits)

section \<open>Metadata and RPCs\<close>

definition new_meta :: "resolve_meta \<Rightarrow> store \<Rightarrow> nat \<times> store" where
  "new_meta m s = (st_next_meta s,
     s\<lparr>st_metas := (st_metas s)(st_next_meta s := m), st_next_meta := Suc (st_next_meta s)\<rparr>)"

definition log_rpc :: "rpc \<Rightarrow> store \<Rightarrow> store" where
  "log_rpc r s = s\<lparr>st_rpcs := st_rpcs s @ [r]\<rparr>"

section \<open>Computations on the store\<close>

text \<open>
  A Go function that works on the store: its outcome and the store it leaves, also when it
  returns an error. \<open>sbind\<close> is \<^verbatim>\<open>x, err := m(); if err != nil { return err }; ...\<close>.
\<close>

type_synonym 'a run = "store \<Rightarrow> 'a result \<times> store"

definition sbind :: "'a run \<Rightarrow> ('a \<Rightarrow> 'b run) \<Rightarrow> 'b run" where
  "sbind m f s = (case m s of
     (Ok x, t) \<Rightarrow> f x t | (Err e, t) \<Rightarrow> (Err e, t) | (Panic p, t) \<Rightarrow> (Panic p, t))"

text \<open>An outcome that does not depend on the store, and an operation that cannot fail.\<close>

definition slift :: "'a result \<Rightarrow> 'a run" where
  "slift r s = (r, s)"

definition sdo :: "(store \<Rightarrow> 'a \<times> store) \<Rightarrow> 'a run" where
  "sdo f s = (Ok (fst (f s)), snd (f s))"

text \<open>A computation that depends on the store it starts in.\<close>

definition sread :: "(store \<Rightarrow> 'a run) \<Rightarrow> 'a run" where
  "sread f s = f s s"

lemma sbind_cong [fundef_cong]:
  assumes "s = s'" "m s' = m' s'" "\<And>x t. m' s' = (Ok x, t) \<Longrightarrow> f x t = f' x t"
  shows "sbind m f s = sbind m' f' s'"
  using assms by (auto simp: sbind_def split: prod.split outcome.split)

lemma sbind_simps [simp]:
  "m s = (Ok x, t) \<Longrightarrow> sbind m f s = f x t"
  "m s = (Err e, t) \<Longrightarrow> sbind m f s = (Err e, t)"
  "m s = (Panic p, t) \<Longrightarrow> sbind m f s = (Panic p, t)"
  by (simp_all add: sbind_def)

lemma slift_eq [simp]: "slift r s = (r', s') \<longleftrightarrow> r' = r \<and> s' = s"
  by (auto simp: slift_def)

lemma sdo_eq [simp]: "sdo f s = (r, s') \<longleftrightarrow> (\<exists>x. r = Ok x \<and> f s = (x, s'))"
  by (cases "f s") (auto simp: sdo_def)

lemma sbind_cases [consumes 1, case_names Ok Err Panic]:
  assumes "sbind m f s = (r, s')"
  obtains x t where "m s = (Ok x, t)" "f x t = (r, s')"
  | e where "m s = (Err e, s')" "r = Err e"
  | p where "m s = (Panic p, s')" "r = Panic p"
  using assms by (auto simp: sbind_def split: prod.splits outcome.splits)

lemma sbind_eq_Ok_iff:
  "sbind m f s = (Ok y, s') \<longleftrightarrow> (\<exists>x t. m s = (Ok x, t) \<and> f x t = (Ok y, s'))"
  by (auto simp: sbind_def split: prod.splits outcome.splits)

section \<open>Effect of each operation on each component\<close>

lemma new_struct_simps [store_simps]:
  "fst (new_struct s) = st_next_struct s"
  "st_next_struct (snd (new_struct s)) = Suc (st_next_struct s)"
  "st_structs (snd (new_struct s)) = (st_structs s)(st_next_struct s := Map.empty)"
  "st_arrays (snd (new_struct s)) = st_arrays s" "st_next_array (snd (new_struct s)) = st_next_array s"
  "st_metas (snd (new_struct s)) = st_metas s" "st_next_meta (snd (new_struct s)) = st_next_meta s"
  "st_rpcs (snd (new_struct s)) = st_rpcs s"
  by (simp_all add: new_struct_def)

lemma set_field_simps [store_simps]:
  "st_next_struct (set_field a n v s) = st_next_struct s"
  "st_structs (set_field a n v s) = (st_structs s)(a := (st_structs s a)(n \<mapsto> v))"
  "st_arrays (set_field a n v s) = st_arrays s" "st_next_array (set_field a n v s) = st_next_array s"
  "st_metas (set_field a n v s) = st_metas s" "st_next_meta (set_field a n v s) = st_next_meta s"
  "st_rpcs (set_field a n v s) = st_rpcs s"
  by (simp_all add: set_field_def)

lemma append_slice_simps [store_simps]:
  "st_next_struct (snd (append_slice g sl x s)) = st_next_struct s"
  "st_structs (snd (append_slice g sl x s)) = st_structs s"
  "st_metas (snd (append_slice g sl x s)) = st_metas s"
  "st_next_meta (snd (append_slice g sl x s)) = st_next_meta s"
  "st_rpcs (snd (append_slice g sl x s)) = st_rpcs s"
  by (simp_all add: append_slice_def Let_def)

lemma new_slice_simps [store_simps]:
  "st_next_struct (snd (new_slice xs s)) = st_next_struct s"
  "st_structs (snd (new_slice xs s)) = st_structs s"
  "st_metas (snd (new_slice xs s)) = st_metas s" "st_next_meta (snd (new_slice xs s)) = st_next_meta s"
  "st_rpcs (snd (new_slice xs s)) = st_rpcs s"
  by (simp_all add: new_slice_def)

lemma new_meta_simps [store_simps]:
  "fst (new_meta m s) = st_next_meta s"
  "st_next_struct (snd (new_meta m s)) = st_next_struct s"
  "st_structs (snd (new_meta m s)) = st_structs s"
  "st_arrays (snd (new_meta m s)) = st_arrays s" "st_next_array (snd (new_meta m s)) = st_next_array s"
  "st_metas (snd (new_meta m s)) = (st_metas s)(st_next_meta s := m)"
  "st_next_meta (snd (new_meta m s)) = Suc (st_next_meta s)"
  "st_rpcs (snd (new_meta m s)) = st_rpcs s"
  by (simp_all add: new_meta_def)

lemma log_rpc_simps [store_simps]:
  "st_next_struct (log_rpc r s) = st_next_struct s" "st_structs (log_rpc r s) = st_structs s"
  "st_arrays (log_rpc r s) = st_arrays s" "st_next_array (log_rpc r s) = st_next_array s"
  "st_metas (log_rpc r s) = st_metas s" "st_next_meta (log_rpc r s) = st_next_meta s"
  "st_rpcs (log_rpc r s) = st_rpcs s @ [r]"
  by (simp_all add: log_rpc_def)

end
