(* ===== verification/Knit_Names.thy ===== *)
theory Knit_Names
  imports Knit_Store
begin

text \<open>
  \<^verbatim>\<open>fieldWithCamelCaseName\<close> of \<^verbatim>\<open>format.go\<close>: the field a mask entry names. The quick lookup
  by the snake-case form of the name is an optimisation of the search by JSON name; the
  lemmas say when the two agree, and that they do not for a name with an underscore.
\<close>

definition fieldWithCamelCaseName :: "field_desc list \<Rightarrow> string \<Rightarrow> field_desc option" where
  "fieldWithCamelCaseName fds name =
     (case field_by_name fds (snakeCase name) of
        Some field \<Rightarrow> Some field
      | None \<Rightarrow> find (\<lambda>field. camelCase (fd_name field) = name) fds)"

lemma camelCase_snakeCase: "CHR ''_'' \<notin> set s \<Longrightarrow> camelCase (snakeCase s) = s"
  by (rule snake_text.dec_enc)

lemma fieldWithCamelCaseName_in_set: "fieldWithCamelCaseName fds n = Some f \<Longrightarrow> f \<in> set fds"
  by (auto simp: fieldWithCamelCaseName_def split: option.splits
      dest: field_by_name_Some find_Some_iff2)

lemma fieldWithCamelCaseName_sound:
  "CHR ''_'' \<notin> set n \<Longrightarrow> fieldWithCamelCaseName fds n = Some f \<Longrightarrow> camelCase (fd_name f) = n"
  by (auto simp: fieldWithCamelCaseName_def camelCase_snakeCase split: option.splits
      dest: field_by_name_Some find_Some_iff2)

lemma fieldWithCamelCaseName_complete:
  "f \<in> set fds \<Longrightarrow> camelCase (fd_name f) = n \<Longrightarrow> \<exists>g. fieldWithCamelCaseName fds n = Some g"
  by (auto simp: fieldWithCamelCaseName_def split: option.splits intro: find_exists)

lemma fieldWithCamelCaseName_None:
  "fieldWithCamelCaseName fds n = None \<Longrightarrow> f \<in> set fds \<Longrightarrow> camelCase (fd_name f) \<noteq> n"
  using fieldWithCamelCaseName_complete by fastforce

text \<open>Where no two fields share a JSON name, the lookup is exactly the search by JSON name.\<close>

lemma fieldWithCamelCaseName_exact:
  assumes "CHR ''_'' \<notin> set n" "inj_on (\<lambda>f. camelCase (fd_name f)) (set fds)"
  shows "fieldWithCamelCaseName fds n = Some f \<longleftrightarrow> f \<in> set fds \<and> camelCase (fd_name f) = n"
proof
  assume "fieldWithCamelCaseName fds n = Some f"
  then show "f \<in> set fds \<and> camelCase (fd_name f) = n"
    using assms(1) fieldWithCamelCaseName_in_set fieldWithCamelCaseName_sound by auto
next
  assume f: "f \<in> set fds \<and> camelCase (fd_name f) = n"
  then obtain g where g: "fieldWithCamelCaseName fds n = Some g"
    using fieldWithCamelCaseName_complete by blast
  have "g \<in> set fds" "camelCase (fd_name g) = n"
    using fieldWithCamelCaseName_in_set [OF g] fieldWithCamelCaseName_sound [OF assms(1) g] .
  with assms(2) f have "g = f"
    by (metis (no_types, lifting) inj_onD)
  with g show "fieldWithCamelCaseName fds n = Some f" by simp
qed

end
