(* ===== verification/Knit_Codec.thy ===== *)
theory Knit_Codec
  imports Knit_Store
begin

text \<open>
  \<^verbatim>\<open>codec.go\<close>: the codecs of outbound RPCs. A \<^verbatim>\<open>dynamicCodec\<close> wraps another codec so that a
  response is not unmarshalled while Connect reads it: the target is a \<^verbatim>\<open>deferredMessage\<close>
  that only keeps a copy of the bytes and the codec, and the gateway unmarshals it into a
  message of the right dynamic type afterwards. A codec's \<^verbatim>\<open>Unmarshal\<close> returns the target's
  new contents.
\<close>

definition not_a_message :: "string \<Rightarrow> go_error" where
  "not_a_message ty = Errorf ''invalid message: %T does not implement proto.Message'' [AStr ty]"

section \<open>defaultProtoCodec and defaultJSONCodec\<close>

definition proto_Name :: string where
  "proto_Name = ''proto''"

definition proto_Marshal :: "protolib \<Rightarrow> go_any \<Rightarrow> bytes result" where
  "proto_Marshal lib a =
     (case a of AnyMsg m \<Rightarrow> of_sum (pl_marshal lib m) | _ \<Rightarrow> Err (not_a_message (pl_go_type lib a)))"

definition proto_Unmarshal :: "protolib \<Rightarrow> bytes \<Rightarrow> go_any \<Rightarrow> go_any result" where
  "proto_Unmarshal lib bs a =
     (case a of AnyMsg m \<Rightarrow> obind (of_sum (pl_unmarshal lib bs m)) (\<lambda>m'. Ok (AnyMsg m'))
      | _ \<Rightarrow> Err (not_a_message (pl_go_type lib a)))"

definition json_Name :: string where
  "json_Name = ''json''"

definition json_Marshal :: "protolib \<Rightarrow> go_any \<Rightarrow> bytes result" where
  "json_Marshal lib a =
     (case a of AnyMsg m \<Rightarrow> of_sum (pl_json_of_msg lib None m)
      | _ \<Rightarrow> Err (not_a_message (pl_go_type lib a)))"

definition json_Unmarshal :: "protolib \<Rightarrow> bytes \<Rightarrow> go_any \<Rightarrow> go_any result" where
  "json_Unmarshal lib bs a =
     (case a of AnyMsg m \<Rightarrow> obind (of_sum (pl_msg_of_json lib None bs m)) (\<lambda>m'. Ok (AnyMsg m'))
      | _ \<Rightarrow> Err (not_a_message (pl_go_type lib a)))"

text \<open>The codec that a client has: one of these two, or the caller's.\<close>

fun codec_name :: "protolib \<Rightarrow> codec \<Rightarrow> string" where
  "codec_name lib ProtoCodec = proto_Name"
| "codec_name lib JSONCodec = json_Name"
| "codec_name lib (CustomCodec k) = pl_custom_name lib k"

fun codec_marshal :: "protolib \<Rightarrow> codec \<Rightarrow> go_any \<Rightarrow> bytes result" where
  "codec_marshal lib ProtoCodec a = proto_Marshal lib a"
| "codec_marshal lib JSONCodec a = json_Marshal lib a"
| "codec_marshal lib (CustomCodec k) a = of_sum (pl_custom_marshal lib k a)"

fun codec_unmarshal :: "protolib \<Rightarrow> codec \<Rightarrow> bytes \<Rightarrow> go_any \<Rightarrow> go_any result" where
  "codec_unmarshal lib ProtoCodec bs a = proto_Unmarshal lib bs a"
| "codec_unmarshal lib JSONCodec bs a = json_Unmarshal lib bs a"
| "codec_unmarshal lib (CustomCodec k) bs a = of_sum (pl_custom_unmarshal lib k bs a)"

declare proto_Marshal_def [simp] proto_Unmarshal_def [simp] json_Marshal_def [simp] json_Unmarshal_def [simp]

section \<open>dynamicCodec\<close>

definition dynamic_name :: "protolib \<Rightarrow> codec \<Rightarrow> string" where
  "dynamic_name lib c = codec_name lib c"

definition dynamic_marshal :: "protolib \<Rightarrow> codec \<Rightarrow> go_any \<Rightarrow> bytes result" where
  "dynamic_marshal lib c msg =
     codec_marshal lib c (case msg of AnyIndirect a \<Rightarrow> a | _ \<Rightarrow> msg)"

definition dynamic_unmarshal :: "protolib \<Rightarrow> codec \<Rightarrow> bytes \<Rightarrow> go_any \<Rightarrow> go_any result" where
  "dynamic_unmarshal lib c bs msg =
     (case msg of
        AnyDeferred dm \<Rightarrow> Ok (AnyDeferred (dm\<lparr>dm_bytes := bs, dm_codec := Some c\<rparr>))
      | _ \<Rightarrow> codec_unmarshal lib c bs msg)"

text \<open>A new \<^verbatim>\<open>deferredMessage\<close>, as Connect makes one for each response.\<close>

definition new_deferred :: deferred_message where
  "new_deferred = \<lparr>dm_bytes = [], dm_codec = None\<rparr>"

text \<open>\<^verbatim>\<open>deferredMessage.unmarshal\<close> into a message: its new contents.\<close>

definition deferred_unmarshal :: "protolib \<Rightarrow> deferred_message \<Rightarrow> pmsg \<Rightarrow> pmsg result" where
  "deferred_unmarshal lib dm msg =
     (case dm_codec dm of
        None \<Rightarrow>
          (if dm_bytes dm = [] then Ok msg
           else Err (Errorf ''internal: %d bytes, but codec to unmarshal is nil''
                       [AInt (int (length (dm_bytes dm)))]))
      | Some c \<Rightarrow>
          obind (codec_unmarshal lib c (dm_bytes dm) (AnyMsg msg))
            (\<lambda>a. Ok (case a of AnyMsg m \<Rightarrow> m | _ \<Rightarrow> msg)))"

definition defaultCodec :: client_option where
  "defaultCodec = OptCodec ProtoCodec"

text \<open>Deferring is transparent: what the wrapped codec would have produced is produced later.\<close>

lemma dynamic_then_deferred:
  assumes "dynamic_unmarshal lib c bs (AnyDeferred dm) = Ok (AnyDeferred dm')"
  shows "deferred_unmarshal lib dm' m =
    obind (codec_unmarshal lib c bs (AnyMsg m)) (\<lambda>a. Ok (case a of AnyMsg m' \<Rightarrow> m' | _ \<Rightarrow> m))"
  using assms by (auto simp: dynamic_unmarshal_def deferred_unmarshal_def)

lemma deferred_unmarshal_new [simp]: "deferred_unmarshal lib new_deferred m = Ok m"
  by (simp add: deferred_unmarshal_def new_deferred_def)

end
