(* ===== verification/Knit_Relation.thy ===== *)
theory Knit_Relation
  imports Knit_Names Knit_Codec
begin

text \<open>
  \<^verbatim>\<open>relation.go\<close>: the configuration of a relation, the checks a resolver method must pass
  (\<open>getRelationConfig\<close>), and the resolver that calls it (\<open>newRemoteResolver\<close>). A backend is
  an argument of the model: \<open>network\<close> answers an RPC given the RPCs sent before it, so its
  answers may change over time. The interface \<open>batch_resolver\<close> is the contract between a
  resolver and the stitcher: one value per base.
\<close>

type_synonym network = "rpc list \<Rightarrow> rpc \<Rightarrow> go_error + deferred_message"

text \<open>
  \<^verbatim>\<open>relationResolver\<close>: metadata, bases and parameters to one value per base (an invalid
  \<^verbatim>\<open>protoreflect.Value\<close> is \<^const>\<open>None\<close>); it may send RPCs, which the store records.
\<close>

type_synonym relation_resolver =
  "resolve_meta \<Rightarrow> pmsg list \<Rightarrow> pmsg \<Rightarrow> store \<Rightarrow> pval option list result \<times> store"

record relation_config =
  rc_name :: string
  rc_method :: method_desc
  rc_descriptor :: field_desc
  rc_request_type :: "message_type option"
  rc_base_field :: field_desc
  rc_resolver :: relation_resolver

definition knitOperationsHeader :: string where
  "knitOperationsHeader = ''Knit-Operations''"

section \<open>resolveMeta.toHeaders\<close>

fun copy_headers :: "header \<Rightarrow> header \<Rightarrow> header" where
  "copy_headers [] hdrs = hdrs"
| "copy_headers ((k, vv) # rest) hdrs =
     (if map_of hdrs k \<noteq> None then copy_headers rest hdrs
      else copy_headers rest (AList.update k vv hdrs))"

definition toHeaders :: "resolve_meta \<Rightarrow> header \<Rightarrow> header" where
  "toHeaders r hdrs =
     AList.update knitOperationsHeader (rm_operations r) (copy_headers (rm_headers r) hdrs)"

lemma copy_headers_lookup:
  "distinct (map fst src) \<Longrightarrow> map_of (copy_headers src hdrs) k =
     (case map_of hdrs k of Some vv \<Rightarrow> Some vv | None \<Rightarrow> map_of src k)"
proof (induction src hdrs rule: copy_headers.induct)
  case (2 k' vv rest hdrs)
  then have k': "map_of rest k' = None" by (auto simp: map_of_eq_None_iff)
  show ?case
  proof (cases "map_of hdrs k'")
    case None
    with 2 k' show ?thesis by (auto split: option.splits)
  next
    case (Some v)
    with 2 show ?thesis by (auto split: option.splits)
  qed
qed (simp split: option.split)

section \<open>getRelationConfig\<close>

text \<open>\<^verbatim>\<open>List()\<close> and \<^verbatim>\<open>Message()\<close> of a \<^verbatim>\<open>protoreflect.Value\<close> panic on another type.\<close>

definition pv_list :: "pval \<Rightarrow> pval list result" where
  "pv_list v = (case v of PList vs \<Rightarrow> Ok vs | _ \<Rightarrow> Panic ''type mismatch: cannot convert to list'')"

definition pv_message :: "pval \<Rightarrow> pmsg result" where
  "pv_message v = (case v of PMsg m \<Rightarrow> Ok m | _ \<Rightarrow> Panic ''type mismatch: cannot convert to message'')"

definition idempotency_text :: "idempotency \<Rightarrow> string" where
  "idempotency_text i = (case i of IdempotencyUnknown \<Rightarrow> ''IDEMPOTENCY_UNKNOWN''
     | NoSideEffects \<Rightarrow> ''NO_SIDE_EFFECTS'' | Idempotent \<Rightarrow> ''IDEMPOTENT'')"

text \<open>\<^verbatim>\<open>newRemoteResolver\<close>: the closure over the relation's base field, name and descriptor.\<close>

definition newRemoteResolver ::
  "protolib \<Rightarrow> network \<Rightarrow> desc_pool \<Rightarrow> string \<Rightarrow> field_desc \<Rightarrow> field_desc \<Rightarrow> field_desc
   \<Rightarrow> message_type \<Rightarrow> connect_client \<Rightarrow> relation_resolver" where
  "newRemoteResolver lib net pool rel_name base_field descriptor result_field response_type client =
     (\<lambda>res_meta bases params st.
       (let base_name = md_full_name (pool (fd_message base_field));
            wrap = (\<lambda>f args. Errorf f ([AStr (camelCase rel_name), AStr base_name] @ args))
        in case pm_go params of
             DynamicType \<Rightarrow>
               (let request = pm_set params base_field (PList (map PMsg bases));
                    r = \<lparr>rpc_client = client, rpc_headers = toHeaders res_meta [],
                          rpc_message = request\<rparr>;
                    st' = log_rpc r st
                in case net (st_rpcs st) r of
                     Inl e \<Rightarrow> (Err (wrap ''resolving relation %q of %q: %w'' [AErr e]), st')
                   | Inr dm \<Rightarrow>
                      ((case deferred_unmarshal lib dm (new_message response_type) of
                          Panic s \<Rightarrow> Panic s
                        | Err e \<Rightarrow>
                            Err (wrap ''resolving relation %q of %q: failed to unmarshal response: %w''
                                   [AErr e])
                        | Ok resp \<Rightarrow>
                            obind (pv_list (pm_get lib resp result_field)) (\<lambda>vals.
                              if length vals \<noteq> length bases then
                                Err (wrap ''resolving relation %q of %q: wrong number of results returned: expecting %d, fot %d''
                                       [AInt (int (length bases)), AInt (int (length vals))])
                              else omap (\<lambda>v. obind (pv_message v)
                                     (\<lambda>m. Ok (Some (pm_get lib m descriptor)))) vals)),
                       st'))
           | _ \<Rightarrow>
               (Err (Errorf ''cloning request resulting value of type %T instead of %T''
                       [AStr (pl_go_type lib (AnyMsg params)), AStr ''*dynamicpb.Message'']), st)))"

definition getRelationConfig ::
  "protolib \<Rightarrow> network \<Rightarrow> desc_pool \<Rightarrow> method_desc \<Rightarrow> string \<Rightarrow> connect_client \<Rightarrow> relation_config result" where
  "getRelationConfig lib net pool method name client =
     (if mth_streaming_client method \<or> mth_streaming_server method then
        Err (Errorf ''method %s is not a valid resolver: it must be unary, not streamining''
               [AStr (mth_full_name method)])
      else if (if mth_options_ok method then mth_idempotency method else IdempotencyUnknown)
              \<noteq> NoSideEffects then
        Err (Errorf ''method %s is not a valid resolver: it must have no side effects, but idempotency level is instead %s''
               [AStr (mth_full_name method),
                AStr (idempotency_text (if mth_options_ok method then mth_idempotency method
                                        else IdempotencyUnknown))])
      else
        (let request_fields = md_fields (pool (mth_input method));
             response_fields = md_fields (pool (mth_output method))
         in if length request_fields < 1 then
              Err (errors_New ''request message should have at least one field for the base entities'')
            else case field_by_number request_fields 1 of
              None \<Rightarrow> Err (errors_New ''request message should have a field with tag number 1 for the base entities'')
            | Some base_field \<Rightarrow>
              if fd_name base_field \<noteq> ''bases'' then
                Err (errors_New (''request message should have a field named '' @ quoted ''bases'' @ '' for the base entities''))
              else if \<not> fd_is_list base_field then
                Err (errors_New (''request message field named '' @ quoted ''bases'' @ '' should be repeated (to accept a batch of entities to resolve)''))
              else if fd_kind base_field \<noteq> MessageKind then
                Err (errors_New (''request message field named '' @ quoted ''bases'' @ '' should have element type that is a message''))
              else if length response_fields \<noteq> 1 then
                Err (errors_New ''response message should have exactly one field for the resolved relation values'')
              else case field_by_number response_fields 1 of
                None \<Rightarrow> Err (errors_New ''response message should have a field with tag number 1 for the resolved relation values'')
              | Some result_field \<Rightarrow>
                if fd_name result_field \<noteq> ''values'' then
                  Err (errors_New (''response message should have a field named '' @ quoted ''values'' @ '' for the resolved relation values''))
                else if \<not> fd_is_list result_field then
                  Err (errors_New (''response message field named '' @ quoted ''values'' @ '' should be repeated (one value for each requested base)''))
                else if fd_kind result_field \<noteq> MessageKind then
                  Err (errors_New (''response message field named '' @ quoted ''values'' @ '' should have element type that is a single-field message''))
                else
                  (let wrapper = pool (fd_message result_field); wrapper_fields = md_fields wrapper
                   in if length wrapper_fields \<noteq> 1 then
                        Err (Errorf ''message %s should have exactly one field for the resolved relation value''
                               [AStr (md_name wrapper)])
                      else case field_by_number wrapper_fields 1 of
                        None \<Rightarrow> Err (Errorf ''message %s should have a field with tag number 1 for the resolved relation value''
                                       [AStr (md_name wrapper)])
                      | Some relation_field \<Rightarrow>
                        if fd_name relation_field \<noteq> name then
                          Err (Errorf ''message %s field named %s should have same name as relation: %s''
                                 [AStr (md_name wrapper), AStr (fd_name relation_field), AStr name])
                        else
                          Ok \<lparr>rc_name = name, rc_method = method, rc_descriptor = relation_field,
                              rc_request_type = Some (dynamic_message_type (mth_input method)),
                              rc_base_field = base_field,
                              rc_resolver = newRemoteResolver lib net pool name base_field relation_field
                                result_field (dynamic_message_type (mth_output method)) client\<rparr>)))"

text \<open>What the checks establish.\<close>

definition relation_valid :: "desc_pool \<Rightarrow> relation_config \<Rightarrow> bool" where
  "relation_valid pool cfg \<longleftrightarrow>
     (let m = rc_method cfg in
        \<not> mth_streaming_client m \<and> \<not> mth_streaming_server m
        \<and> mth_options_ok m \<and> mth_idempotency m = NoSideEffects
        \<and> field_by_number (md_fields (pool (mth_input m))) 1 = Some (rc_base_field cfg)
        \<and> fd_name (rc_base_field cfg) = ''bases'' \<and> fd_is_list (rc_base_field cfg)
        \<and> fd_kind (rc_base_field cfg) = MessageKind
        \<and> rc_request_type cfg = Some (dynamic_message_type (mth_input m))
        \<and> fd_name (rc_descriptor cfg) = rc_name cfg)"

lemma getRelationConfig_valid:
  "getRelationConfig lib net pool method name client = Ok cfg \<Longrightarrow> relation_valid pool cfg"
  by (auto simp: getRelationConfig_def relation_valid_def Let_def split: if_splits option.splits)

lemma getRelationConfig_Ok_fields:
  assumes "getRelationConfig lib net pool method name client = Ok cfg"
  shows "rc_name cfg = name" "rc_method cfg = method"
    "\<exists>result_field. field_by_number (md_fields (pool (mth_output method))) 1 = Some result_field
       \<and> fd_is_list result_field \<and> fd_kind result_field = MessageKind
       \<and> md_fields (pool (fd_message result_field)) = [rc_descriptor cfg]
       \<and> rc_resolver cfg = newRemoteResolver lib net pool name (rc_base_field cfg)
            (rc_descriptor cfg) result_field (dynamic_message_type (mth_output method)) client"
proof -
  show "rc_name cfg = name" "rc_method cfg = method"
    using assms by (auto simp: getRelationConfig_def Let_def split: if_splits option.splits)
  have one: "xs = [x]" if "length xs = 1" "field_by_number xs 1 = Some x" for xs x
    using that by (cases xs) (auto simp: field_by_number_def split: if_splits)
  show "\<exists>result_field. field_by_number (md_fields (pool (mth_output method))) 1 = Some result_field
       \<and> fd_is_list result_field \<and> fd_kind result_field = MessageKind
       \<and> md_fields (pool (fd_message result_field)) = [rc_descriptor cfg]
       \<and> rc_resolver cfg = newRemoteResolver lib net pool name (rc_base_field cfg)
            (rc_descriptor cfg) result_field (dynamic_message_type (mth_output method)) client"
    using assms by (auto simp: getRelationConfig_def Let_def intro!: one split: if_splits option.splits)
qed

lemma getRelationConfig_not_Panic:
  "getRelationConfig lib net pool method name client \<noteq> Panic s"
  by (auto simp: getRelationConfig_def Let_def split: if_splits option.splits)

section \<open>The contract of a resolver\<close>

text \<open>Everything but the RPC log is as before, and the log only grows.\<close>

definition only_rpcs :: "store \<Rightarrow> store \<Rightarrow> bool" where
  "only_rpcs s s' \<longleftrightarrow> (\<exists>rs. s' = s\<lparr>st_rpcs := st_rpcs s @ rs\<rparr>)"

lemma only_rpcs_refl [intro, simp]: "only_rpcs s s"
  unfolding only_rpcs_def by (rule exI [of _ "[]"]) simp

lemma only_rpcs_log [intro, simp]: "only_rpcs s (log_rpc r s)"
  unfolding only_rpcs_def log_rpc_def by blast

lemma only_rpcs_components:
  "only_rpcs s s' \<Longrightarrow> st_structs s' = st_structs s \<and> st_next_struct s' = st_next_struct s
     \<and> st_arrays s' = st_arrays s \<and> st_next_array s' = st_next_array s
     \<and> st_metas s' = st_metas s \<and> st_next_meta s' = st_next_meta s"
  by (auto simp: only_rpcs_def)

locale batch_resolver =
  fixes resolve :: relation_resolver
  assumes resolve_length: "resolve meta bases params s = (Ok vals, s') \<Longrightarrow> length vals = length bases"
    and resolve_store: "resolve meta bases params s = (r, s') \<Longrightarrow> only_rpcs s s'"
begin

lemma resolve_values:
  "resolve meta bases params s = (Ok vals, s') \<Longrightarrow> i < length bases \<Longrightarrow> vals ! i \<in> set vals"
  using resolve_length by fastforce

lemma resolve_keeps_structs:
  "resolve meta bases params s = (r, s') \<Longrightarrow> st_structs s' = st_structs s"
  using resolve_store only_rpcs_components by blast

end

lemma newRemoteResolver_length:
  assumes "newRemoteResolver lib net pool n bf rf result_field rt client meta bases params s = (Ok vals, s')"
  shows "length vals = length bases"
  using assms
  by (auto simp: newRemoteResolver_def Let_def obind_iffs dest: omap_length
      split: go_type.splits sum.splits outcome.splits if_splits)

lemma newRemoteResolver_store:
  assumes "newRemoteResolver lib net pool n bf rf result_field rt client meta bases params s = (r, s')"
  shows "only_rpcs s s'"
  using assms
  by (auto simp: newRemoteResolver_def Let_def split: go_type.splits sum.splits outcome.splits)

interpretation remote: batch_resolver "newRemoteResolver lib net pool n bf rf result_field rt client"
  for lib net pool n bf rf result_field rt client
  by unfold_locales (auto dest: newRemoteResolver_length newRemoteResolver_store)

text \<open>One call sends at most one RPC, whatever the number of bases, with every base in it.\<close>

lemma newRemoteResolver_one_rpc:
  assumes "newRemoteResolver lib net pool n bf rf result_field rt client meta bases params s = (r, s')"
    and "pm_go params = DynamicType"
  shows "st_rpcs s' = st_rpcs s @
    [\<lparr>rpc_client = client, rpc_headers = toHeaders meta [],
      rpc_message = pm_set params bf (PList (map PMsg bases))\<rparr>]"
  using assms
  by (auto simp: newRemoteResolver_def Let_def store_simps split: sum.splits outcome.splits)

end
