(* ===== verification/Knit_Gateway.thy ===== *)
theory Knit_Gateway
  imports Knit_Relation
begin

text \<open>
  \<^verbatim>\<open>knit.go\<close>: the \<^verbatim>\<open>Gateway\<close>, its registration of services and relations, service options
  and endpoint URLs. Registration mutates the gateway method by method, so the operations
  return the gateway as it is left, also when they report an error. The lemmas show what
  every registered method and relation satisfies after any sequence of registrations.
\<close>

record url =
  url_scheme :: string
  url_text :: string

record method_config =
  mc_descriptor :: method_desc
  mc_response_type :: message_type
  mc_client :: connect_client
  mc_type_resolver :: resolver

record gateway =
  gw_client :: "nat option"
  gw_route :: "url option"
  gw_client_options :: "client_option list"
  gw_type_resolver :: resolver
  gw_max_parallelism :: int
  gw_methods :: "string \<rightharpoonup> method_config"
  gw_relations :: "string \<rightharpoonup> (string \<rightharpoonup> relation_config)"

text \<open>\<^verbatim>\<open>http.DefaultClient\<close> is client 0.\<close>

definition http_DefaultClient :: nat where
  "http_DefaultClient = 0"

record svc_opts =
  so_base_url :: "url option"
  so_client :: "nat option"
  so_opts :: "client_option list"
  so_type_resolver :: resolver

section \<open>Service options\<close>

datatype service_option =
    WithRoute "url option" | WithClient "nat option"
  | WithClientOptions "client_option list" | WithTypeResolver resolver

fun apply_service_option :: "service_option \<Rightarrow> svc_opts \<Rightarrow> svc_opts" where
  "apply_service_option (WithRoute u) o' = o'\<lparr>so_base_url := u\<rparr>"
| "apply_service_option (WithClient c) o' = o'\<lparr>so_client := c\<rparr>"
| "apply_service_option (WithClientOptions opts) o' = o'\<lparr>so_opts := so_opts o' @ opts\<rparr>"
| "apply_service_option (WithTypeResolver res) o' = o'\<lparr>so_type_resolver := res\<rparr>"

definition WithCodec :: "codec \<Rightarrow> client_option" where
  "WithCodec c = OptCodec c"

definition WithProtoJSON :: client_option where
  "WithProtoJSON = WithCodec JSONCodec"

definition getSvcOpts :: "gateway \<Rightarrow> svc_opts option \<Rightarrow> service_option list \<Rightarrow> svc_opts result" where
  "getSvcOpts g svc_options opts =
     (let start = (case svc_options of
            None \<Rightarrow> \<lparr>so_base_url = gw_route g, so_client = gw_client g,
                     so_opts = defaultCodec # gw_client_options g,
                     so_type_resolver = gw_type_resolver g\<rparr>
          | Some o' \<Rightarrow> o');
          applied = foldl (\<lambda>o' opt. apply_service_option opt o') start opts;
          final = (case so_client applied of
                     None \<Rightarrow> applied\<lparr>so_client := Some http_DefaultClient\<rparr> | Some c \<Rightarrow> applied)
      in if so_base_url final = None then Err (errors_New ''no route configured'') else Ok final)"

definition endpointURL :: "url \<Rightarrow> method_desc \<Rightarrow> string" where
  "endpointURL base_url method =
     (let base = url_text base_url; sep = (if has_suffix base ''/'' then [] else ''/'')
      in base @ sep @ mth_parent method @ ''/'' @ mth_name method)"

section \<open>Registration\<close>

definition lookup_relation :: "gateway \<Rightarrow> string \<Rightarrow> string \<Rightarrow> relation_config option" where
  "lookup_relation g msg_name name =
     (case gw_relations g msg_name of None \<Rightarrow> None | Some rels \<Rightarrow> rels name)"

definition addRelation :: "desc_pool \<Rightarrow> gateway \<Rightarrow> relation_config \<Rightarrow> gateway \<times> unit result" where
  "addRelation pool g config =
     (let relation_name = camelCase (rc_name config);
          base_msg = pool (fd_message (rc_base_field config));
          msg_name = md_full_name base_msg
      in case fieldWithCamelCaseName (md_fields base_msg) relation_name of
           Some field \<Rightarrow>
             (g, Err (Errorf ''message %q has a field named %q (%d) so cannot also have a relation with same name''
                        [AStr msg_name, AStr relation_name, AInt (fd_number field)]))
         | None \<Rightarrow>
             (let relations = (case gw_relations g msg_name of None \<Rightarrow> Map.empty | Some rels \<Rightarrow> rels);
                  g1 = g\<lparr>gw_relations := (gw_relations g)(msg_name \<mapsto> relations)\<rparr>
              in case relations relation_name of
                   Some cfg \<Rightarrow>
                     (g1, Err (Errorf ''relation named %q for message %q already defined by method %q''
                                 [AStr relation_name, AStr msg_name, AStr (mth_full_name (rc_method cfg))]))
                 | None \<Rightarrow>
                     (g1\<lparr>gw_relations := (gw_relations g1)(msg_name \<mapsto> relations(relation_name \<mapsto> config))\<rparr>,
                      Ok ())))"

text \<open>
  One turn of the loop over the service's methods in \<^verbatim>\<open>addService\<close>: the method is registered
  before its relation annotation is looked at. Then the loop, which stops at the first error.
\<close>

definition register_method :: "gateway \<Rightarrow> string \<Rightarrow> method_config \<Rightarrow> gateway" where
  "register_method g k mc = g\<lparr>gw_methods := (gw_methods g)(k \<mapsto> mc)\<rparr>"

definition add_method ::
  "protolib \<Rightarrow> network \<Rightarrow> desc_pool \<Rightarrow> bool \<Rightarrow> svc_opts \<Rightarrow> nat \<Rightarrow> url \<Rightarrow> gateway \<Rightarrow> method_desc
   \<Rightarrow> gateway \<times> unit result" where
  "add_method lib net pool known opts http base_url g method =
     (let method_name = mth_full_name method; out_name = md_full_name (pool (mth_output method))
      in if gw_methods g method_name \<noteq> None then
           (g, Err (Errorf ''method %q has already been registered'' [AStr method_name]))
         else
           (let client = \<lparr>cc_http = http, cc_url = endpointURL base_url method, cc_opts = so_opts opts\<rparr>
            in case (if known then of_sum (pl_find_message lib out_name)
                     else Ok (dynamic_message_type (mth_output method))) of
                 Panic s \<Rightarrow> (g, Panic s)
               | Err e \<Rightarrow>
                   (g, Err (Errorf ''could not resolve message type %q (response for method %q): %w''
                              [AStr out_name, AStr method_name, AErr e]))
               | Ok response_type \<Rightarrow>
                   (let g1 = register_method g method_name
                        \<lparr>mc_descriptor = method, mc_response_type = response_type,
                         mc_client = client, mc_type_resolver = so_type_resolver opts\<rparr>
                    in case mth_relation method of
                         None \<Rightarrow> (g1, Ok ())
                       | Some rel_name \<Rightarrow>
                           if rel_name = [] then
                             (g1, Err (Errorf ''method %q is annotated as a relation resolver, but no relation name is configured''
                                         [AStr method_name]))
                           else
                             (case getRelationConfig lib net pool method rel_name client of
                                Panic s \<Rightarrow> (g1, Panic s)
                              | Err e \<Rightarrow> (g1, Err e)
                              | Ok config \<Rightarrow> addRelation pool g1 config))))"

fun add_methods ::
  "protolib \<Rightarrow> network \<Rightarrow> desc_pool \<Rightarrow> bool \<Rightarrow> svc_opts \<Rightarrow> nat \<Rightarrow> url \<Rightarrow> method_desc list \<Rightarrow> gateway
   \<Rightarrow> gateway \<times> unit result" where
  "add_methods lib net pool known opts http base_url [] g = (g, Ok ())"
| "add_methods lib net pool known opts http base_url (method # rest) g =
     (case add_method lib net pool known opts http base_url g method of
        (g1, Ok _) \<Rightarrow> add_methods lib net pool known opts http base_url rest g1
      | (g1, Err e) \<Rightarrow> (g1, Err e)
      | (g1, Panic s) \<Rightarrow> (g1, Panic s))"

definition addService ::
  "protolib \<Rightarrow> network \<Rightarrow> desc_pool \<Rightarrow> gateway \<Rightarrow> service_desc \<Rightarrow> bool \<Rightarrow> service_option list
   \<Rightarrow> gateway \<times> unit result" where
  "addService lib net pool g svc known opts =
     (case getSvcOpts g None opts of
        Panic s \<Rightarrow> (g, Panic s)
      | Err e \<Rightarrow> (g, Err e)
      | Ok svc_options \<Rightarrow>
          (case (so_client svc_options, so_base_url svc_options) of
             (Some http, Some base_url) \<Rightarrow>
               add_methods lib net pool known svc_options http base_url (sv_methods svc) g
           | _ \<Rightarrow> (g, Panic ''nil dereference'')))"

definition AddService ::
  "protolib \<Rightarrow> network \<Rightarrow> desc_pool \<Rightarrow> gateway \<Rightarrow> service_desc \<Rightarrow> service_option list
   \<Rightarrow> gateway \<times> unit result" where
  "AddService lib net pool g svc opts = addService lib net pool g svc False opts"

datatype descriptor =
    FileDescriptor string | MessageDescriptor desc_id | FieldDescriptor bool | OneofDescriptor
  | EnumDescriptor enum_desc | EnumValueDescriptor | ServiceDescriptor service_desc
  | MethodDescriptor method_desc | OtherDescriptor string

fun descType :: "descriptor \<Rightarrow> string" where
  "descType (FileDescriptor p) = ''file''"
| "descType (MessageDescriptor d) = ''message''"
| "descType (FieldDescriptor is_extension) = (if is_extension then ''extension'' else ''field'')"
| "descType OneofDescriptor = ''oneof''"
| "descType (EnumDescriptor e) = ''enum''"
| "descType EnumValueDescriptor = ''enum value''"
| "descType (ServiceDescriptor s) = ''service''"
| "descType (MethodDescriptor m) = ''method''"
| "descType (OtherDescriptor t) = t"

text \<open>\<open>registry\<close> is \<^verbatim>\<open>protoregistry.GlobalFiles.FindDescriptorByName\<close>.\<close>

definition AddServiceByName ::
  "protolib \<Rightarrow> network \<Rightarrow> desc_pool \<Rightarrow> (string \<Rightarrow> go_error + descriptor) \<Rightarrow> gateway \<Rightarrow> string
   \<Rightarrow> service_option list \<Rightarrow> gateway \<times> unit result" where
  "AddServiceByName lib net pool registry g svc_name opts =
     (case registry svc_name of
        Inl e \<Rightarrow> (g, Err e)
      | Inr (ServiceDescriptor svc) \<Rightarrow> addService lib net pool g svc True opts
      | Inr desc \<Rightarrow>
          (g, Err (Errorf ''named element %q is a %s, not a service'' [AStr svc_name, AStr (descType desc)])))"

section \<open>What registration establishes\<close>

text \<open>A relation registered for a message under a name.\<close>

definition relation_ok ::
  "protolib \<Rightarrow> network \<Rightarrow> desc_pool \<Rightarrow> string \<Rightarrow> string \<Rightarrow> relation_config \<Rightarrow> bool" where
  "relation_ok lib net pool msg_name name cfg \<longleftrightarrow>
     camelCase (rc_name cfg) = name
     \<and> md_full_name (pool (fd_message (rc_base_field cfg))) = msg_name
     \<and> fieldWithCamelCaseName (md_fields (pool (fd_message (rc_base_field cfg)))) name = None
     \<and> (\<exists>client. getRelationConfig lib net pool (rc_method cfg) (rc_name cfg) client = Ok cfg)"

definition method_ok :: "protolib \<Rightarrow> desc_pool \<Rightarrow> string \<Rightarrow> method_config \<Rightarrow> bool" where
  "method_ok lib pool k mc \<longleftrightarrow> mth_full_name (mc_descriptor mc) = k
     \<and> (mc_response_type mc = dynamic_message_type (mth_output (mc_descriptor mc))
        \<or> pl_find_message lib (md_full_name (pool (mth_output (mc_descriptor mc)))) = Inr (mc_response_type mc))"

definition gateway_ok :: "protolib \<Rightarrow> network \<Rightarrow> desc_pool \<Rightarrow> gateway \<Rightarrow> bool" where
  "gateway_ok lib net pool g \<longleftrightarrow>
     (\<forall>k mc. gw_methods g k = Some mc \<longrightarrow> method_ok lib pool k mc)
     \<and> (\<forall>msg_name name cfg. lookup_relation g msg_name name = Some cfg
          \<longrightarrow> relation_ok lib net pool msg_name name cfg)"

text \<open>Registration only adds: methods and relations that were there stay as they are.\<close>

definition gateway_le :: "gateway \<Rightarrow> gateway \<Rightarrow> bool" where
  "gateway_le g g' \<longleftrightarrow> gw_methods g \<subseteq>\<^sub>m gw_methods g'
     \<and> (\<forall>msg_name name cfg. lookup_relation g msg_name name = Some cfg
          \<longrightarrow> lookup_relation g' msg_name name = Some cfg)"

lemma gateway_le_refl [intro, simp]: "gateway_le g g"
  by (simp add: gateway_le_def)

lemma gateway_le_trans: "gateway_le a b \<Longrightarrow> gateway_le b c \<Longrightarrow> gateway_le a c"
  unfolding gateway_le_def by (blast intro: map_le_trans)

lemma gateway_le_method: "gateway_le g g' \<Longrightarrow> gw_methods g k = Some mc \<Longrightarrow> gw_methods g' k = Some mc"
  by (auto simp: gateway_le_def map_le_def dom_def)

lemma register_method_le: "gw_methods g k = None \<Longrightarrow> gateway_le g (register_method g k mc)"
  by (auto simp: gateway_le_def register_method_def lookup_relation_def map_le_def)

lemma register_method_ok:
  "gateway_ok lib net pool g \<Longrightarrow> method_ok lib pool k mc \<Longrightarrow> gateway_ok lib net pool (register_method g k mc)"
  by (auto simp: gateway_ok_def register_method_def lookup_relation_def split: if_splits)

lemma getRelationConfig_batch_resolver:
  "getRelationConfig lib net pool method name client = Ok cfg \<Longrightarrow> batch_resolver (rc_resolver cfg)"
  using getRelationConfig_Ok_fields(3) remote.batch_resolver_axioms by metis

text \<open>What \<^verbatim>\<open>addRelation\<close> does to the lookup of relations.\<close>

lemma addRelation_lookup:
  assumes "addRelation pool g cfg = (g', r)"
  shows "gw_methods g' = gw_methods g"
    "lookup_relation g' m n =
       (if r = Ok () \<and> m = md_full_name (pool (fd_message (rc_base_field cfg))) \<and> n = camelCase (rc_name cfg)
        then Some cfg else lookup_relation g m n)"
    "r = Ok () \<Longrightarrow>
       lookup_relation g (md_full_name (pool (fd_message (rc_base_field cfg)))) (camelCase (rc_name cfg)) = None
       \<and> fieldWithCamelCaseName (md_fields (pool (fd_message (rc_base_field cfg)))) (camelCase (rc_name cfg)) = None"
    "r \<noteq> Panic s"
  using assms
  by (auto simp: addRelation_def Let_def lookup_relation_def split: option.splits if_splits)

lemma addRelation_le: "addRelation pool g cfg = (g', r) \<Longrightarrow> gateway_le g g'"
  using addRelation_lookup(1,2,3) [of pool g cfg g' r] unfolding gateway_le_def by auto

lemma addRelation_ok:
  assumes "addRelation pool g cfg = (g', r)" "gateway_ok lib net pool g"
    "getRelationConfig lib net pool (rc_method cfg) (rc_name cfg) client = Ok cfg"
  shows "gateway_ok lib net pool g'"
  using addRelation_lookup(1,2,3) [OF assms(1)] assms(2,3)
  by (auto simp: gateway_ok_def relation_ok_def)

text \<open>
  One turn of the loop keeps the invariant and only adds, on every branch; it registers the
  method when it succeeds, and never panics.
\<close>

lemma add_method_cases:
  assumes "add_method lib net pool known opts http base_url g method = (g', r)"
  obtains
    (fail) e where "r = Err e" "g' = g"
  | (registered) mc where "gw_methods g (mth_full_name method) = None" "mc_descriptor mc = method"
      "method_ok lib pool (mth_full_name method) mc" "g' = register_method g (mth_full_name method) mc"
      "r = Ok () \<longrightarrow> mth_relation method = None" "\<forall>s. r \<noteq> Panic s"
  | (related) mc cfg rel_name client where "gw_methods g (mth_full_name method) = None"
      "mc_descriptor mc = method" "method_ok lib pool (mth_full_name method) mc"
      "mth_relation method = Some rel_name"
      "getRelationConfig lib net pool method rel_name client = Ok cfg"
      "addRelation pool (register_method g (mth_full_name method) mc) cfg = (g', r)"
proof (cases "gw_methods g (mth_full_name method) = None
    \<and> (\<exists>rt. (if known then of_sum (pl_find_message lib (md_full_name (pool (mth_output method))))
          else Ok (dynamic_message_type (mth_output method))) = Ok rt)")
  case False
  with assms show ?thesis
    by (cases "pl_find_message lib (md_full_name (pool (mth_output method)))")
      (auto simp: add_method_def Let_def split: if_splits outcome.splits intro: fail)
next
  case True
  then obtain rt where new: "gw_methods g (mth_full_name method) = None"
    and rt: "(if known then of_sum (pl_find_message lib (md_full_name (pool (mth_output method))))
          else Ok (dynamic_message_type (mth_output method))) = Ok rt" by blast
  let ?client = "\<lparr>cc_http = http, cc_url = endpointURL base_url method, cc_opts = so_opts opts\<rparr>"
  let ?mc = "\<lparr>mc_descriptor = method, mc_response_type = rt, mc_client = ?client,
      mc_type_resolver = so_type_resolver opts\<rparr>"
  have ok: "method_ok lib pool (mth_full_name method) ?mc"
    using rt by (auto simp: method_ok_def split: if_splits)
  note step = assms [unfolded add_method_def Let_def rt]
  show ?thesis
  proof (cases "\<exists>rel_name cfg. mth_relation method = Some rel_name \<and> rel_name \<noteq> []
      \<and> getRelationConfig lib net pool method rel_name ?client = Ok cfg")
    case True
    then obtain rel_name cfg where "mth_relation method = Some rel_name" "rel_name \<noteq> []"
      "getRelationConfig lib net pool method rel_name ?client = Ok cfg" by blast
    with step new ok show ?thesis by (intro related [of ?mc]) simp_all
  next
    case False
    show ?thesis
      by (rule registered [of ?mc])
        (use step new ok False getRelationConfig_not_Panic in
          \<open>auto split: option.splits outcome.splits if_splits\<close>)
  qed
qed

text \<open>The method is there, and so is the relation it resolves.\<close>

definition method_added :: "desc_pool \<Rightarrow> gateway \<Rightarrow> method_desc \<Rightarrow> bool" where
  "method_added pool g m \<longleftrightarrow>
     (\<exists>mc. gw_methods g (mth_full_name m) = Some mc \<and> mc_descriptor mc = m)
     \<and> (\<forall>rel. mth_relation m = Some rel \<longrightarrow> (\<exists>base cfg.
          lookup_relation g base (camelCase rel) = Some cfg \<and> rc_method cfg = m))"

lemma method_added_mono: "gateway_le g g' \<Longrightarrow> method_added pool g m \<Longrightarrow> method_added pool g' m"
  unfolding method_added_def gateway_le_def map_le_def dom_def by fastforce

lemma add_method_step:
  assumes "add_method lib net pool known opts http base_url g method = (g', r)"
  shows "gateway_le g g'" and "gateway_ok lib net pool g \<Longrightarrow> gateway_ok lib net pool g'" and "r \<noteq> Panic s"
    and "r = Ok () \<Longrightarrow> method_added pool g' method"
proof -
  have "gateway_le g g' \<and> (gateway_ok lib net pool g \<longrightarrow> gateway_ok lib net pool g') \<and> r \<noteq> Panic s
    \<and> (r = Ok () \<longrightarrow> method_added pool g' method)"
    using assms
  proof (cases rule: add_method_cases)
    case (registered mc)
    then show ?thesis
      using register_method_le register_method_ok by (auto simp: register_method_def method_added_def)
  next
    case (related mc cfg rel_name client)
    let ?g1 = "register_method g (mth_full_name method) mc"
    note cfg = getRelationConfig_Ok_fields(1,2) [OF related(5)]
    have le1: "gateway_le g ?g1" using related(1) by (rule register_method_le)
    have le2: "gateway_le ?g1 g'" using related(6) by (rule addRelation_le)
    have "gw_methods ?g1 (mth_full_name method) = Some mc" by (simp add: register_method_def)
    then have "gw_methods g' (mth_full_name method) = Some mc" by (rule gateway_le_method [OF le2])
    then have "r = Ok () \<Longrightarrow> method_added pool g' method"
      using addRelation_lookup(2) [OF related(6)] related(2,4) cfg by (auto simp: method_added_def)
    moreover have "gateway_ok lib net pool g \<Longrightarrow> gateway_ok lib net pool g'"
      using related(3,5) cfg by (intro addRelation_ok [OF related(6) register_method_ok]) simp_all
    ultimately show ?thesis
      using gateway_le_trans [OF le1 le2] addRelation_lookup(4) [OF related(6)] by auto
  qed auto
  then show "gateway_le g g'" "gateway_ok lib net pool g \<Longrightarrow> gateway_ok lib net pool g'" "r \<noteq> Panic s"
    "r = Ok () \<Longrightarrow> method_added pool g' method"
    by blast+
qed

lemma add_methods_le: "add_methods lib net pool known opts http base_url ms g = (g', r) \<Longrightarrow> gateway_le g g'"
  by (induction ms arbitrary: g)
    (auto split: prod.splits outcome.splits dest: add_method_step(1) intro: gateway_le_trans)

lemma add_methods_ok:
  "add_methods lib net pool known opts http base_url ms g = (g', r) \<Longrightarrow> gateway_ok lib net pool g
    \<Longrightarrow> gateway_ok lib net pool g'"
  by (induction ms arbitrary: g)
    (auto split: prod.splits outcome.splits dest: add_method_step(2))

lemma add_methods_not_Panic:
  "add_methods lib net pool known opts http base_url ms g = (g', r) \<Longrightarrow> r \<noteq> Panic s"
  by (induction ms arbitrary: g)
    (auto split: prod.splits outcome.splits dest: add_method_step(3))

lemma add_methods_registers:
  "add_methods lib net pool known opts http base_url ms g = (g', Ok ()) \<Longrightarrow> m \<in> set ms
    \<Longrightarrow> method_added pool g' m"
proof (induction ms arbitrary: g)
  case (Cons a ms)
  from Cons.prems(1) obtain g1 where g1: "add_method lib net pool known opts http base_url g a = (g1, Ok ())"
    and rest: "add_methods lib net pool known opts http base_url ms g1 = (g', Ok ())"
    by (auto split: prod.splits outcome.splits)
  show ?case
  proof (cases "m = a")
    case True
    with add_method_step(4) [OF g1] method_added_mono [OF add_methods_le [OF rest]]
    show ?thesis by blast
  qed (use Cons.IH [OF rest] Cons.prems(2) in simp)
qed simp

lemma getSvcOpts_complete:
  "getSvcOpts g so opts = Ok o' \<Longrightarrow> \<exists>c u. so_client o' = Some c \<and> so_base_url o' = Some u"
  by (auto simp: getSvcOpts_def Let_def split: if_splits option.splits)

lemma addService_cases:
  assumes "addService lib net pool g svc known opts = (g', r)"
  obtains (options) e where "g' = g" "r = Err e"
  | (methods) so http base_url where "getSvcOpts g None opts = Ok so"
      "add_methods lib net pool known so http base_url (sv_methods svc) g = (g', r)"
proof (cases "getSvcOpts g None opts")
  case (Ok so)
  from getSvcOpts_complete [OF Ok] obtain c u where "so_client so = Some c" "so_base_url so = Some u" by blast
  with assms Ok show ?thesis by (intro methods) (simp_all add: addService_def)
next
  case (Err e)
  with assms show ?thesis by (intro options [of e]) (simp_all add: addService_def)
next
  case (Panic p)
  then show ?thesis by (auto simp: getSvcOpts_def Let_def split: if_splits)
qed

lemma addService_facts:
  assumes "addService lib net pool g svc known opts = (g', r)"
  shows "gateway_le g g'" and "gateway_ok lib net pool g \<Longrightarrow> gateway_ok lib net pool g'" and "r \<noteq> Panic s"
    and "r = Ok () \<Longrightarrow> m \<in> set (sv_methods svc) \<Longrightarrow>
      method_added pool g' m"
proof -
  have "gateway_le g g' \<and> (gateway_ok lib net pool g \<longrightarrow> gateway_ok lib net pool g') \<and> r \<noteq> Panic s \<and>
    (r = Ok () \<longrightarrow> m \<in> set (sv_methods svc) \<longrightarrow>
      method_added pool g' m)"
    using assms
  proof (cases rule: addService_cases)
    case (methods so http base_url)
    note ms = methods(2)
    show ?thesis
      using add_methods_le [OF ms] add_methods_ok [OF ms] add_methods_not_Panic [OF ms]
        add_methods_registers [of lib net pool known so http base_url "sv_methods svc" g g' m] ms
      by simp
  qed simp
  then show "gateway_le g g'" "gateway_ok lib net pool g \<Longrightarrow> gateway_ok lib net pool g'" "r \<noteq> Panic s"
    "r = Ok () \<Longrightarrow> m \<in> set (sv_methods svc) \<Longrightarrow> method_added pool g' m"
    by blast+
qed

end
