(* ===== verification/Knit_Schema.thy ===== *)
theory Knit_Schema
  imports Knit_Gateway
begin

text \<open>
  \<^verbatim>\<open>schema.go\<close>: a request's msk is checked against the descriptor of the method's response
  and the registered relations, and the schema of the response is computed from them before
  any RPC is sent. \<open>mask_ok\<close> says declaratively which masks are valid; the lemmas show that
  the code accepts exactly those, what the computed schema looks like and which error codes
  it answers.

  The path of the source is only rendered into error texts while the call that appended to
  it runs, so it is a list here.
\<close>

datatype rpc_kind = RpcKindUnary | RpcKindClientStream | RpcKindServerStream | RpcKindBidiStream

fun rpc_kind_String :: "rpc_kind \<Rightarrow> string" where
  "rpc_kind_String RpcKindUnary = ''unary''"
| "rpc_kind_String RpcKindClientStream = ''client stream''"
| "rpc_kind_String RpcKindServerStream = ''server stream''"
| "rpc_kind_String RpcKindBidiStream = ''bidi stream''"

definition kindOf :: "method_desc \<Rightarrow> rpc_kind" where
  "kindOf method =
     (if mth_streaming_client method \<and> mth_streaming_server method then RpcKindBidiStream
      else if mth_streaming_server method then RpcKindServerStream
      else if mth_streaming_client method then RpcKindClientStream
      else RpcKindUnary)"

section \<open>The well-known types\<close>

definition anyName :: string where "anyName = ''google.protobuf.Any''"
definition fieldMaskName :: string where "fieldMaskName = ''google.protobuf.FieldMask''"
definition timestampName :: string where "timestampName = ''google.protobuf.Timestamp''"
definition durationName :: string where "durationName = ''google.protobuf.Duration''"
definition valueName :: string where "valueName = ''google.protobuf.Value''"
definition listValueName :: string where "listValueName = ''google.protobuf.ListValue''"
definition structName :: string where "structName = ''google.protobuf.Struct''"
definition nullValueName :: string where "nullValueName = ''google.protobuf.NullValue''"
definition boolValueName :: string where "boolValueName = ''google.protobuf.BoolValue''"
definition int32ValueName :: string where "int32ValueName = ''google.protobuf.Int32Value''"
definition int64ValueName :: string where "int64ValueName = ''google.protobuf.Int64Value''"
definition uint32ValueName :: string where "uint32ValueName = ''google.protobuf.UInt32Value''"
definition uint64ValueName :: string where "uint64ValueName = ''google.protobuf.UInt64Value''"
definition floatValueName :: string where "floatValueName = ''google.protobuf.FloatValue''"
definition doubleValueName :: string where "doubleValueName = ''google.protobuf.DoubleValue''"
definition stringValueName :: string where "stringValueName = ''google.protobuf.StringValue''"
definition bytesValueName :: string where "bytesValueName = ''google.protobuf.BytesValue''"

lemmas type_name_defs = anyName_def fieldMaskName_def timestampName_def durationName_def
  valueName_def listValueName_def structName_def boolValueName_def int32ValueName_def
  int64ValueName_def uint32ValueName_def uint64ValueName_def floatValueName_def
  doubleValueName_def stringValueName_def bytesValueName_def

definition wellKnownTypes :: "string list" where
  "wellKnownTypes = [anyName, fieldMaskName, timestampName, durationName, valueName, listValueName,
     structName, boolValueName, int32ValueName, int64ValueName, uint32ValueName, uint64ValueName,
     floatValueName, doubleValueName, stringValueName, bytesValueName]"

definition allowedMapKeyTypes :: "scalar_type list" where
  "allowedMapKeyTypes = [ST_BOOL, ST_INT32, ST_INT64, ST_UINT32, ST_UINT64, ST_STRING]"

section \<open>Schemas\<close>

definition isMessage :: "kind \<Rightarrow> bool" where
  "isMessage k = (k = MessageKind \<or> k = GroupKind)"

text \<open>The switch on the kind, before the check that a scalar has no mask.\<close>

definition scalar_of :: "field_desc \<Rightarrow> scalar_type option" where
  "scalar_of descriptor =
     (let k = fd_kind descriptor
      in if k \<in> {Int32Kind, Sint32Kind, Sfixed32Kind} then Some ST_INT32
         else if k \<in> {Uint32Kind, Fixed32Kind} then Some ST_UINT32
         else if k \<in> {Int64Kind, Sint64Kind, Sfixed64Kind} then Some ST_INT64
         else if k \<in> {Uint64Kind, Fixed64Kind} then Some ST_UINT64
         else if k = DoubleKind then Some ST_DOUBLE
         else if k = FloatKind then Some ST_FLOAT
         else if k = BoolKind then Some ST_BOOL
         else if k = StringKind then Some ST_STRING
         else if k = BytesKind then Some ST_BYTES
         else if k = EnumKind then
           (if en_full_name (fd_enum descriptor) = nullValueName then Some ST_NULL else Some ST_ENUM)
         else None)"

definition computeScalarFieldType ::
  "protolib \<Rightarrow> field_desc \<Rightarrow> mask_field list \<Rightarrow> string list \<Rightarrow> scalar_type result" where
  "computeScalarFieldType lib descriptor msk path =
     (case scalar_of descriptor of
        None \<Rightarrow> Err (Errorf ''%v: expecting primitive type but instead got %v''
                       [AStr (string_join path ''/''), AStr (pl_kind_text lib (fd_kind descriptor))])
      | Some scalar \<Rightarrow>
          if msk \<noteq> [] then
            Err (new_connect_error CodeFailedPrecondition
              (Errorf ''%v: cannot supply mask for scalar type %q''
                 [AStr (string_join path ''/''), AStr (pl_scalar_text lib scalar)]))
          else Ok scalar)"

text \<open>The field or relation an entry of the mask names.\<close>

definition entry_result ::
  "desc_pool \<Rightarrow> gateway \<Rightarrow> desc_id \<Rightarrow> mask_field \<Rightarrow> string list \<Rightarrow> field_desc result" where
  "entry_result pool g d f path =
     (case fieldWithCamelCaseName (md_fields (pool d)) (mf_name f) of
        Some fd \<Rightarrow> Ok fd
      | None \<Rightarrow>
          (case lookup_relation g (md_full_name (pool d)) (mf_name f) of
             None \<Rightarrow> Err (new_connect_error CodeFailedPrecondition
               (Errorf ''%v: no such field %q'' [AStr (string_join path ''/''), AStr (mf_name f)]))
           | Some conf \<Rightarrow>
               if rc_request_type conf = None \<and> mf_params f \<noteq> None then
                 Err (new_connect_error CodeFailedPrecondition
                   (Errorf ''%v: relation %q takes no parameters, but parameters were provided''
                      [AStr (string_join path ''/''), AStr (mf_name f)]))
               else Ok (rc_descriptor conf)))"

text \<open>A mask gets smaller along its entries.\<close>

lemma mf_mask_smaller: "size_list size (mf_mask f) < size f"
  by (cases f) simp

lemma size_mem_list: "f \<in> set fs \<Longrightarrow> size f < size_list size (fs :: mask_field list)"
  by (induction fs) auto

text \<open>
  \<^verbatim>\<open>computeSchema\<close>, the loop over its msk (\<open>names\<close> are the entries seen so far), and
  \<^verbatim>\<open>computeFieldType\<close>; the three call one another along the msk.
\<close>

function (sequential) computeSchema ::
    "protolib \<Rightarrow> desc_pool \<Rightarrow> gateway \<Rightarrow> desc_id \<Rightarrow> mask_field list \<Rightarrow> string list \<Rightarrow> schema result"
  and schema_fields ::
    "protolib \<Rightarrow> desc_pool \<Rightarrow> gateway \<Rightarrow> desc_id \<Rightarrow> string list \<Rightarrow> mask_field list \<Rightarrow> string list
     \<Rightarrow> schema_field list result"
  and computeFieldType ::
    "protolib \<Rightarrow> desc_pool \<Rightarrow> gateway \<Rightarrow> field_desc \<Rightarrow> mask_field \<Rightarrow> string list \<Rightarrow> field_type result"
where
  "computeSchema lib pool g descriptor msk path =
     (let msg_name = md_full_name (pool descriptor)
      in if msg_name \<in> set wellKnownTypes then
           (if msk \<noteq> [] then
              Err (new_connect_error CodeFailedPrecondition
                (Errorf ''%v: cannot supply mask for well-known type %q''
                   [AStr (string_join path ''/''), AStr msg_name]))
            else Ok (Schema msg_name []))
         else if msk = [] then Ok (Schema msg_name [])
         else obind (schema_fields lib pool g descriptor [] msk path) (\<lambda>fds. Ok (Schema msg_name fds)))"
| "schema_fields lib pool g descriptor names [] path = Ok []"
| "schema_fields lib pool g descriptor names (field # rest) path =
     (if mf_name field \<in> set names then
        Err (new_connect_error CodeInvalidArgument
          (Errorf ''%v: invalid mask: more than one entry for %q''
             [AStr (string_join path ''/''), AStr (mf_name field)]))
      else
        obind (entry_result pool g descriptor field path)
          (\<lambda>fd. obind (computeFieldType lib pool g fd field path) (\<lambda>ft.
             let camel_case_name = camelCase (mf_name field);
                 json_name = (if fd_json_name fd = camel_case_name then [] else fd_json_name fd)
             in obind (schema_fields lib pool g descriptor (mf_name field # names) rest path)
                  (\<lambda>fts. Ok (SchemaField camel_case_name json_name ft # fts)))))"
| "computeFieldType lib pool g descriptor msk path =
     (case fd_shape descriptor of
        MapOf map_key map_value \<Rightarrow>
          obind (computeScalarFieldType lib map_key [] path) (\<lambda>key.
            if key \<notin> set allowedMapKeyTypes then
              Err (Errorf ''%v: map key type %v is not valid''
                     [AStr (string_join path ''/''), AStr (pl_scalar_text lib key)])
            else if isMessage (fd_kind map_value) then
              obind (computeSchema lib pool g (fd_message map_value) (mf_mask msk) (path @ [mf_name msk]))
                (\<lambda>sc. Ok (TMap key (EMessage sc)))
            else
              obind (computeScalarFieldType lib map_value (mf_mask msk) path)
                (\<lambda>scalar. Ok (TMap key (EScalar scalar))))
      | Repeated \<Rightarrow>
          if isMessage (fd_kind descriptor) then
            obind (computeSchema lib pool g (fd_message descriptor) (mf_mask msk) (path @ [mf_name msk]))
              (\<lambda>sc. Ok (TRepeated (EMessage sc)))
          else
            obind (computeScalarFieldType lib descriptor (mf_mask msk) path)
              (\<lambda>scalar. Ok (TRepeated (EScalar scalar)))
      | Singular \<Rightarrow>
          if isMessage (fd_kind descriptor) then
            obind (computeSchema lib pool g (fd_message descriptor) (mf_mask msk) (path @ [mf_name msk]))
              (\<lambda>sc. Ok (TMessage sc))
          else
            obind (computeScalarFieldType lib descriptor (mf_mask msk) path)
              (\<lambda>scalar. Ok (TScalar scalar)))"
  by pat_completeness auto

termination
  by (relation "measures
      [\<lambda>x. case x of Inl (_, _, _, _, msk, _) \<Rightarrow> size_list size msk
            | Inr (Inl (_, _, _, _, _, msk, _)) \<Rightarrow> size_list size msk
            | Inr (Inr (_, _, _, _, field, _)) \<Rightarrow> size field,
       \<lambda>x. case x of Inl _ \<Rightarrow> 1 | _ \<Rightarrow> 0]")
    (auto simp: mf_mask_smaller)

definition computeResponseSchema ::
  "protolib \<Rightarrow> desc_pool \<Rightarrow> gateway \<Rightarrow> request \<Rightarrow> bool \<Rightarrow> rpc_kind \<Rightarrow> (method_config \<times> schema) result" where
  "computeResponseSchema lib pool g request for_fetch method_kind =
     (let method_name = rq_method request
      in if \<not> pl_valid_full_name lib method_name then
           Err (new_connect_error CodeInvalidArgument
             (Errorf ''%q is not a valid method name'' [AStr method_name]))
         else case gw_methods g method_name of
           None \<Rightarrow> Err (new_connect_error CodeUnimplemented
             (Errorf ''requested endpoint %q is not supported'' [AStr method_name]))
         | Some conf \<Rightarrow>
             if kindOf (mc_descriptor conf) \<noteq> method_kind then
               Err (new_connect_error CodeFailedPrecondition
                 (Errorf ''endpoint %q has unexpected kind %v (expecting %v)''
                    [AStr method_name, AStr (rpc_kind_String (kindOf (mc_descriptor conf))),
                     AStr (rpc_kind_String method_kind)]))
             else if for_fetch \<and> \<not> mth_options_ok (mc_descriptor conf) then
               Err (new_connect_error CodeInternal
                 (Errorf ''endpoint %q has unexpected options type %T''
                    [AStr method_name, AStr (pl_go_type lib (AnyOther method_name))]))
             else if for_fetch \<and> mth_idempotency (mc_descriptor conf) \<noteq> NoSideEffects then
               Err (new_connect_error CodeFailedPrecondition
                 (Errorf ''endpoint %q cannot be used with Fetch: idempotency_level = %v''
                    [AStr method_name, AStr (idempotency_text (mth_idempotency (mc_descriptor conf)))]))
             else
               obind (computeSchema lib pool g (mth_output (mc_descriptor conf)) (rq_mask request)
                        [method_name])
                 (\<lambda>sc. Ok (conf, sc)))"

definition computeResponseSchemas ::
  "protolib \<Rightarrow> desc_pool \<Rightarrow> gateway \<Rightarrow> request list \<Rightarrow> bool \<Rightarrow> rpc_kind
   \<Rightarrow> (method_config list \<times> schema list) result" where
  "computeResponseSchemas lib pool g requests for_fetch method_kind =
     obind (omap (\<lambda>request. computeResponseSchema lib pool g request for_fetch method_kind) requests)
       (\<lambda>rs. Ok (map fst rs, map snd rs))"


section \<open>Valid masks\<close>

text \<open>
  The descriptor an entry of the mask stands for: a field, else a relation. \<open>elem_desc\<close> is
  the descriptor of a field's elements: a map's values, a list's elements, the field itself.
\<close>

definition entry_field ::
  "desc_pool \<Rightarrow> gateway \<Rightarrow> desc_id \<Rightarrow> mask_field \<Rightarrow> field_desc option" where
  "entry_field pool g d f =
     (case fieldWithCamelCaseName (md_fields (pool d)) (mf_name f) of
        Some fd \<Rightarrow> Some fd
      | None \<Rightarrow>
          (case lookup_relation g (md_full_name (pool d)) (mf_name f) of
             None \<Rightarrow> None
           | Some conf \<Rightarrow>
               if rc_request_type conf = None \<and> mf_params f \<noteq> None then None
               else Some (rc_descriptor conf)))"

definition elem_desc :: "field_desc \<Rightarrow> field_desc" where
  "elem_desc fd = (case fd_shape fd of MapOf k v \<Rightarrow> v | _ \<Rightarrow> fd)"

definition map_key_ok :: "field_desc \<Rightarrow> bool" where
  "map_key_ok fd = (case fd_shape fd of
     MapOf k v \<Rightarrow> (case scalar_of k of Some sc \<Rightarrow> sc \<in> set allowedMapKeyTypes | None \<Rightarrow> False)
   | _ \<Rightarrow> True)"

function (sequential) mask_ok :: "desc_pool \<Rightarrow> gateway \<Rightarrow> desc_id \<Rightarrow> mask_field list \<Rightarrow> bool"
  and entry_ok :: "desc_pool \<Rightarrow> gateway \<Rightarrow> desc_id \<Rightarrow> mask_field \<Rightarrow> bool"
where
  "mask_ok pool g d msk =
     (if md_full_name (pool d) \<in> set wellKnownTypes then msk = []
      else distinct (map mf_name msk) \<and> (\<forall>f \<in> set msk. entry_ok pool g d f))"
| "entry_ok pool g d f =
     (case entry_field pool g d f of
        None \<Rightarrow> False
      | Some fd \<Rightarrow> map_key_ok fd
          \<and> (if isMessage (fd_kind (elem_desc fd)) then
               mask_ok pool g (fd_message (elem_desc fd)) (mf_mask f)
             else mf_mask f = [] \<and> scalar_of (elem_desc fd) \<noteq> None))"
  by pat_completeness auto

termination
  by (relation "measure (\<lambda>x. case x of Inl (_, _, _, msk) \<Rightarrow> size_list size msk
        | Inr (_, _, _, f) \<Rightarrow> size f)")
    (auto intro: size_mem_list simp: mf_mask_smaller)

text \<open>The schema a valid mask asks for.\<close>

function (sequential) schema_of :: "desc_pool \<Rightarrow> gateway \<Rightarrow> desc_id \<Rightarrow> mask_field list \<Rightarrow> schema"
  and field_schema :: "desc_pool \<Rightarrow> gateway \<Rightarrow> desc_id \<Rightarrow> mask_field \<Rightarrow> schema_field"
where
  "schema_of pool g d msk =
     Schema (md_full_name (pool d)) (map (field_schema pool g d) msk)"
| "field_schema pool g d f =
     (case entry_field pool g d f of
        None \<Rightarrow> SchemaField (camelCase (mf_name f)) [] (TScalar ST_UNSPECIFIED)
      | Some fd \<Rightarrow>
          (let el = elem_desc fd;
               sub = (if isMessage (fd_kind el) then EMessage (schema_of pool g (fd_message el) (mf_mask f))
                      else EScalar (case scalar_of el of Some sc \<Rightarrow> sc | None \<Rightarrow> ST_UNSPECIFIED))
           in SchemaField (camelCase (mf_name f))
                (if fd_json_name fd = camelCase (mf_name f) then [] else fd_json_name fd)
                (case fd_shape fd of
                   MapOf k v \<Rightarrow> TMap (case scalar_of k of Some sc \<Rightarrow> sc | None \<Rightarrow> ST_UNSPECIFIED) sub
                 | Repeated \<Rightarrow> TRepeated sub
                 | Singular \<Rightarrow> (case sub of EMessage sc \<Rightarrow> TMessage sc | EScalar s \<Rightarrow> TScalar s))))"
  by pat_completeness auto

termination
  by (relation "measure (\<lambda>x. case x of Inl (_, _, _, msk) \<Rightarrow> size_list size msk
        | Inr (_, _, _, f) \<Rightarrow> size f)")
    (auto intro: size_mem_list simp: mf_mask_smaller)

declare computeSchema.simps [simp del] computeFieldType.simps [simp del] mask_ok.simps [simp del]
  entry_ok.simps [simp del] schema_of.simps [simp del] field_schema.simps [simp del]

section \<open>The code accepts exactly the valid masks\<close>

lemma entry_result_Ok_iff: "entry_result pool g d f path = Ok fd \<longleftrightarrow> entry_field pool g d f = Some fd"
  by (auto simp: entry_result_def entry_field_def split: option.splits)

lemma computeScalarFieldType_Ok_iff:
  "computeScalarFieldType lib fd msk path = Ok sc \<longleftrightarrow> scalar_of fd = Some sc \<and> msk = []"
  by (auto simp: computeScalarFieldType_def split: option.splits)

definition field_type_ok :: "desc_pool \<Rightarrow> gateway \<Rightarrow> field_desc \<Rightarrow> mask_field \<Rightarrow> bool" where
  "field_type_ok pool g fd f \<longleftrightarrow> map_key_ok fd
     \<and> (if isMessage (fd_kind (elem_desc fd)) then
          mask_ok pool g (fd_message (elem_desc fd)) (mf_mask f)
        else mf_mask f = [] \<and> scalar_of (elem_desc fd) \<noteq> None)"

text \<open>One entry of a mask, given what the type of its field and the entries behind it come to.\<close>

lemma schema_fields_step:
  assumes entry: "entry_field pool g d f = Some fd" and new: "mf_name f \<notin> set names"
    and type: "\<And>ft. computeFieldType lib pool g fd f path = Ok ft
      \<longleftrightarrow> field_type_ok pool g fd f \<and> ft = sf_type (field_schema pool g d f)"
    and rest: "entry_ok pool g d f \<Longrightarrow> schema_fields lib pool g d (mf_name f # names) rest path = Ok (tl fts)
      \<longleftrightarrow> distinct (map mf_name rest) \<and> set (map mf_name rest) \<inter> set (mf_name f # names) = {}
        \<and> (\<forall>f \<in> set rest. entry_ok pool g d f) \<and> tl fts = map (field_schema pool g d) rest"
  shows "schema_fields lib pool g d names (f # rest) path = Ok fts
      \<longleftrightarrow> distinct (map mf_name (f # rest)) \<and> set (map mf_name (f # rest)) \<inter> set names = {}
        \<and> (\<forall>f \<in> set (f # rest). entry_ok pool g d f) \<and> fts = map (field_schema pool g d) (f # rest)"
proof -
  have ok: "entry_ok pool g d f \<longleftrightarrow> field_type_ok pool g fd f"
    using entry by (simp add: entry_ok.simps field_type_ok_def)
  have sf: "field_schema pool g d f = SchemaField (camelCase (mf_name f))
      (if fd_json_name fd = camelCase (mf_name f) then [] else fd_json_name fd)
      (sf_type (field_schema pool g d f))"
    using entry by (simp add: field_schema.simps Let_def)
  have "schema_fields lib pool g d names (f # rest) path = Ok fts
      \<longleftrightarrow> entry_ok pool g d f \<and> (\<exists>fts'. schema_fields lib pool g d (mf_name f # names) rest path = Ok fts'
            \<and> fts = field_schema pool g d f # fts')"
    using new entry type ok sf by (auto simp: obind_iffs Let_def entry_result_Ok_iff)
  also have "\<dots> \<longleftrightarrow> entry_ok pool g d f \<and> schema_fields lib pool g d (mf_name f # names) rest path = Ok (tl fts)
      \<and> fts = field_schema pool g d f # tl fts"
    by force
  finally show ?thesis using rest new by (cases fts) auto
qed

lemmas field_type_simps = computeFieldType.simps field_type_ok_def field_schema.simps
  elem_desc_def map_key_ok_def Let_def computeScalarFieldType_Ok_iff obind_iffs

text \<open>The type of a field, given the schema of its elements.\<close>

lemma computeFieldType_step:
  assumes entry: "entry_field pool g e f = Some fd"
    and schema: "\<And>sc. isMessage (fd_kind (elem_desc fd)) \<Longrightarrow> map_key_ok fd
      \<Longrightarrow> computeSchema lib pool g (fd_message (elem_desc fd)) (mf_mask f) (path @ [mf_name f]) = Ok sc
      \<longleftrightarrow> mask_ok pool g (fd_message (elem_desc fd)) (mf_mask f)
        \<and> sc = schema_of pool g (fd_message (elem_desc fd)) (mf_mask f)"
  shows "computeFieldType lib pool g fd f path = Ok ft
      \<longleftrightarrow> field_type_ok pool g fd f \<and> ft = sf_type (field_schema pool g e f)"
proof (cases "fd_shape fd")
  case Singular
  with assms show ?thesis
    by (cases "isMessage (fd_kind fd)") (auto simp: field_type_simps)
next
  case Repeated
  with assms show ?thesis
    by (cases "isMessage (fd_kind fd)") (auto simp: field_type_simps)
next
  case (MapOf k v)
  with assms show ?thesis
    by (cases "isMessage (fd_kind v) \<and> map_key_ok fd") (auto simp: field_type_simps split: option.splits)
qed

lemma computeSchema_Ok_iff:
  shows "computeSchema lib pool g d msk path = Ok sc
      \<longleftrightarrow> mask_ok pool g d msk \<and> sc = schema_of pool g d msk"
    and "schema_fields lib pool g d names msk path = Ok fts
      \<longleftrightarrow> distinct (map mf_name msk) \<and> set (map mf_name msk) \<inter> set names = {}
        \<and> (\<forall>f \<in> set msk. entry_ok pool g d f) \<and> fts = map (field_schema pool g d) msk"
    and "entry_field pool g e f = Some fd \<Longrightarrow> computeFieldType lib pool g fd f path = Ok ft
      \<longleftrightarrow> field_type_ok pool g fd f \<and> ft = sf_type (field_schema pool g e f)"
proof (induction lib pool g d msk path and lib pool g d names msk path and lib pool g fd f path
    arbitrary: sc and fts and ft e
    rule: computeSchema_schema_fields_computeFieldType.induct)
  case (1 lib pool g d msk path)
  then show ?case
    by (auto simp: computeSchema.simps [of lib pool] Let_def mask_ok.simps [of pool] schema_of.simps
        obind_iffs split: if_splits)
next
  case (2 lib pool g d names path)
  then show ?case by auto
next
  case (3 lib pool g d names f rest path)
  consider (none) "entry_field pool g d f = None" | (used) "mf_name f \<in> set names"
    | (new) fd where "entry_field pool g d f = Some fd" "mf_name f \<notin> set names"
    by (cases "entry_field pool g d f") auto
  then show ?case
  proof cases
    case none
    then have "\<nexists>fd. entry_result pool g d f path = Ok fd" "\<not> entry_ok pool g d f"
      by (simp_all add: entry_result_Ok_iff entry_ok.simps)
    then show ?thesis by (auto simp: obind_iffs)
  next
    case used
    then show ?thesis by auto
  next
    case (new fd)
    then have er: "entry_result pool g d f path = Ok fd" by (simp add: entry_result_Ok_iff)
    note type = 3(1) [OF new(2) er new(1)]
    show ?thesis
    proof (rule schema_fields_step [OF new type])
      assume "entry_ok pool g d f"
      then have "computeFieldType lib pool g fd f path = Ok (sf_type (field_schema pool g d f))"
        using type new(1) by (simp add: entry_ok.simps field_type_ok_def)
      from 3(2) [OF new(2) er this refl refl]
      show "schema_fields lib pool g d (mf_name f # names) rest path = Ok (tl fts)
          \<longleftrightarrow> distinct (map mf_name rest) \<and> set (map mf_name rest) \<inter> set (mf_name f # names) = {}
            \<and> (\<forall>f \<in> set rest. entry_ok pool g d f) \<and> tl fts = map (field_schema pool g d) rest" .
    qed
  qed
next
  case (4 lib pool g fd f path)
  show ?case
  proof (rule computeFieldType_step [OF 4(4)])
    fix sc assume m: "isMessage (fd_kind (elem_desc fd))" "map_key_ok fd"
    show "computeSchema lib pool g (fd_message (elem_desc fd)) (mf_mask f) (path @ [mf_name f]) = Ok sc
        \<longleftrightarrow> mask_ok pool g (fd_message (elem_desc fd)) (mf_mask f)
          \<and> sc = schema_of pool g (fd_message (elem_desc fd)) (mf_mask f)"
    proof (cases "fd_shape fd")
      case (MapOf k v)
      with m obtain key where "scalar_of k = Some key" "key \<in> set allowedMapKeyTypes"
        by (auto simp: map_key_ok_def split: option.splits)
      with 4(3) [OF MapOf, of key sc] m MapOf show ?thesis
        by (simp add: computeScalarFieldType_Ok_iff elem_desc_def)
    qed (use 4(1,2) m in \<open>simp_all add: elem_desc_def\<close>)
  qed
qed

section \<open>The errors of validation\<close>

text \<open>Descriptors protobuf allows: a field has a scalar kind or is a message, map keys are as required.\<close>

definition fd_wf :: "field_desc \<Rightarrow> bool" where
  "fd_wf fd \<longleftrightarrow> map_key_ok fd \<and> (isMessage (fd_kind (elem_desc fd)) \<or> scalar_of (elem_desc fd) \<noteq> None)"

definition descriptors_wf :: "desc_pool \<Rightarrow> gateway \<Rightarrow> bool" where
  "descriptors_wf pool g \<longleftrightarrow> (\<forall>d. \<forall>fd \<in> set (md_fields (pool d)). fd_wf fd)
     \<and> (\<forall>m n cfg. lookup_relation g m n = Some cfg \<longrightarrow> fd_wf (rc_descriptor cfg))"

definition mask_error :: "go_error \<Rightarrow> bool" where
  "mask_error e \<longleftrightarrow> error_code e = Some CodeFailedPrecondition \<or> error_code e = Some CodeInvalidArgument"

lemma entry_field_wf: "descriptors_wf pool g \<Longrightarrow> entry_field pool g d f = Some fd \<Longrightarrow> fd_wf fd"
  by (auto simp: descriptors_wf_def entry_field_def split: option.splits if_splits
      dest: fieldWithCamelCaseName_in_set)

lemma entry_result_cases:
  "(\<exists>fd. entry_result pool g d f path = Ok fd \<and> entry_field pool g d f = Some fd)
   \<or> (\<exists>e. entry_result pool g d f path = Err e \<and> mask_error e)"
  by (auto simp: entry_result_def entry_field_def mask_error_def split: option.splits)

definition mask_outcome :: "'a result \<Rightarrow> bool" where
  "mask_outcome r \<longleftrightarrow> (case r of Ok _ \<Rightarrow> True | Err e \<Rightarrow> mask_error e | Panic _ \<Rightarrow> False)"

lemma mask_outcome_simps [simp]:
  "mask_outcome (Ok x)" "mask_outcome (Err e) \<longleftrightarrow> mask_error e" "\<not> mask_outcome (Panic s)"
  by (simp_all add: mask_outcome_def)

lemma mask_outcome_obind:
  "mask_outcome r \<Longrightarrow> (\<And>x. r = Ok x \<Longrightarrow> mask_outcome (f x)) \<Longrightarrow> mask_outcome (obind r f)"
  by (cases r) auto

lemma mask_outcome_new_connect:
  "c = CodeFailedPrecondition \<or> c = CodeInvalidArgument \<Longrightarrow> mask_error (new_connect_error c e)"
  by (auto simp: mask_error_def)

lemma mask_outcome_scalar: "scalar_of fd \<noteq> None \<Longrightarrow> mask_outcome (computeScalarFieldType lib fd msk path)"
  by (auto simp: computeScalarFieldType_def mask_error_def)

lemma mask_outcome_entry: "mask_outcome (entry_result pool g d f path)"
  using entry_result_cases [of pool g d f path] by auto

text \<open>On such descriptors a rejected mask is the caller's fault, and is answered so; nothing panics.\<close>

lemma computeSchema_outcome:
  assumes "descriptors_wf pool g"
  shows "mask_outcome (computeSchema lib pool g d msk path)"
    and "mask_outcome (schema_fields lib pool g d names msk path)"
    and "fd_wf fd \<Longrightarrow> mask_outcome (computeFieldType lib pool g fd f path)"
  using assms
proof (induction lib pool g d msk path and lib pool g d names msk path and lib pool g fd f path
    rule: computeSchema_schema_fields_computeFieldType.induct)
  case (1 lib pool g d msk path)
  then show ?case
    by (auto simp: computeSchema.simps [of lib pool] Let_def
        intro!: mask_outcome_obind mask_outcome_new_connect)
next
  case (3 lib pool g d names f rest path)
  then show ?case
    by (auto simp: Let_def entry_result_Ok_iff dest: entry_field_wf
        intro!: mask_outcome_obind mask_outcome_new_connect mask_outcome_entry)
next
  case (4 lib pool g fd f path)
  show ?case
  proof (cases "fd_shape fd")
    case Singular
    from 4(1) [OF Singular] 4(4,5) Singular show ?thesis
      by (auto simp: computeFieldType.simps [of lib pool] fd_wf_def elem_desc_def
          intro!: mask_outcome_obind mask_outcome_scalar)
  next
    case Repeated
    from 4(2) [OF Repeated] 4(4,5) Repeated show ?thesis
      by (auto simp: computeFieldType.simps [of lib pool] fd_wf_def elem_desc_def
          intro!: mask_outcome_obind mask_outcome_scalar)
  next
    case (MapOf k v)
    then obtain key where key: "scalar_of k = Some key" "key \<in> set allowedMapKeyTypes"
      and v: "isMessage (fd_kind v) \<or> scalar_of v \<noteq> None"
      using 4(4) by (auto simp: fd_wf_def map_key_ok_def elem_desc_def split: option.splits)
    then have c: "computeScalarFieldType lib k [] path = Ok key"
      by (simp add: computeScalarFieldType_Ok_iff)
    from 4(3) [OF MapOf c] 4(5) MapOf key v show ?thesis
      by (auto simp: computeFieldType.simps [of lib pool] c
          intro!: mask_outcome_obind mask_outcome_scalar)
  qed
qed simp

section \<open>Requests\<close>

text \<open>What an accepted request is: its method, of the expected kind, and a valid mask.\<close>

definition request_ok :: "protolib \<Rightarrow> desc_pool \<Rightarrow> gateway \<Rightarrow> bool \<Rightarrow> rpc_kind \<Rightarrow> request \<Rightarrow> bool" where
  "request_ok lib pool g for_fetch kind rq \<longleftrightarrow> pl_valid_full_name lib (rq_method rq)
     \<and> (case gw_methods g (rq_method rq) of None \<Rightarrow> False
        | Some conf \<Rightarrow> kindOf (mc_descriptor conf) = kind
            \<and> (for_fetch \<longrightarrow> mth_options_ok (mc_descriptor conf)
                 \<and> mth_idempotency (mc_descriptor conf) = NoSideEffects)
            \<and> mask_ok pool g (mth_output (mc_descriptor conf)) (rq_mask rq))"

lemma computeResponseSchema_Ok_iff:
  "computeResponseSchema lib pool g rq for_fetch kind = Ok (conf, sc) \<longleftrightarrow>
     request_ok lib pool g for_fetch kind rq \<and> gw_methods g (rq_method rq) = Some conf
     \<and> sc = schema_of pool g (mth_output (mc_descriptor conf)) (rq_mask rq)"
  by (auto simp: computeResponseSchema_def request_ok_def Let_def obind_iffs computeSchema_Ok_iff
      split: option.splits)

lemma computeResponseSchemas_Ok_iff:
  "computeResponseSchemas lib pool g rqs for_fetch kind = Ok (confs, scs) \<longleftrightarrow>
     (\<forall>rq \<in> set rqs. request_ok lib pool g for_fetch kind rq)
     \<and> confs = map (\<lambda>rq. the (gw_methods g (rq_method rq))) rqs
     \<and> scs = map (\<lambda>rq. schema_of pool g
         (mth_output (mc_descriptor (the (gw_methods g (rq_method rq))))) (rq_mask rq)) rqs"
proof -
  let ?conf = "\<lambda>rq. the (gw_methods g (rq_method rq))"
  let ?sc = "\<lambda>rq. schema_of pool g (mth_output (mc_descriptor (?conf rq))) (rq_mask rq)"
  have one: "computeResponseSchema lib pool g rq for_fetch kind = Ok x
      \<longleftrightarrow> request_ok lib pool g for_fetch kind rq \<and> x = (?conf rq, ?sc rq)" for rq x
    by (cases x) (auto simp: computeResponseSchema_Ok_iff request_ok_def split: option.splits)
  have "omap (\<lambda>rq. computeResponseSchema lib pool g rq for_fetch kind) rqs = Ok rs
      \<longleftrightarrow> (\<forall>rq \<in> set rqs. request_ok lib pool g for_fetch kind rq) \<and> rs = map (\<lambda>rq. (?conf rq, ?sc rq)) rqs" for rs
    unfolding omap_eq_Ok_iff one by (induction rqs arbitrary: rs) (auto simp: list_all2_Cons1)
  then show ?thesis by (auto simp: computeResponseSchemas_def obind_iffs comp_def)
qed

end
