(* ===== verification/Knit_Time.thy ===== *)
theory Knit_Time
  imports Complex_Main "HOL-Library.Log_Nat" Knit_Text
begin

text \<open>
  The text of timestamps and durations, as \<^verbatim>\<open>formatMessage\<close> in \<^verbatim>\<open>format.go\<close> makes it with
  Go's \<^verbatim>\<open>time\<close> and \<^verbatim>\<open>fmt\<close>: \<^verbatim>\<open>t.Format(time.RFC3339Nano)\<close> in UTC, and
  \<^verbatim>\<open>fmt.Sprintf("%01.9fs", d.Seconds())\<close>, where \<^verbatim>\<open>Seconds\<close> is a \<^verbatim>\<open>float64\<close>. Finite
  float values are rationals; \<open>round_float64\<close> rounds to 53 significant bits, ties to even
  (no exponent of a duration in seconds leaves the normal range).
\<close>

section \<open>RFC 3339\<close>

text \<open>Digits of \<open>n\<close>, at least \<open>w\<close> of them.\<close>

definition pad_nat :: "nat \<Rightarrow> nat \<Rightarrow> string" where
  "pad_nat w n = (let s = dec_nat n in replicate (w - length s) (CHR ''0'') @ s)"

text \<open>The proleptic Gregorian date of a day counted from 1970-01-01: year, month, day.\<close>

definition civil_from_days :: "int \<Rightarrow> int \<times> int \<times> int" where
  "civil_from_days days =
     (let z = days + 719468; era = z div 146097; doe = z mod 146097;
          yoe = (doe - doe div 1460 + doe div 36524 - doe div 146096) div 365;
          doy = doe - (365 * yoe + yoe div 4 - yoe div 100);
          mp = (5 * doy + 2) div 153; d = doy - (153 * mp + 2) div 5 + 1;
          m = (if mp < 10 then mp + 3 else mp - 9);
          y = yoe + era * 400
      in (if m \<le> 2 then y + 1 else y, m, d))"

definition format_year :: "int \<Rightarrow> string" where
  "format_year y = (if y < 0 then CHR ''-'' # pad_nat 4 (nat (- y)) else pad_nat 4 (nat y))"

text \<open>The layout's \<^verbatim>\<open>.999999999\<close>: the fraction without trailing zeros, nothing for zero.\<close>

definition strip_zeros :: "string \<Rightarrow> string" where
  "strip_zeros s = rev (dropWhile (\<lambda>c. c = CHR ''0'') (rev s))"

definition format_fraction :: "nat \<Rightarrow> string" where
  "format_fraction ns = (if ns = 0 then [] else CHR ''.'' # strip_zeros (pad_nat 9 ns))"

text \<open>Seconds since the epoch and nanoseconds within the second.\<close>

definition format_rfc3339nano :: "int \<Rightarrow> nat \<Rightarrow> string" where
  "format_rfc3339nano secs ns =
     (let days = secs div 86400; r = nat (secs mod 86400); (y, m, d) = civil_from_days days
      in format_year y @ ''-'' @ pad_nat 2 (nat m) @ ''-'' @ pad_nat 2 (nat d) @ ''T''
         @ pad_nat 2 (r div 3600) @ '':'' @ pad_nat 2 (r div 60 mod 60) @ '':'' @ pad_nat 2 (r mod 60)
         @ format_fraction ns @ ''Z'')"

section \<open>Durations\<close>

definition rat_pow2 :: "int \<Rightarrow> rat" where
  "rat_pow2 e = (if 0 \<le> e then 2 ^ nat e else 1 / 2 ^ nat (- e))"

text \<open>The exponent of a positive rational: the greatest \<open>k\<close> with \<open>2 ^ k \<le> x\<close>.\<close>

definition rat_log2 :: "rat \<Rightarrow> int" where
  "rat_log2 x =
     (let (a, b) = quotient_of x; k = int (floorlog 2 (nat a)) - int (floorlog 2 (nat b))
      in if rat_pow2 k \<le> x then k else k - 1)"

definition round_half_even :: "rat \<Rightarrow> int" where
  "round_half_even x =
     (let f = \<lfloor>x\<rfloor>; r = x - of_int f
      in if r < 1 / 2 then f else if 1 / 2 < r then f + 1 else if even f then f else f + 1)"

definition round_float64 :: "rat \<Rightarrow> rat" where
  "round_float64 x =
     (if x = 0 then 0
      else let p = rat_pow2 (rat_log2 \<bar>x\<bar> - 52) in of_int (round_half_even (x / p)) * p)"

text \<open>\<^verbatim>\<open>Duration.Seconds\<close> of a duration in nanoseconds (Go's division truncates).\<close>

definition duration_seconds :: "int \<Rightarrow> rat" where
  "duration_seconds ns =
     (let sec = sgn ns * (\<bar>ns\<bar> div 1000000000); frac = sgn ns * (\<bar>ns\<bar> mod 1000000000)
      in round_float64 (round_float64 (of_int sec) + round_float64 (of_int frac / 1000000000)))"

text \<open>\<^verbatim>\<open>%01.9f\<close>: nine decimals of the exact value, rounded half to even.\<close>

definition format_fixed9 :: "rat \<Rightarrow> string" where
  "format_fixed9 x =
     (let n = nat (round_half_even (\<bar>x\<bar> * 1000000000))
      in (if x < 0 then ''-'' else []) @ dec_nat (n div 1000000000) @ ''.''
         @ pad_nat 9 (n mod 1000000000))"

definition format_duration :: "int \<Rightarrow> string" where
  "format_duration ns = format_fixed9 (duration_seconds ns) @ ''s''"

lemma round_half_even_of_int [simp]: "round_half_even (of_int n) = n"
  by (simp add: round_half_even_def)

lemma parse_pad_nat [simp]: "parse_nat (pad_nat w n) = n"
proof -
  have z: "foldl (\<lambda>a c. 10 * a + digit_val c) 0 (replicate k CHR ''0'') = 0" for k
    by (induction k) (simp_all add: digit_val_def)
  have "foldl (\<lambda>a c. 10 * a + digit_val c) 0 (dec_nat n) = n"
    using parse_nat_dec_nat [of n] by (simp add: parse_nat_def)
  with z show ?thesis by (simp add: parse_nat_def pad_nat_def Let_def)
qed

end
