(* ===== verification/Knit_Format.thy ===== *)
theory Knit_Format
  imports Knit_Schema Knit_Time
begin

text \<open>
  \<^verbatim>\<open>format.go\<close>: messages are formatted into JSON-like values along the request's mask. A
  field of the mask that is not a field of the message is a relation: it is left out of the
  formatted struct and a \<open>patch\<close> is returned, which the stitcher resolves later and writes
  into the struct the patch points to.

  The arguments that the formatting functions hand on unchanged are the fields of
  \<open>format_env\<close>: the library, the descriptors, the growth of slices, the flag
  \<^verbatim>\<open>deterministicPatchOrder\<close>, and the Go parameters \<^verbatim>\<open>resMeta\<close>, \<^verbatim>\<open>upstreamErrPatch\<close>,
  \<^verbatim>\<open>fallbackCatch\<close> and \<^verbatim>\<open>res\<close>. A map's entries are listed in the order in which
  \<^verbatim>\<open>Range\<close> visits them.
\<close>

record error_patch =
  ep_target :: nat
  ep_name :: string

record patch =
  pt_path :: slice
  pt_target :: pmsg
  pt_mask :: mask_field
  pt_format_target :: nat
  pt_meta :: nat
  pt_err :: "error_patch option"

record format_env =
  fe_lib :: protolib
  fe_pool :: desc_pool
  fe_grow :: "nat \<Rightarrow> nat"
  fe_deterministic :: bool
  fe_meta :: nat
  fe_upstream :: "error_patch option"
  fe_fallback_catch :: bool
  fe_resolver :: resolver

definition shouldCatch :: "mask_field \<Rightarrow> bool \<Rightarrow> bool" where
  "shouldCatch f fallback_catch =
     (mf_on_error f = Catch \<or> (fallback_catch \<and> mf_on_error f \<noteq> Throw))"

text \<open>Patches sorted by the map key they came from, stably.\<close>

definition sort_patches :: "(string \<times> 'p) list \<Rightarrow> 'p list" where
  "sort_patches keyed = map snd (sort_key fst keyed)"

section \<open>Converting and parsing messages\<close>

fun go_struct_name :: "go_struct \<Rightarrow> string" where
  "go_struct_name (GoAny u b) = anyName"
| "go_struct_name (GoFieldMask ps) = fieldMaskName"
| "go_struct_name (GoTimestamp s n) = timestampName"
| "go_struct_name (GoDuration s n) = durationName"
| "go_struct_name (GoValue v) = valueName"
| "go_struct_name (GoListValue vs) = listValueName"
| "go_struct_name (GoStruct kvs) = structName"
| "go_struct_name (GoBool b) = boolValueName"
| "go_struct_name (GoInt32 i) = int32ValueName"
| "go_struct_name (GoInt64 i) = int64ValueName"
| "go_struct_name (GoUInt32 i) = uint32ValueName"
| "go_struct_name (GoUInt64 i) = uint64ValueName"
| "go_struct_name (GoFloat f) = floatValueName"
| "go_struct_name (GoDouble f) = doubleValueName"
| "go_struct_name (GoString s) = stringValueName"
| "go_struct_name (GoBytes b) = bytesValueName"

text \<open>\<^verbatim>\<open>as[T]\<close>, for the generated type \<^verbatim>\<open>T\<close> of the well-known type \<open>name\<close>.\<close>

definition as_type :: "protolib \<Rightarrow> desc_pool \<Rightarrow> string \<Rightarrow> pmsg \<Rightarrow> go_struct result" where
  "as_type lib pool name msg =
     (let convert =
        (if md_full_name (pool (pm_desc msg)) \<noteq> name then
           Err (Errorf ''cannot convert %T to %T because they are different message types: %s != %s''
                  [AStr (pl_go_type lib (AnyMsg msg)), AStr (pl_go_type lib (AnyOther name)),
                   AStr (md_full_name (pool (pm_desc msg))), AStr name])
         else obind (of_sum (pl_marshal lib msg)) (\<lambda>data. of_sum (pl_as_struct lib name data)))
      in case pm_go msg of
           WellKnownType g \<Rightarrow> if go_struct_name g = name then Ok g else convert
         | _ \<Rightarrow> convert)"

definition parseMessage ::
  "protolib \<Rightarrow> gvalue option \<Rightarrow> pmsg \<Rightarrow> resolver \<Rightarrow> pmsg result" where
  "parseMessage lib val msg res =
     obind (of_sum (pl_json_of_value lib res val)) (\<lambda>data.
       case pl_msg_of_json lib res data msg of
         Inl e \<Rightarrow> Err (new_connect_error CodeInvalidArgument e)
       | Inr m \<Rightarrow> Ok m)"

section \<open>Values without patches\<close>

definition formatFloat :: "float64 \<Rightarrow> gvalue" where
  "formatFloat f = (case f of
     F_NaN \<Rightarrow> VString ''NaN'' | F_Inf \<Rightarrow> VString ''Infinity'' | F_NegInf \<Rightarrow> VString ''-Infinity''
   | _ \<Rightarrow> VNumber f)"

definition formatFieldMask :: "string list \<Rightarrow> gvalue" where
  "formatFieldMask paths =
     VString (string_join
       (map (\<lambda>path. string_join (map camelCase (split_on (CHR ''.'') path)) ''.'') paths) '','')"

text \<open>Conversion of a message to a value by way of its JSON form.\<close>

definition json_value_of :: "protolib \<Rightarrow> resolver \<Rightarrow> string \<Rightarrow> bytes \<Rightarrow> gvalue result" where
  "json_value_of lib res type_url bs =
     obind (of_sum (pl_any_unmarshal_new lib res type_url bs)) (\<lambda>m.
       obind (of_sum (pl_json_of_msg lib res m)) (\<lambda>data. of_sum (pl_value_of_json lib res data)))"

definition formatAny :: "protolib \<Rightarrow> string \<Rightarrow> bytes \<Rightarrow> resolver \<Rightarrow> gvalue result" where
  "formatAny lib type_url bs res =
     obind (json_value_of lib res type_url bs) (\<lambda>val.
       Ok (case val of
             VObject kvs \<Rightarrow> VObject (AList.update ''@type'' (VString type_url) kvs)
           | _ \<Rightarrow> VObject [(''@type'', VString type_url), (''value'', val)]))"

definition formatDetail :: "protolib \<Rightarrow> error_detail \<Rightarrow> resolver \<Rightarrow> gvalue result" where
  "formatDetail lib detail res =
     json_value_of lib res (''type.googleapis.com/'' @ ed_type detail) (ed_bytes detail)"

definition detail_struct :: "protolib \<Rightarrow> resolver \<Rightarrow> error_detail \<Rightarrow> gvalue" where
  "detail_struct lib res detail =
     VObject ([(''type'', VString (ed_type detail)),
               (''value'', VString (base64_encode False (ed_bytes detail)))]
              @ (case formatDetail lib detail res of Ok debug \<Rightarrow> [(''debug'', debug)] | _ \<Rightarrow> []))"

definition formatError :: "protolib \<Rightarrow> go_error \<Rightarrow> string \<Rightarrow> resolver \<Rightarrow> gvalue" where
  "formatError lib err path res =
     (case (case as_connect err of Some ce \<Rightarrow> ce | None \<Rightarrow> (CodeUnknown, err, [])) of
        (code, message, details) \<Rightarrow>
          VObject [(''[@error]'', VObject []),
                   (''code'', VString (pl_error_code_name lib code)),
                   (''message'', VString (error_string (pl_code_text lib) message)),
                   (''details'', VList (map (detail_struct lib res) details)),
                   (''path'', VString path)])"

text \<open>The contents of a well-known type, as \<^verbatim>\<open>formatMessage\<close> renders them.\<close>

definition format_go_struct :: "protolib \<Rightarrow> resolver \<Rightarrow> go_struct \<Rightarrow> gvalue result" where
  "format_go_struct lib res g = (case g of
     GoAny u b \<Rightarrow> formatAny lib u b res
   | GoFieldMask ps \<Rightarrow> Ok (formatFieldMask ps)
   | GoTimestamp s n \<Rightarrow> Ok (case pl_as_time lib s n of (secs, ns) \<Rightarrow> VString (format_rfc3339nano secs ns))
   | GoDuration s n \<Rightarrow> Ok (VString (format_duration (pl_as_duration lib s n)))
   | GoValue v \<Rightarrow> Ok v
   | GoListValue vs \<Rightarrow> Ok (VList vs)
   | GoStruct kvs \<Rightarrow> Ok (VObject kvs)
   | GoBool b \<Rightarrow> Ok (VBool b)
   | GoInt32 i \<Rightarrow> Ok (VNumber (float64_of_int (sint i)))
   | GoInt64 i \<Rightarrow> Ok (VString (format_int i))
   | GoUInt32 i \<Rightarrow> Ok (VNumber (float64_of_int (uint i)))
   | GoUInt64 i \<Rightarrow> Ok (VString (format_uint i))
   | GoFloat f \<Rightarrow> Ok (formatFloat f)
   | GoDouble f \<Rightarrow> Ok (formatFloat f)
   | GoString s \<Rightarrow> Ok (VString s)
   | GoBytes b \<Rightarrow> Ok (VString (base64_encode True b)))"

text \<open>\<^verbatim>\<open>formatMapKeyValue\<close>; \<^verbatim>\<open>Int()\<close>, \<^verbatim>\<open>Uint()\<close> and \<^verbatim>\<open>Bool()\<close> of a key panic on another type.\<close>

definition formatMapKeyValue :: "protolib \<Rightarrow> kind \<Rightarrow> map_key \<Rightarrow> string list \<Rightarrow> string result" where
  "formatMapKeyValue lib key_kind key path =
     (if key_kind \<in> {Int32Kind, Sint32Kind, Sfixed32Kind, Int64Kind, Sint64Kind, Sfixed64Kind} then
        (case key of KInt i \<Rightarrow> Ok (format_int i) | _ \<Rightarrow> Panic ''type mismatch: cannot convert to int'')
      else if key_kind \<in> {Uint32Kind, Fixed32Kind, Uint64Kind, Fixed64Kind} then
        (case key of KUint i \<Rightarrow> Ok (format_uint i) | _ \<Rightarrow> Panic ''type mismatch: cannot convert to uint'')
      else if key_kind = BoolKind then
        (case key of KBool b \<Rightarrow> Ok (format_bool b) | _ \<Rightarrow> Panic ''type mismatch: cannot convert to bool'')
      else if key_kind = StringKind then
        (case key of KString s \<Rightarrow> Ok s | KInt i \<Rightarrow> Ok (format_int i) | KUint i \<Rightarrow> Ok (format_uint i)
         | KBool b \<Rightarrow> Ok (format_bool b))
      else Err (Errorf ''%v: unrecognized map key kind: %v''
                  [AStr (string_join path ''.''), AStr (pl_kind_text lib key_kind)]))"

text \<open>The cases of \<^verbatim>\<open>formatSingularValue\<close> for a value that is not a message.\<close>

definition format_scalar :: "protolib \<Rightarrow> field_desc \<Rightarrow> pval \<Rightarrow> string list \<Rightarrow> gvalue result" where
  "format_scalar lib field val path =
     (let k = fd_kind field
      in if k = EnumKind then
           (if en_full_name (fd_enum field) = nullValueName then Ok VNull
            else case val of
              PEnum n \<Rightarrow> (case enum_value_by_number (fd_enum field) n of
                  None \<Rightarrow> Ok (VNumber (float64_of_int n)) | Some name \<Rightarrow> Ok (VString name))
            | _ \<Rightarrow> Panic ''type mismatch: cannot convert to enum'')
         else if k \<in> {Int32Kind, Sint32Kind, Sfixed32Kind} then
           (case val of PInt32 i \<Rightarrow> Ok (VNumber (float64_of_int (sint i)))
            | PInt64 i \<Rightarrow> Ok (VNumber (F_Num (round_float64 (of_int (sint i)))))
            | _ \<Rightarrow> Panic ''type mismatch: cannot convert to int'')
         else if k \<in> {Int64Kind, Sint64Kind, Sfixed64Kind} then
           (case val of PInt32 i \<Rightarrow> Ok (VString (format_int (scast i))) | PInt64 i \<Rightarrow> Ok (VString (format_int i))
            | _ \<Rightarrow> Panic ''type mismatch: cannot convert to int'')
         else if k \<in> {Uint32Kind, Fixed32Kind} then
           (case val of PUint32 i \<Rightarrow> Ok (VNumber (float64_of_int (uint i)))
            | PUint64 i \<Rightarrow> Ok (VNumber (F_Num (round_float64 (of_int (uint i)))))
            | _ \<Rightarrow> Panic ''type mismatch: cannot convert to uint'')
         else if k \<in> {Uint64Kind, Fixed64Kind} then
           (case val of PUint32 i \<Rightarrow> Ok (VString (format_uint (ucast i))) | PUint64 i \<Rightarrow> Ok (VString (format_uint i))
            | _ \<Rightarrow> Panic ''type mismatch: cannot convert to uint'')
         else if k \<in> {FloatKind, DoubleKind} then
           (case val of PFloat f \<Rightarrow> Ok (formatFloat f) | _ \<Rightarrow> Panic ''type mismatch: cannot convert to float'')
         else if k = BoolKind then
           (case val of PBool b \<Rightarrow> Ok (VBool b) | _ \<Rightarrow> Panic ''type mismatch: cannot convert to bool'')
         else if k = StringKind then
           (case val of PString s \<Rightarrow> Ok (VString s) | _ \<Rightarrow> Ok (VString (pl_value_text lib val)))
         else if k = BytesKind then
           (case val of PBytes b \<Rightarrow> Ok (VString (base64_encode True b))
            | _ \<Rightarrow> Panic ''type mismatch: cannot convert to bytes'')
         else Err (Errorf ''%v: unrecognized value kind: %v''
                     [AStr (string_join path ''.''), AStr (pl_kind_text lib k)]))"

section \<open>Formatting along the mask\<close>

text \<open>
  \<^verbatim>\<open>formatMessage\<close>, \<^verbatim>\<open>formatNormalMessage\<close> and its loop over the mask (\<open>format_fields\<close>),
  \<^verbatim>\<open>formatValue\<close> and its loops over a map's entries and a list's elements, and
  \<^verbatim>\<open>formatSingularValue\<close>. They call one another along the mask, which gets smaller at each
  field.
\<close>

definition relation_patch :: "format_env \<Rightarrow> pmsg \<Rightarrow> nat \<Rightarrow> slice \<Rightarrow> mask_field \<Rightarrow> patch" where
  "relation_patch env msg val path f =
     \<lparr>pt_path = path, pt_target = msg, pt_mask = f, pt_format_target = val, pt_meta = fe_meta env,
      pt_err = (if shouldCatch f (fe_fallback_catch env)
                then Some \<lparr>ep_target = val, ep_name = mf_name f\<rparr> else fe_upstream env)\<rparr>"

definition pv_map :: "pval \<Rightarrow> (map_key \<times> pval) list result" where
  "pv_map v = (case v of PMap kvs \<Rightarrow> Ok kvs | _ \<Rightarrow> Panic ''type mismatch: cannot convert to map'')"

function (sequential)
      formatMessage :: "format_env \<Rightarrow> pmsg \<Rightarrow> mask_field list \<Rightarrow> slice \<Rightarrow> (gvalue \<times> patch list) run"
  and formatNormalMessage :: "format_env \<Rightarrow> pmsg \<Rightarrow> mask_field list \<Rightarrow> slice \<Rightarrow> (gvalue \<times> patch list) run"
  and format_fields :: "format_env \<Rightarrow> pmsg \<Rightarrow> nat \<Rightarrow> mask_field list \<Rightarrow> slice \<Rightarrow> patch list run"
  and formatValue ::
    "format_env \<Rightarrow> field_desc \<Rightarrow> pval \<Rightarrow> mask_field list \<Rightarrow> slice \<Rightarrow> (gvalue \<times> patch list) run"
  and format_entries ::
    "format_env \<Rightarrow> kind \<Rightarrow> field_desc \<Rightarrow> (map_key \<times> pval) list \<Rightarrow> mask_field list \<Rightarrow> slice
     \<Rightarrow> ((string \<times> gvalue) list \<times> (string \<times> patch) list) run"
  and format_elements ::
    "format_env \<Rightarrow> field_desc \<Rightarrow> pval list \<Rightarrow> mask_field list \<Rightarrow> slice
     \<Rightarrow> (gvalue list \<times> patch list) run"
  and formatSingularValue ::
    "format_env \<Rightarrow> field_desc \<Rightarrow> pval \<Rightarrow> mask_field list \<Rightarrow> slice \<Rightarrow> (gvalue \<times> patch list) run"
where
  "formatMessage env msg msk path s =
     (let name = md_full_name (fe_pool env (pm_desc msg))
      in if name \<in> set wellKnownTypes then
           slift (obind (as_type (fe_lib env) (fe_pool env) name msg) (\<lambda>g.
             obind (format_go_struct (fe_lib env) (fe_resolver env) g) (\<lambda>v. Ok (v, [])))) s
         else formatNormalMessage env msg msk path s)"
| "formatNormalMessage env msg msk path s =
     sbind (sdo new_struct) (\<lambda>val.
       sbind (format_fields env msg val msk path) (\<lambda>patches.
         slift (Ok (VStruct val, patches)))) s"
| "format_fields env msg val [] path s = slift (Ok []) s"
| "format_fields env msg val (f # rest) path s =
     (case fieldWithCamelCaseName (md_fields (fe_pool env (pm_desc msg))) (mf_name f) of
        None \<Rightarrow>
          sbind (format_fields env msg val rest path)
            (\<lambda>patches. slift (Ok (relation_patch env msg val path f # patches))) s
      | Some field \<Rightarrow>
          if fd_presence field \<and> \<not> pm_has msg field then format_fields env msg val rest path s
          else
            sbind (sdo (append_slice (fe_grow env) path (mf_name f))) (\<lambda>path'.
              sbind (formatValue env field (pm_get (fe_lib env) msg field) (mf_mask f) path') (\<lambda>(v, ps).
                sbind (sdo (\<lambda>t. ((), set_field val (mf_name f) v t))) (\<lambda>_.
                  sbind (format_fields env msg val rest path)
                    (\<lambda>patches. slift (Ok (ps @ patches)))))) s)"
| "formatValue env field val msk path s =
     (case fd_shape field of
        MapOf map_key map_val \<Rightarrow>
          sbind (slift (pv_map val)) (\<lambda>kvs.
            sbind (format_entries env (fd_kind map_key) map_val kvs msk path) (\<lambda>(entries, keyed).
              slift (Ok (VObject (fold (\<lambda>(k, v). AList.update k v) entries []),
                         if fe_deterministic env then sort_patches keyed else map snd keyed)))) s
      | Repeated \<Rightarrow>
          sbind (slift (pv_list val)) (\<lambda>vals.
            sbind (format_elements env field vals msk path) (\<lambda>(vs, patches).
              slift (Ok (VList vs, patches)))) s
      | Singular \<Rightarrow> formatSingularValue env field val msk path s)"
| "format_entries env key_kind map_val [] msk path s = slift (Ok ([], [])) s"
| "format_entries env key_kind map_val ((k, v) # kvs) msk path s =
     sbind (slift (formatMapKeyValue (fe_lib env) key_kind k (slice_elems s path))) (\<lambda>key_str.
       sbind (formatSingularValue env map_val v msk path) (\<lambda>(gv, ps).
         sbind (format_entries env key_kind map_val kvs msk path) (\<lambda>(entries, keyed).
           slift (Ok ((key_str, gv) # entries, map (Pair key_str) ps @ keyed))))) s"
| "format_elements env field [] msk path s = slift (Ok ([], [])) s"
| "format_elements env field (v # vals) msk path s =
     sbind (formatSingularValue env field v msk path) (\<lambda>(gv, ps).
       sbind (format_elements env field vals msk path) (\<lambda>(vs, patches).
         slift (Ok (gv # vs, ps @ patches)))) s"
| "formatSingularValue env field val msk path s =
     (if isMessage (fd_kind field) then
        sbind (slift (pv_message val)) (\<lambda>m. formatMessage env m msk path) s
      else
        slift (obind (format_scalar (fe_lib env) field val (slice_elems s path)) (\<lambda>v. Ok (v, []))) s)"
  by pat_completeness auto


termination
  by (relation "measures
      [\<lambda>x. case x of
          Inl (Inl (_, _, msk, _, _)) \<Rightarrow> size_list size msk
        | Inl (Inr (Inl (_, _, msk, _, _))) \<Rightarrow> size_list size msk
        | Inl (Inr (Inr (_, _, _, msk, _, _))) \<Rightarrow> size_list size msk
        | Inr (Inl (Inl (_, _, _, msk, _, _))) \<Rightarrow> size_list size msk
        | Inr (Inl (Inr (_, _, _, _, msk, _, _))) \<Rightarrow> size_list size msk
        | Inr (Inr (Inl (_, _, _, msk, _, _))) \<Rightarrow> size_list size msk
        | Inr (Inr (Inr (_, _, _, msk, _, _))) \<Rightarrow> size_list size msk,
       \<lambda>x. case x of
          Inl (Inl _) \<Rightarrow> 2 | Inl (Inr (Inl _)) \<Rightarrow> 1 | Inl (Inr (Inr _)) \<Rightarrow> 0
        | Inr (Inl (Inl _)) \<Rightarrow> 5 | Inr (Inl (Inr _)) \<Rightarrow> 4 | Inr (Inr (Inl _)) \<Rightarrow> 4
        | Inr (Inr (Inr _)) \<Rightarrow> 3,
       \<lambda>x. case x of
          Inr (Inl (Inr (_, _, _, kvs, _, _, _))) \<Rightarrow> length kvs
        | Inr (Inr (Inl (_, _, vals, _, _, _))) \<Rightarrow> length vals | _ \<Rightarrow> 0]")
    (auto simp: less_SucI [OF less_SucI] intro: order_less_trans [OF mf_mask_smaller])

end
