(* ===== verification/Knit_Patches.thy ===== *)
theory Knit_Patches
  imports Knit_Format
begin

text \<open>
  What formatting does to the store, and what the patches it returns are like: a formatted
  message only writes structs it made itself, every patch points into one of those, carries
  the metadata it was given, has the error patch its \<^verbatim>\<open>catch\<close> and \<^verbatim>\<open>throw\<close> ask for, and
  its mask is strictly smaller than the mask that was formatted. The stitcher terminates
  because of the last.
\<close>

text \<open>
  Nothing but the structs in \<open>X\<close> and new ones changes, and the metadata and the RPC log do
  not (the arrays of paths do).
\<close>

definition keeps :: "nat set \<Rightarrow> store \<Rightarrow> store \<Rightarrow> bool" where
  "keeps X s s' \<longleftrightarrow> st_next_struct s \<le> st_next_struct s'
     \<and> (\<forall>a < st_next_struct s. a \<notin> X \<longrightarrow> st_structs s' a = st_structs s a)
     \<and> st_metas s' = st_metas s \<and> st_next_meta s' = st_next_meta s \<and> st_rpcs s' = st_rpcs s"

lemma keeps_refl [intro, simp]: "keeps X s s"
  by (simp add: keeps_def)

lemma keeps_trans: "keeps X s t \<Longrightarrow> keeps X t u \<Longrightarrow> keeps X s u"
  by (auto simp: keeps_def)

lemma keeps_mono: "keeps X s s' \<Longrightarrow> X \<subseteq> Y \<Longrightarrow> keeps Y s s'"
  by (auto simp: keeps_def)

text \<open>Where a patch made between two stores points, and what it says about errors.\<close>

definition patch_made :: "format_env \<Rightarrow> nat set \<Rightarrow> nat \<Rightarrow> store \<Rightarrow> store \<Rightarrow> patch \<Rightarrow> bool" where
  "patch_made env X n s s' p \<longleftrightarrow>
     pt_format_target p \<in> X \<union> {st_next_struct s ..< st_next_struct s'}
     \<and> pt_meta p = fe_meta env
     \<and> pt_err p = (if shouldCatch (pt_mask p) (fe_fallback_catch env)
          then Some \<lparr>ep_target = pt_format_target p, ep_name = mf_name (pt_mask p)\<rparr> else fe_upstream env)
     \<and> size (pt_mask p) < n"

lemma patch_made_mono:
  "patch_made env X m s s' p \<Longrightarrow> X \<subseteq> Y \<Longrightarrow> m \<le> n \<Longrightarrow> patch_made env Y n s s' p"
  unfolding patch_made_def by (meson Un_mono order_refl order_less_le_trans subsetD)

lemma patch_made_extend:
  "patch_made env X n t u p \<Longrightarrow> st_next_struct s \<le> st_next_struct t
    \<Longrightarrow> st_next_struct u \<le> st_next_struct v \<Longrightarrow> patch_made env X n s v p"
  by (auto simp: patch_made_def)

text \<open>
  A computation that keeps all but \<open>X\<close> and whose patches, other than those in \<open>A\<close> from
  earlier steps, it makes itself. The rules follow the structure of the code.
\<close>

definition patches_in :: "('a \<Rightarrow> patch set) \<Rightarrow> 'a result \<Rightarrow> patch set" where
  "patches_in f r = (case r of Ok x \<Rightarrow> f x | _ \<Rightarrow> {})"

lemma patches_in_simps [simp]:
  "patches_in f (Ok x) = f x" "patches_in f (Err e) = {}" "patches_in f (Panic p) = {}"
  by (simp_all add: patches_in_def)

lemma patches_in_none [simp]: "patches_in (\<lambda>_. {}) r = {}"
  by (simp add: patches_in_def split: outcome.split)

definition makes ::
  "format_env \<Rightarrow> nat set \<Rightarrow> nat \<Rightarrow> patch set \<Rightarrow> store \<Rightarrow> 'a run \<Rightarrow> ('a \<Rightarrow> patch set) \<Rightarrow> bool" where
  "makes env X n A s m g \<longleftrightarrow> (\<forall>r t. m s = (r, t) \<longrightarrow>
     keeps X s t \<and> (\<forall>p \<in> patches_in g r - A. patch_made env X n s t p))"

lemma makes_sread: "makes env X n A s (f s) g \<Longrightarrow> makes env X n A s (sread f) g"
  by (simp add: makes_def sread_def)

lemma makes_conseq:
  assumes "makes env X m {} s f g" "X \<subseteq> Y" "m \<le> n"
  shows "makes env Y n A s f g"
  using assms by (auto simp: makes_def intro: keeps_mono patch_made_mono)

lemma makes_bind:
  assumes m: "makes env X n A s m g"
    and f: "\<And>x t. m s = (Ok x, t) \<Longrightarrow> makes env X n (A \<union> g x) t (f x) h"
  shows "makes env X n A s (sbind m f) h"
  unfolding makes_def
proof (intro allI impI)
  fix r u
  assume "sbind m f s = (r, u)"
  then show "keeps X s u \<and> (\<forall>p \<in> patches_in h r - A. patch_made env X n s u p)"
  proof (cases rule: sbind_cases)
    case (Ok x t)
    from m Ok(1) have mt: "keeps X s t" "\<forall>p \<in> g x - A. patch_made env X n s t p"
      by (auto simp: makes_def)
    from f [OF Ok(1)] Ok(2) have fu: "keeps X t u"
      "\<forall>p \<in> patches_in h r - (A \<union> g x). patch_made env X n t u p"
      by (auto simp: makes_def)
    have le: "st_next_struct s \<le> st_next_struct t" "st_next_struct t \<le> st_next_struct u"
      using mt(1) fu(1) by (auto simp: keeps_def)
    have "patch_made env X n s u p" if "p \<in> patches_in h r - A" for p
    proof (cases "p \<in> g x")
      case True
      with that mt(2) have "patch_made env X n s t p" by auto
      then show ?thesis by (rule patch_made_extend) (use le in auto)
    next
      case False
      with that fu(2) have "patch_made env X n t u p" by auto
      then show ?thesis by (rule patch_made_extend) (use le in auto)
    qed
    with keeps_trans [OF mt(1) fu(1)] show ?thesis by blast
  next
    case (Err e)
    with m show ?thesis by (auto simp: makes_def)
  next
    case (Panic p)
    with m show ?thesis by (auto simp: makes_def)
  qed
qed

lemma makes_lift: "patches_in g r \<subseteq> A \<Longrightarrow> makes env X n A s (slift r) g"
  by (auto simp: makes_def)

lemma makes_ret:
  "(\<And>p. p \<in> g x \<Longrightarrow> p \<notin> A \<Longrightarrow> patch_made env X n s s p) \<Longrightarrow> makes env X n A s (slift (Ok x)) g"
  by (auto simp: makes_def)

lemma makes_split:
  "(\<And>a b. (a, b) = x \<Longrightarrow> makes env X n A s (f a b) g) \<Longrightarrow> makes env X n A s (case x of (a, b) \<Rightarrow> f a b) g"
  by (cases x) simp

lemma makes_relation_patch:
  "val \<in> X \<Longrightarrow> size f < n \<Longrightarrow> patch_made env X n s t (relation_patch env msg val path f)"
  by (simp add: patch_made_def relation_patch_def)

lemma makes_append_slice: "makes env X n A s (sdo (append_slice grow sl x)) (\<lambda>_. {})"
  by (auto simp: makes_def keeps_def append_slice_def Let_def split: if_splits)

lemma makes_set_field: "a \<in> X \<Longrightarrow> makes env X n A s (sdo (\<lambda>t. ((), set_field a k v t))) (\<lambda>_. {})"
  by (auto simp: makes_def keeps_def store_simps)

lemma set_sort_patches [simp]: "set (sort_patches keyed) = snd ` set keyed"
  by (simp add: sort_patches_def)

declare formatMessage.simps [simp del] formatNormalMessage.simps [simp del]
  formatValue.simps [simp del] formatSingularValue.simps [simp del]

text \<open>The equations as equations between computations.\<close>

lemma format_runs:
  "formatMessage env msg msk path =
     (let name = md_full_name (fe_pool env (pm_desc msg))
      in if name \<in> set wellKnownTypes then
           slift (obind (as_type (fe_lib env) (fe_pool env) name msg) (\<lambda>g.
             obind (format_go_struct (fe_lib env) (fe_resolver env) g) (\<lambda>v. Ok (v, []))))
         else formatNormalMessage env msg msk path)"
  "formatNormalMessage env msg msk path =
     sbind (sdo new_struct) (\<lambda>val.
       sbind (format_fields env msg val msk path) (\<lambda>patches. slift (Ok (VStruct val, patches))))"
  "format_fields env msg val [] path = slift (Ok [])"
  "format_fields env msg val (f # rest) path =
     (case fieldWithCamelCaseName (md_fields (fe_pool env (pm_desc msg))) (mf_name f) of
        None \<Rightarrow>
          sbind (format_fields env msg val rest path)
            (\<lambda>patches. slift (Ok (relation_patch env msg val path f # patches)))
      | Some field \<Rightarrow>
          if fd_presence field \<and> \<not> pm_has msg field then format_fields env msg val rest path
          else
            sbind (sdo (append_slice (fe_grow env) path (mf_name f))) (\<lambda>path'.
              sbind (formatValue env field (pm_get (fe_lib env) msg field) (mf_mask f) path') (\<lambda>(v, ps).
                sbind (sdo (\<lambda>t. ((), set_field val (mf_name f) v t))) (\<lambda>_.
                  sbind (format_fields env msg val rest path) (\<lambda>patches. slift (Ok (ps @ patches)))))))"
  "formatValue env field v msk path =
     (case fd_shape field of
        MapOf map_key map_val \<Rightarrow>
          sbind (slift (pv_map v)) (\<lambda>kvs.
            sbind (format_entries env (fd_kind map_key) map_val kvs msk path) (\<lambda>(entries, keyed).
              slift (Ok (VObject (fold (\<lambda>(k, v). AList.update k v) entries []),
                         if fe_deterministic env then sort_patches keyed else map snd keyed))))
      | Repeated \<Rightarrow>
          sbind (slift (pv_list v)) (\<lambda>vals.
            sbind (format_elements env field vals msk path) (\<lambda>(vs, patches). slift (Ok (VList vs, patches))))
      | Singular \<Rightarrow> formatSingularValue env field v msk path)"
  "format_entries env kk mv [] msk path = slift (Ok ([], []))"
  "format_elements env field [] msk path = slift (Ok ([], []))"
  "format_elements env field (v # vals) msk path =
     sbind (formatSingularValue env field v msk path) (\<lambda>(gv, ps).
       sbind (format_elements env field vals msk path) (\<lambda>(vs, patches). slift (Ok (gv # vs, ps @ patches))))"
  by (rule ext; simp add: formatMessage.simps formatNormalMessage.simps formatValue.simps Let_def
      split: option.split field_shape.split)+

lemma format_runs_at:
  "format_entries env kk mv ((k, v) # kvs) msk path = sread (\<lambda>s.
     sbind (slift (formatMapKeyValue (fe_lib env) kk k (slice_elems s path))) (\<lambda>key_str.
       sbind (formatSingularValue env mv v msk path) (\<lambda>(gv, ps).
         sbind (format_entries env kk mv kvs msk path) (\<lambda>(entries, keyed).
           slift (Ok ((key_str, gv) # entries, map (Pair key_str) ps @ keyed))))))"
  "formatSingularValue env field v msk path = sread (\<lambda>s.
     if isMessage (fd_kind field) then
       sbind (slift (pv_message v)) (\<lambda>m. formatMessage env m msk path)
     else slift (obind (format_scalar (fe_lib env) field v (slice_elems s path)) (\<lambda>v. Ok (v, []))))"
  by (rule ext; simp add: formatSingularValue.simps sread_def)+

definition ret_patches :: "'a \<times> patch list \<Rightarrow> patch set" where
  "ret_patches x = set (snd x)"

definition ret_keyed :: "'a \<times> ('b \<times> patch) list \<Rightarrow> patch set" where
  "ret_keyed x = snd ` set (snd x)"

lemma ret_patches_simps [simp]:
  "ret_patches (v, ps) = set ps" "ret_keyed (v, keyed) = snd ` set keyed"
  by (simp_all add: ret_patches_def ret_keyed_def)

text \<open>The whole family.\<close>

lemma format_makes:
  shows "makes env {} (size_list size msk) {} s (formatMessage env msg msk path) ret_patches"
    and "makes env {} (size_list size msk) {} s (formatNormalMessage env msg msk path) ret_patches"
    and "makes env {val} (size_list size msk) {} s (format_fields env msg val msk path) set"
    and "makes env {} (size_list size msk) {} s (formatValue env field v msk path) ret_patches"
    and "makes env {} (size_list size msk) {} s (format_entries env kk field kvs msk path) ret_keyed"
    and "makes env {} (size_list size msk) {} s (format_elements env field vals msk path) ret_patches"
    and "makes env {} (size_list size msk) {} s (formatSingularValue env field v msk path) ret_patches"
proof (induction env msg msk path s and env msg msk path s and env msg val msk path s
    and env field v msk path s and env kk field kvs msk path s and env field vals msk path s
    and env field v msk path s
    rule: formatMessage_formatNormalMessage_format_fields_formatValue_format_entries_format_elements_formatSingularValue.induct)
  case (1 env msg msk path s)
  then show ?case
    by (auto simp: format_runs(1) Let_def obind_def intro!: makes_lift split: outcome.split)
next
  case (2 env msg msk path s)
  let ?n = "size_list size msk"
  obtain val t where new: "new_struct s = (val, t)" by fastforce
  then have "makes env {val} ?n {} t (sbind (format_fields env msg val msk path)
      (\<lambda>patches. slift (Ok (VStruct val, patches)))) ret_patches"
    by (intro makes_bind [where g = set] makes_lift 2) simp_all
  moreover have "formatNormalMessage env msg msk path s = sbind (format_fields env msg val msk path)
      (\<lambda>patches. slift (Ok (VStruct val, patches))) t"
    using new by (simp add: format_runs)
  ultimately show ?case
    using new by (fastforce simp: makes_def keeps_def patch_made_def new_struct_def)
next
  case (3 env msg val path s)
  then show ?case by (auto simp: format_runs intro!: makes_lift)
next
  case (4 env msg val f rest path s)
  let ?fd = "fieldWithCamelCaseName (md_fields (fe_pool env (pm_desc msg))) (mf_name f)"
  let ?n = "size_list size (f # rest)"
  show ?case
  proof (cases ?fd)
    case None
    show ?thesis
      unfolding format_runs(4) None option.case
      by (rule makes_bind [OF makes_conseq [OF 4(1) [OF None]]])
        (auto intro!: makes_ret makes_relation_patch)
  next
    case (Some field)
    show ?thesis
    proof (cases "fd_presence field \<and> \<not> pm_has msg field")
      case True
      with Some makes_conseq [OF 4(2) [OF Some True], where Y = "{val}" and n = ?n]
      show ?thesis by (simp add: format_runs(4))
    next
      case False
      show ?thesis
        unfolding format_runs(4) Some option.case if_not_P [OF False]
        apply (rule makes_bind [OF makes_append_slice])
        apply (rule makes_bind [OF makes_conseq [OF 4(3) [OF Some False]]])
        apply (assumption | simp)+
        using mf_mask_smaller [of f] apply simp
        apply (rule makes_split)
        apply (rule makes_bind [OF makes_set_field])
        apply simp
        apply (rule makes_bind [OF makes_conseq [OF 4(4) [OF Some False]]])
        apply (assumption | simp)+
        apply (auto intro!: makes_lift)
        done
    qed
  qed
next
  case (5 env field v msk path s)
  show ?case
  proof (cases "fd_shape field")
    case Singular
    with 5 show ?thesis by (simp add: format_runs(5))
  next
    case Repeated
    show ?thesis
      unfolding format_runs(5) Repeated field_shape.case
      apply (rule makes_bind [where g = "\<lambda>_. {}"], rule makes_lift, simp)
      apply (rule makes_bind [OF makes_conseq [OF 5(2) [OF Repeated]]])
      apply (auto intro!: makes_lift)
      done
  next
    case (MapOf k w)
    show ?thesis
      unfolding format_runs(5) MapOf field_shape.case
      apply (rule makes_bind [where g = "\<lambda>_. {}"], rule makes_lift, simp)
      apply (rule makes_bind [OF makes_conseq [OF 5(3) [OF MapOf]]])
      apply (auto intro!: makes_lift split: if_splits)
      done
  qed
next
  case (6 env kk field msk path s)
  then show ?case by (auto simp: format_runs intro!: makes_lift)
next
  case (7 env kk field k v kvs msk path s)
  show ?case
    unfolding format_runs_at(1)
    apply (rule makes_sread)
    apply (rule makes_bind [where g = "\<lambda>_. {}"], rule makes_lift, simp)
    apply (rule makes_bind [OF makes_conseq [OF 7(1)]])
    apply (assumption | rule refl | simp)+
    apply (rule makes_split)
    apply (rule makes_bind [OF makes_conseq [OF 7(2)]])
    apply (assumption | rule refl | simp)+
    apply (auto intro!: makes_lift)
    done
next
  case (8 env field msk path s)
  then show ?case by (auto simp: format_runs intro!: makes_lift)
next
  case (9 env field v vals msk path s)
  show ?case
    unfolding format_runs(8)
    apply (rule makes_bind [OF 9(1)])
    apply (rule makes_split)
    apply (rule makes_bind [OF makes_conseq [OF 9(2)]])
    apply (assumption | rule refl)+
    apply (auto intro!: makes_lift)
    done
next
  case (10 env field v msk path s)
  show ?case
  proof (cases "isMessage (fd_kind field)")
    case True
    show ?thesis
      unfolding format_runs_at(2) if_P [OF True]
      apply (rule makes_sread)
      apply (rule makes_bind [where g = "\<lambda>_. {}"], rule makes_lift, simp)
      apply (rule makes_conseq [OF 10(1) [OF True]])
      apply (assumption | rule refl | simp)+
      done
  next
    case False
    show ?thesis
      unfolding format_runs_at(2) if_not_P [OF False]
      by (rule makes_sread, rule makes_lift) (auto simp: obind_def split: outcome.split)
  qed
qed
end
