(* ===== verification/Knit_Stitcher.thy ===== *)
theory Knit_Stitcher
  imports Knit_Patches
begin

text \<open>
  \<^verbatim>\<open>stitcher.go\<close>: the patches of a response are resolved breadth first. In each round the
  patches are grouped by relation, parameters and metadata; each group is one resolver call,
  made by a goroutine of its own; its values are formatted into the structs the patches point
  to, and the patches this leaves are the next round's.

  Go visits the groups of a round in no particular order, and schedules their goroutines as it
  likes: \<open>se_parse_order\<close> and \<open>se_run_order\<close> are the orders of a round (by its number). A
  goroutine is one step of the model; its writes go to fields that no other goroutine of the
  round writes, each under the lock of its struct. When one fails the round fails, the context
  of the others is cancelled and what they still write is never read.
\<close>

section \<open>Semaphores\<close>

text \<open>
  \<^verbatim>\<open>newSema\<close>: at most \<open>limit\<close> goroutines run resolvers at a time, any number when the limit
  is not positive. \<open>sema_acquire\<close> is \<^const>\<open>None\<close> while the caller has to wait.
\<close>

datatype sema = BoundedSema (sema_limit: nat) (sema_used: nat) | UnboundedSema

definition newSema :: "int \<Rightarrow> sema" where
  "newSema limit = (if limit > 0 then BoundedSema (nat limit) 0 else UnboundedSema)"

fun sema_acquire :: "sema \<Rightarrow> sema option" where
  "sema_acquire (BoundedSema limit used) =
     (if used < limit then Some (BoundedSema limit (Suc used)) else None)"
| "sema_acquire UnboundedSema = Some UnboundedSema"

fun sema_release :: "sema \<Rightarrow> sema" where
  "sema_release (BoundedSema limit used) = BoundedSema limit (used - 1)"
| "sema_release UnboundedSema = UnboundedSema"

section \<open>Groups\<close>

record stitch_env =
  se_lib :: protolib
  se_pool :: desc_pool
  se_gateway :: gateway
  se_grow :: "nat \<Rightarrow> nat"
  se_deterministic :: bool
  se_fallback_catch :: bool
  se_parse_order :: "nat \<Rightarrow> nat \<Rightarrow> nat list"
  se_run_order :: "nat \<Rightarrow> nat \<Rightarrow> nat list"

text \<open>
  \<^verbatim>\<open>groupKey\<close>. Parameters are compared by address; the value they point to comes with it. A
  configuration of \<^verbatim>\<open>gateway.relations\<close> is identified by the keys it is stored under.
\<close>

record group_key =
  gk_params :: "(nat \<times> gvalue) option"
  gk_config :: "string \<times> string"
  gk_meta :: nat

type_synonym group = "group_key \<times> relation_config \<times> patch list"

definition patch_type_name :: "stitch_env \<Rightarrow> patch \<Rightarrow> string" where
  "patch_type_name env p = md_full_name (se_pool env (pm_desc (pt_target p)))"

definition patch_config :: "stitch_env \<Rightarrow> patch \<Rightarrow> relation_config option" where
  "patch_config env p = lookup_relation (se_gateway env) (patch_type_name env p) (mf_name (pt_mask p))"

definition patch_key :: "stitch_env \<Rightarrow> patch \<Rightarrow> group_key" where
  "patch_key env p = \<lparr>gk_params = mf_params (pt_mask p),
     gk_config = (patch_type_name env p, mf_name (pt_mask p)), gk_meta = pt_meta p\<rparr>"

text \<open>\<^verbatim>\<open>groupedPatches[key] = append(groupedPatches[key], patch)\<close>.\<close>

fun add_to_group :: "group_key \<Rightarrow> relation_config \<Rightarrow> patch \<Rightarrow> group list \<Rightarrow> group list" where
  "add_to_group key config p [] = [(key, config, [p])]"
| "add_to_group key config p ((k, c, ps) # groups) =
     (if k = key then (k, c, ps @ [p]) # groups else (k, c, ps) # add_to_group key config p groups)"

fun group_patches :: "stitch_env \<Rightarrow> store \<Rightarrow> patch list \<Rightarrow> group list \<Rightarrow> group list result" where
  "group_patches env s [] groups = Ok groups"
| "group_patches env s (p # ps) groups =
     (case patch_config env p of
        None \<Rightarrow> Err (Errorf ''%v: unknown relation %q''
          [AStr (string_join (slice_elems s (pt_path p)) ''.''), AStr (mf_name (pt_mask p))])
      | Some config \<Rightarrow> group_patches env s ps (add_to_group (patch_key env p) config p groups))"

text \<open>
  A visit in an order of Go's choice: \<open>order n k\<close> lists the positions \<open>0..<k\<close> as round \<open>n\<close>
  visits them (any other position in it is skipped).
\<close>

definition visit :: "(nat \<Rightarrow> nat \<Rightarrow> nat list) \<Rightarrow> nat \<Rightarrow> 'a list \<Rightarrow> 'a list" where
  "visit order n xs = map (\<lambda>i. xs ! i) (filter (\<lambda>i. i < length xs) (order n (length xs)))"

definition order_ok :: "(nat \<Rightarrow> nat \<Rightarrow> nat list) \<Rightarrow> bool" where
  "order_ok order \<longleftrightarrow> (\<forall>n k. mset (order n k) = mset [0..<k])"

lemma set_visit_subset: "set (visit order n xs) \<subseteq> set xs"
  by (auto simp: visit_def)

lemma mset_visit: "order_ok order \<Longrightarrow> mset (visit order n xs) = mset xs"
proof -
  assume ok: "order_ok order"
  then have m: "mset (order n (length xs)) = mset [0..<length xs]"
    unfolding order_ok_def by blast
  from mset_eq_setD [OF this] have "filter (\<lambda>i. i < length xs) (order n (length xs)) = order n (length xs)"
    by (intro filter_True) auto
  then have "mset (visit order n xs) = image_mset (\<lambda>i. xs ! i) (mset (order n (length xs)))"
    unfolding visit_def mset_map by (simp only:)
  also have "\<dots> = mset xs"
    unfolding m mset_map [symmetric] map_nth ..
  finally show ?thesis .
qed

lemma set_visit: "order_ok order \<Longrightarrow> set (visit order n xs) = set xs"
  by (rule mset_eq_setD) (rule mset_visit)

section \<open>Parameters\<close>

definition parse_params :: "stitch_env \<Rightarrow> group \<Rightarrow> pmsg result" where
  "parse_params env grp = (case grp of (key, config, patches) \<Rightarrow>
     (case rc_request_type config of
        None \<Rightarrow> Panic ''nil dereference''
      | Some request_type \<Rightarrow>
          (let msg = new_message request_type;
               args = [AStr (md_full_name (se_pool env (pm_desc msg))), AStr (mf_name (pt_mask (hd patches))),
                       AStr (patch_type_name env (hd patches))]
           in case gk_params key of
                None \<Rightarrow> Ok msg
              | Some (a, params) \<Rightarrow>
                  (case parseMessage (se_lib env) (Some params) msg (gw_type_resolver (se_gateway env)) of
                     Panic p \<Rightarrow> Panic p
                   | Err e \<Rightarrow>
                       Err (Errorf ''could not unmarshal request type %q for relation %q of type %q: %w''
                              (args @ [AErr e]))
                   | Ok m \<Rightarrow>
                       if pm_has m (rc_base_field config) then
                         Err (Errorf ''could not unmarshal request type %q for relation %q of type %q: query params must not include bases field %s''
                                (args @ [AStr (camelCase (fd_name (rc_base_field config)))]))
                       else Ok m))))"

section \<open>One batch\<close>

definition format_env_of :: "stitch_env \<Rightarrow> nat \<Rightarrow> error_patch option \<Rightarrow> format_env" where
  "format_env_of env meta upstream =
     \<lparr>fe_lib = se_lib env, fe_pool = se_pool env, fe_grow = se_grow env,
      fe_deterministic = se_deterministic env, fe_meta = meta, fe_upstream = upstream,
      fe_fallback_catch = se_fallback_catch env, fe_resolver = gw_type_resolver (se_gateway env)\<rparr>"

text \<open>The loop over a batch whose resolver failed: each patch's error is put where it is caught.\<close>

fun deliver_error :: "stitch_env \<Rightarrow> go_error \<Rightarrow> patch list \<Rightarrow> patch list list run" where
  "deliver_error env e [] s = slift (Ok []) s"
| "deliver_error env e (p # ps) s =
     sbind (sdo (append_slice (se_grow env) (pt_path p) (mf_name (pt_mask p)))) (\<lambda>path.
       sread (\<lambda>t.
         case pt_err p of
           None \<Rightarrow> slift (Panic ''nil dereference'')
         | Some ep \<Rightarrow>
             sbind (sdo (\<lambda>u. ((), set_field (ep_target ep) (ep_name ep)
                 (formatError (se_lib env) e (string_join (slice_elems t path) ''.'')
                    (gw_type_resolver (se_gateway env))) u)))
               (\<lambda>_. deliver_error env e ps))) s"

text \<open>
  The loop over a batch and its values. An invalid value is an absent relation. The result is
  what the goroutine appends to \<^verbatim>\<open>patches\<close>.
\<close>

fun deliver_values ::
  "stitch_env \<Rightarrow> field_desc \<Rightarrow> nat \<Rightarrow> (patch \<times> pval option) list \<Rightarrow> patch list list run" where
  "deliver_values env descriptor meta [] s = slift (Ok []) s"
| "deliver_values env descriptor meta ((p, None) # rest) s = deliver_values env descriptor meta rest s"
| "deliver_values env descriptor meta ((p, Some v) # rest) s =
     sbind (sdo (\<lambda>t. new_slice (slice_elems t (pt_path p) @ [mf_name (pt_mask p)]) t)) (\<lambda>path.
       sbind (formatValue (format_env_of env meta (pt_err p)) descriptor v (mf_mask (pt_mask p)) path)
         (\<lambda>(field_val, field_patches).
           sbind (sdo (\<lambda>t. ((), set_field (pt_format_target p) (mf_name (pt_mask p)) field_val t))) (\<lambda>_.
             sbind (deliver_values env descriptor meta rest) (\<lambda>sets.
               slift (Ok (if field_patches = [] then sets else field_patches # sets)))))) s"

text \<open>
  The goroutine of a batch. The metadata of the patches it makes has the resolver's RPC added
  to its operations.
\<close>

definition batch_result :: "stitch_env \<Rightarrow> patch list \<Rightarrow> pval option list result \<Rightarrow> pval option list result" where
  "batch_result env batch r =
     (case r of
        Ok vals \<Rightarrow>
          if length vals \<noteq> length batch then
            Err (new_connect_error CodeInternal
              (Errorf ''resolver for relation %q of type %q returned %d results, expected %d''
                 [AStr (mf_name (pt_mask (hd batch))), AStr (patch_type_name env (hd batch)),
                  AInt (int (length vals)), AInt (int (length batch))]))
          else r
      | _ \<Rightarrow> r)"

definition batch_meta :: "relation_config \<Rightarrow> resolve_meta \<Rightarrow> resolve_meta" where
  "batch_meta config m = m\<lparr>rm_operations := rm_operations m @ [mth_full_name (rc_method config)]\<rparr>"

definition run_batch :: "stitch_env \<Rightarrow> group \<Rightarrow> pmsg \<Rightarrow> patch list list run" where
  "run_batch env grp params s = (case grp of (key, config, batch) \<Rightarrow>
     (case rc_resolver config (st_metas s (gk_meta key)) (map pt_target batch) params s of
        (r, t) \<Rightarrow>
          (case batch_result env batch r of
             Panic p \<Rightarrow> (Panic p, t)
           | Err e \<Rightarrow>
               if pt_err (hd batch) = None then
                 (Err (Errorf ''resolver for relation %q of type %q failed: %w''
                    [AStr (mf_name (pt_mask (hd batch))), AStr (patch_type_name env (hd batch)), AErr e]), t)
               else deliver_error env e batch (snd (new_meta (batch_meta config (st_metas t (gk_meta key))) t))
           | Ok vals \<Rightarrow>
               (case new_meta (batch_meta config (st_metas t (gk_meta key))) t of
                  (meta, u) \<Rightarrow> deliver_values env (rc_descriptor config) meta (zip batch vals) u))))"

fun run_batches :: "stitch_env \<Rightarrow> (group \<times> pmsg) list \<Rightarrow> patch list list run" where
  "run_batches env [] s = slift (Ok []) s"
| "run_batches env ((grp, params) # rest) s =
     sbind (run_batch env grp params) (\<lambda>sets.
       sbind (run_batches env rest) (\<lambda>sets'. slift (Ok (sets @ sets')))) s"

section \<open>Rounds\<close>

text \<open>
  One turn of the loop: \<^const>\<open>None\<close> when there was nothing left to resolve, else the patches
  for the next turn.
\<close>

definition stitch_round :: "stitch_env \<Rightarrow> nat \<Rightarrow> patch list list \<Rightarrow> patch list list option run" where
  "stitch_round env n patches s =
     (case group_patches env s (concat patches) [] of
        Panic p \<Rightarrow> (Panic p, s)
      | Err e \<Rightarrow> (Err e, s)
      | Ok groups \<Rightarrow>
          if groups = [] then (Ok None, s)
          else
            sbind (slift (omap (\<lambda>grp. obind (parse_params env grp) (\<lambda>params. Ok (grp, params)))
                            (visit (se_parse_order env) n groups)))
              (\<lambda>jobs. sbind (run_batches env (visit (se_run_order env) n jobs))
                 (\<lambda>sets. slift (Ok (Some sets)))) s)"

text \<open>How deep the masks of the patches are; every round makes them less deep.\<close>

definition patches_depth :: "patch list list \<Rightarrow> nat" where
  "patches_depth patches =
     (if concat patches = [] then 0 else Suc (max_list (map (\<lambda>p. size (pt_mask p)) (concat patches))))"

lemma sread_eq [simp]: "sread f s = f s s"
  by (simp add: sread_def)

lemma deliver_error_Ok: "deliver_error env e ps s = (Ok sets, t) \<Longrightarrow> sets = []"
  by (induction env e ps s arbitrary: t rule: deliver_error.induct)
    (auto simp: sbind_eq_Ok_iff split: option.splits)

lemma formatValue_patch_size:
  assumes "formatValue env fd v msk path s = (Ok (gv, ps), t)" "p \<in> set ps"
  shows "size (pt_mask p) < size_list size msk"
  using format_makes(4) [of env msk s fd v path] assms
  by (auto simp: makes_def patch_made_def)

lemma deliver_values_size:
  "deliver_values env d meta pvs s = (Ok sets, t) \<Longrightarrow> ps \<in> set sets \<Longrightarrow> q \<in> set ps
    \<Longrightarrow> \<exists>(p, v) \<in> set pvs. size (pt_mask q) < size (pt_mask p)"
proof (induction env d meta pvs s arbitrary: sets t rule: deliver_values.induct)
  case (3 env d meta p v rest s)
  from 3(2) obtain path s1 gv fps s2 s3 sets' where
    path: "sdo (\<lambda>t. new_slice (slice_elems t (pt_path p) @ [mf_name (pt_mask p)]) t) s = (Ok path, s1)"
    and fv: "formatValue (format_env_of env meta (pt_err p)) d v (mf_mask (pt_mask p)) path s1 = (Ok (gv, fps), s2)"
    and rest: "deliver_values env d meta rest s3 = (Ok sets', t)"
    and sets: "sets = (if fps = [] then sets' else fps # sets')"
    by (auto simp: sbind_eq_Ok_iff split: prod.splits)
  show ?case
  proof (cases "ps \<in> set sets'")
    case True
    with 3(1) [OF path fv refl rest] 3(4) show ?thesis by auto
  next
    case False
    with 3(3) sets have "ps = fps" by (auto split: if_splits)
    then have "size (pt_mask q) < size_list size (mf_mask (pt_mask p))"
      using formatValue_patch_size [OF fv] 3(4) by simp
    also have "\<dots> < size (pt_mask p)" by (rule mf_mask_smaller)
    finally show ?thesis by auto
  qed
qed (auto simp: slift_def)

lemma run_batch_size:
  assumes "run_batch env (key, config, batch) params s = (Ok sets, t)" "ps \<in> set sets" "q \<in> set ps"
  shows "\<exists>p \<in> set batch. size (pt_mask q) < size (pt_mask p)"
proof -
  from assms(1,2) obtain vals meta u where "deliver_values env (rc_descriptor config) meta (zip batch vals) u = (Ok sets, t)"
    by (auto simp: run_batch_def dest: deliver_error_Ok split: prod.splits outcome.splits if_splits)
  from deliver_values_size [OF this assms(2,3)] show ?thesis
    by (auto dest: set_zip_leftD)
qed

lemma run_batches_size:
  "run_batches env jobs s = (Ok sets, t) \<Longrightarrow> ps \<in> set sets \<Longrightarrow> q \<in> set ps
    \<Longrightarrow> \<exists>((key, config, batch), params) \<in> set jobs. \<exists>p \<in> set batch. size (pt_mask q) < size (pt_mask p)"
proof (induction env jobs s arbitrary: sets t rule: run_batches.induct)
  case (2 env grp params rest s)
  obtain key config batch where grp: "grp = (key, config, batch)" by (cases grp)
  from 2(2) obtain sets1 s1 sets2 where
    b: "run_batch env grp params s = (Ok sets1, s1)"
    and r: "run_batches env rest s1 = (Ok sets2, t)" and sets: "sets = sets1 @ sets2"
    by (auto simp: sbind_eq_Ok_iff)
  show ?case
  proof (cases "ps \<in> set sets1")
    case True
    with run_batch_size [OF b [unfolded grp]] 2(4) grp show ?thesis by fastforce
  next
    case False
    with 2(3) sets have "ps \<in> set sets2" by simp
    from 2(1) [OF b r this 2(4)] show ?thesis by auto
  qed
qed simp

definition group_members :: "group list \<Rightarrow> patch list" where
  "group_members groups = concat (map (\<lambda>(key, config, ps). ps) groups)"

lemma group_members_simps [simp]:
  "group_members [] = []" "group_members ((k, c, ps) # groups) = ps @ group_members groups"
  by (simp_all add: group_members_def)

lemma add_to_group_members:
  "mset (group_members (add_to_group key config p groups)) = add_mset p (mset (group_members groups))"
  by (induction groups rule: add_to_group.induct) auto

text \<open>Grouping neither loses nor adds a patch.\<close>

lemma group_patches_members:
  "group_patches env s ps groups = Ok groups' \<Longrightarrow>
    mset (group_members groups') = mset ps + mset (group_members groups)"
  by (induction ps arbitrary: groups) (auto simp: add_to_group_members split: option.splits)

lemma group_members_iff: "p \<in> set (group_members groups) \<longleftrightarrow> (\<exists>(key, config, ps) \<in> set groups. p \<in> set ps)"
  by (auto simp: group_members_def)

lemma stitch_round_cases [consumes 1, case_names unknown finished params batches]:
  assumes "stitch_round env n patches s = (r, t)"
  obtains e where "group_patches env s (concat patches) [] = Err e" "r = Err e" "t = s"
  | "group_patches env s (concat patches) [] = Ok []" "r = Ok None" "t = s"
  | groups where "group_patches env s (concat patches) [] = Ok groups" "groups \<noteq> []" "t = s"
      "\<forall>x. r \<noteq> Ok x"
      "\<forall>jobs. omap (\<lambda>grp. obind (parse_params env grp) (\<lambda>params. Ok (grp, params)))
         (visit (se_parse_order env) n groups) \<noteq> Ok jobs"
  | groups jobs r' where "group_patches env s (concat patches) [] = Ok groups" "groups \<noteq> []"
      "omap (\<lambda>grp. obind (parse_params env grp) (\<lambda>params. Ok (grp, params)))
         (visit (se_parse_order env) n groups) = Ok jobs"
      "run_batches env (visit (se_run_order env) n jobs) s = (r', t)"
      "r = obind r' (\<lambda>sets. Ok (Some sets))"
proof -
  have np: "group_patches env s ps gs \<noteq> Panic p" for ps gs p
    by (induction ps arbitrary: gs) (auto split: option.split)
  let ?parse = "\<lambda>groups. omap (\<lambda>grp. obind (parse_params env grp) (\<lambda>params. Ok (grp, params)))
         (visit (se_parse_order env) n groups)"
  show ?thesis
  proof (cases "group_patches env s (concat patches) []")
    case (Ok groups)
    show ?thesis
    proof (cases "groups = []")
      case True
      with assms Ok show ?thesis by (intro that(2)) (simp_all add: stitch_round_def)
    next
      case ne: False
      show ?thesis
      proof (cases "?parse groups")
        case jobs: (Ok jobs)
        obtain r' u where run: "run_batches env (visit (se_run_order env) n jobs) s = (r', u)" by fastforce
        have "stitch_round env n patches s = (obind r' (\<lambda>sets. Ok (Some sets)), u)"
          using Ok ne jobs run by (cases r') (simp_all add: stitch_round_def sbind_def slift_def)
        with assms have "r = obind r' (\<lambda>sets. Ok (Some sets))" "u = t" by simp_all
        with Ok ne jobs run show ?thesis by (intro that(4) [of groups jobs r']) simp_all
      next
        case (Err e)
        with assms Ok ne have "r = Err e" "t = s" by (simp_all add: stitch_round_def)
        with Ok ne Err show ?thesis by (intro that(3) [of groups]) simp_all
      next
        case (Panic p)
        with assms Ok ne have "r = Panic p" "t = s" by (simp_all add: stitch_round_def)
        with Ok ne Panic show ?thesis by (intro that(3) [of groups]) simp_all
      qed
    qed
  next
    case (Err e)
    with assms show ?thesis by (intro that(1) [of e]) (simp_all add: stitch_round_def)
  qed (simp add: np)
qed

lemma omap_fst_in_set:
  assumes "omap (\<lambda>grp. obind (f grp) (\<lambda>y. Ok (grp, y))) xs = Ok jobs"
  shows "map fst jobs = xs"
  using assms by (induction xs arbitrary: jobs) (auto simp: obind_iffs)

lemma stitch_round_depth:
  assumes "stitch_round env n patches s = (Ok (Some sets), t)"
  shows "patches_depth sets < patches_depth patches"
  using assms
proof (cases rule: stitch_round_cases)
  case (batches groups jobs r')
  have jobs: "fst ` set jobs \<subseteq> set groups"
    using omap_fst_in_set [OF batches(3)] set_visit_subset by (metis list.set_map)
  have mem: "mset (group_members groups) = mset (concat patches)"
    using group_patches_members [OF batches(1)] by simp
  have smaller: "\<exists>p \<in> set (concat patches). size (pt_mask q) < size (pt_mask p)"
    if "q \<in> set (concat sets)" for q
  proof -
    from that obtain ps where ps: "ps \<in> set sets" "q \<in> set ps" by auto
    from batches(4,5) have "run_batches env (visit (se_run_order env) n jobs) s = (Ok sets, t)"
      by (cases r') simp_all
    from run_batches_size [OF this ps] obtain key config batch params p
      where j: "((key, config, batch), params) \<in> set jobs" and p: "p \<in> set batch"
        and less: "size (pt_mask q) < size (pt_mask p)"
      using set_visit_subset by fast
    from j jobs have "(key, config, batch) \<in> set groups" by force
    with p have "p \<in> set (group_members groups)" by (auto simp: group_members_iff)
    then have "p \<in> set (concat patches)" using mset_eq_setD [OF mem] by (simp only:)
    with less show ?thesis by blast
  qed
  have ne: "concat patches \<noteq> []"
  proof
    assume "concat patches = []"
    with batches(1,2) show False by simp
  qed
  show ?thesis
  proof (cases "concat sets = []")
    case True
    with ne show ?thesis by (simp add: patches_depth_def)
  next
    case False
    let ?sz = "\<lambda>p. size (pt_mask p)"
    let ?m = "max_list (map ?sz (concat patches))"
    have "?sz q < ?m" if "q \<in> set (concat sets)" for q
    proof -
      from smaller [OF that] obtain p where "p \<in> set (concat patches)" "?sz q < ?sz p" by blast
      moreover from this(1) have "?sz p \<le> ?m" by (intro max_list_ge) auto
      ultimately show ?thesis by simp
    qed
    moreover obtain q where "q \<in> set (concat sets)" using False by (cases "concat sets") auto
    ultimately have "max_list (map ?sz (concat sets)) < ?m"
      by (intro max_list_less) (auto simp del: set_concat intro: order_le_less_trans)
    with False ne show ?thesis by (simp add: patches_depth_def)
  qed
qed auto

text \<open>
  \<^verbatim>\<open>stitch\<close>, from round \<open>n\<close> on. It terminates whatever the backends answer, since a round's
  patches are for the fields of the masks of the patches of the round before.
\<close>

function stitch_from :: "stitch_env \<Rightarrow> nat \<Rightarrow> patch list list \<Rightarrow> unit run" where
  "stitch_from env n patches s =
     (if patches = [] then (Ok (), s)
      else case stitch_round env n patches s of
             (Ok None, t) \<Rightarrow> (Ok (), t)
           | (Ok (Some patches'), t) \<Rightarrow> stitch_from env (Suc n) patches' t
           | (Err e, t) \<Rightarrow> (Err e, t)
           | (Panic p, t) \<Rightarrow> (Panic p, t))"
  by pat_completeness auto

termination
  by (relation "measure (\<lambda>(env, n, patches, s). patches_depth patches)")
    (auto dest!: stitch_round_depth [OF sym])

declare stitch_from.simps [simp del]

definition stitch :: "stitch_env \<Rightarrow> patch list list \<Rightarrow> unit run" where
  "stitch env patches = stitch_from env 0 patches"

text \<open>Delivering an error: every patch must have a place for it.\<close>

lemma deliver_error_outcome:
  "fst (deliver_error env e ps s) =
     (if \<forall>p \<in> set ps. pt_err p \<noteq> None then Ok [] else Panic ''nil dereference'')"
proof (induction ps arbitrary: s)
  case (Cons p ps)
  then show ?case
    by (cases "pt_err p") (simp_all add: sbind_def sdo_def slift_def split: prod.split)
qed (simp add: slift_def)

lemma run_batch_error:
  assumes "rc_resolver config (st_metas s (gk_meta key)) (map pt_target batch) params s = (r, t)"
    "batch_result env batch r = Err e"
  shows "fst (run_batch env (key, config, batch) params s) =
    (if pt_err (hd batch) = None then
       Err (Errorf ''resolver for relation %q of type %q failed: %w''
         [AStr (mf_name (pt_mask (hd batch))), AStr (patch_type_name env (hd batch)), AErr e])
     else if \<forall>p \<in> set batch. pt_err p \<noteq> None then Ok [] else Panic ''nil dereference'')"
  using assms deliver_error_outcome [of env e batch] by (simp add: run_batch_def)

end
