(* ===== verification/Knit_Handler.thy ===== *)
theory Knit_Handler
  imports Knit_Stitcher
begin

text \<open>
  \<^verbatim>\<open>handler.go\<close>: the Knit RPCs. \<open>Fetch\<close> and \<open>Do\<close> validate all requests, parse their bodies,
  call the methods (a goroutine each), format and stitch the responses, and replace the bodies
  of the requests whose errors were caught. \<open>Listen\<close> does so for each message of a server
  stream. \<open>he_call_order\<close> is the order in which the goroutines of the calls run.
\<close>

section \<open>Headers\<close>

definition forbiddenHeaders :: "string list" where
  "forbiddenHeaders = [''accept'', ''connect'', ''connection'', ''expect'', ''host'', ''http2-settings'',
     ''keep-alive'', ''origin'', ''proxy-connection'', ''te'', ''trailer'', ''transfer-encoding'',
     ''upgrade'', ''user-agent'']"

definition forbidden_header :: "string \<Rightarrow> bool" where
  "forbidden_header header_name =
     (let lower_name = ascii_lower_string header_name
      in lower_name \<in> set forbiddenHeaders
         \<or> has_prefix lower_name '':'' \<or> has_prefix lower_name ''accept-''
         \<or> has_prefix lower_name ''connect-'' \<or> has_prefix lower_name ''content-''
         \<or> has_prefix lower_name ''grpc-'' \<or> has_prefix lower_name ''if-'')"

definition header_vals :: "header \<Rightarrow> string \<Rightarrow> string list" where
  "header_vals hdr name = (case map_of hdr name of Some vs \<Rightarrow> vs | None \<Rightarrow> [])"

fun propagateHeaders :: "header \<Rightarrow> header \<Rightarrow> header" where
  "propagateHeaders [] dest = dest"
| "propagateHeaders ((header_name, vals) # rest) dest =
     (if length (header_vals dest header_name) > 0 then propagateHeaders rest dest
      else if forbidden_header header_name then propagateHeaders rest dest
      else propagateHeaders rest (AList.update header_name vals dest))"

definition toMethodName :: "string \<Rightarrow> string" where
  "toMethodName procedure_name = replace_all_char (trim_left (CHR ''/'') procedure_name) (CHR ''/'') (CHR ''.'')"

section \<open>Fetch and Do\<close>

type_synonym stream_network = "rpc list \<Rightarrow> rpc \<Rightarrow> go_error + deferred_message list \<times> go_error option"

record handler_env =
  he_stitch :: stitch_env
  he_net :: network
  he_stream :: stream_network
  he_call_order :: "nat \<Rightarrow> nat list"
  he_headers :: header
  he_procedure :: string
  he_send :: "nat \<Rightarrow> go_error option"

definition he_lib :: "handler_env \<Rightarrow> protolib" where "he_lib env = se_lib (he_stitch env)"
definition he_pool :: "handler_env \<Rightarrow> desc_pool" where "he_pool env = se_pool (he_stitch env)"
definition he_gateway :: "handler_env \<Rightarrow> gateway" where "he_gateway env = se_gateway (he_stitch env)"

text \<open>The message a request's body is parsed into.\<close>

definition parse_body :: "handler_env \<Rightarrow> request \<Rightarrow> method_config \<Rightarrow> pmsg result" where
  "parse_body env req conf =
     (let msg = new_message (dynamic_message_type (mth_input (mc_descriptor conf)))
      in case parseMessage (he_lib env) (rq_body req) msg (mc_type_resolver conf) of
           Ok m \<Rightarrow> Ok m
         | Panic p \<Rightarrow> Panic p
         | Err e \<Rightarrow> Err (Errorf ''could not unmarshal request type %q for method %q: %w''
             [AStr (md_full_name (he_pool env (pm_desc msg))),
              AStr (mth_full_name (mc_descriptor conf)), AErr e]))"

definition catches :: "bool \<Rightarrow> request \<Rightarrow> bool" where
  "catches fallback_catch req =
     (case rq_on_error req of Catch \<Rightarrow> True | Throw \<Rightarrow> False | NoOnError \<Rightarrow> fallback_catch)"

text \<open>The outbound RPC of a request.\<close>

definition outbound_rpc :: "handler_env \<Rightarrow> method_config \<Rightarrow> pmsg \<Rightarrow> rpc" where
  "outbound_rpc env conf msg =
     \<lparr>rpc_client = mc_client conf, rpc_headers = propagateHeaders (he_headers env) [], rpc_message = msg\<rparr>"

definition call_operations :: "handler_env \<Rightarrow> method_config \<Rightarrow> string list" where
  "call_operations env conf =
     [toMethodName (he_procedure env),
      toMethodName (pl_procedure (he_lib env) (cc_url (mc_client conf)))]"

text \<open>
  The goroutine of one request: its response, the error patch for the whole response, and the
  patches left for the stitcher. The headers of the metadata are filled in only when there
  are patches; nothing reads them before.
\<close>

definition call_method ::
  "handler_env \<Rightarrow> bool \<Rightarrow> request \<times> method_config \<times> schema \<times> pmsg
   \<Rightarrow> (response \<times> error_patch option \<times> patch list) run" where
  "call_method env fallback_catch job s =
     (case job of (req, conf, sc, msg) \<Rightarrow>
        (let method_name = mth_full_name (mc_descriptor conf);
             lib = he_lib env;
             catch = catches fallback_catch req;
             out = outbound_rpc env conf msg;
             t = log_rpc out s
         in case he_net env (st_rpcs s) out of
              Inl e \<Rightarrow>
                if \<not> catch then
                  (Err (Errorf ''failed to invoke method %q: %w'' [AStr method_name, AErr e]), t)
                else
                  (Ok (\<lparr>rs_method = rq_method req,
                        rs_body = formatError lib e method_name (mc_type_resolver conf),
                        rs_schema = Some sc\<rparr>, None, []), t)
            | Inr dm \<Rightarrow>
                (case deferred_unmarshal lib dm (new_message (mc_response_type conf)) of
                   Panic p \<Rightarrow> (Panic p, t)
                 | Err e \<Rightarrow>
                     (Err (Errorf ''failed to unmarshal response from method %q: %w''
                        [AStr method_name, AErr e]), t)
                 | Ok response_message \<Rightarrow>
                     (let info = \<lparr>rm_operations = call_operations env conf,
                                  rm_headers = propagateHeaders (he_headers env) []\<rparr>;
                          (meta, t1) = new_meta info t;
                          (target, t2) = (if catch then new_struct t1 else (0, t1));
                          err_patch = (if catch then Some \<lparr>ep_target = target, ep_name = ''error''\<rparr> else None);
                          (path, t3) = new_slice [method_name] t2;
                          fenv = (format_env_of ((he_stitch env)\<lparr>se_fallback_catch := fallback_catch\<rparr>)
                                    meta err_patch)\<lparr>fe_resolver := mc_type_resolver conf\<rparr>
                      in case formatMessage fenv response_message (rq_mask req) path t3 of
                           (Panic p, u) \<Rightarrow> (Panic p, u)
                         | (Err e, u) \<Rightarrow>
                             (Err (Errorf ''failed to format response from method %q: %w''
                                [AStr method_name, AErr e]), u)
                         | (Ok (body, patches), u) \<Rightarrow>
                             (Ok (\<lparr>rs_method = rq_method req, rs_body = body, rs_schema = Some sc\<rparr>,
                                  err_patch, patches), u)))))"

text \<open>The goroutines of all requests, in the order they run; \<open>results\<close> are the slots filled so far.\<close>

fun call_methods ::
  "handler_env \<Rightarrow> bool \<Rightarrow> (nat \<times> request \<times> method_config \<times> schema \<times> pmsg) list
   \<Rightarrow> (nat \<times> response \<times> error_patch option \<times> patch list) list run" where
  "call_methods env fallback_catch [] s = slift (Ok []) s"
| "call_methods env fallback_catch ((i, job) # jobs) s =
     sbind (call_method env fallback_catch job) (\<lambda>r.
       sbind (call_methods env fallback_catch jobs) (\<lambda>rs. slift (Ok ((i, r) # rs)))) s"

text \<open>The body of a response after stitching: the caught error, if there is one.\<close>

definition final_body :: "store \<Rightarrow> response \<Rightarrow> error_patch option \<Rightarrow> response" where
  "final_body s resp ep =
     (case ep of
        None \<Rightarrow> resp
      | Some e \<Rightarrow>
          (case st_structs s (ep_target e) (ep_name e) of
             None \<Rightarrow> resp | Some err_body \<Rightarrow> resp\<lparr>rs_body := err_body\<rparr>))"

definition handler_do :: "handler_env \<Rightarrow> request list \<Rightarrow> bool \<Rightarrow> response list run" where
  "handler_do env requests for_fetch =
     sbind (slift (computeResponseSchemas (he_lib env) (he_pool env) (he_gateway env) requests for_fetch
              RpcKindUnary)) (\<lambda>(confs, schemas).
       sbind (slift (omap (\<lambda>(req, conf). parse_body env req conf) (zip requests confs))) (\<lambda>msgs.
         let fallback_catch = (\<not> for_fetch);
             jobs = zip requests (zip confs (zip schemas msgs));
             order = filter (\<lambda>i. i < length jobs) (he_call_order env (length jobs))
         in sbind (call_methods env fallback_catch (map (\<lambda>i. (i, jobs ! i)) order)) (\<lambda>results.
              let slots = map (\<lambda>i. the (map_of results i)) [0..<length jobs]
              in sbind (stitch ((he_stitch env)\<lparr>se_fallback_catch := fallback_catch\<rparr>)
                          (map (\<lambda>(resp, ep, patches). patches) slots)) (\<lambda>_.
                   sread (\<lambda>s. slift (Ok (map (\<lambda>(resp, ep, patches). final_body s resp ep) slots)))))))"

definition Fetch :: "handler_env \<Rightarrow> request list \<Rightarrow> response list run" where
  "Fetch env requests = handler_do env requests True"

definition Do_rpc :: "handler_env \<Rightarrow> request list \<Rightarrow> response list run" where
  "Do_rpc env requests = handler_do env requests False"

section \<open>Listen\<close>

text \<open>
  The loop over the messages of the outbound stream. \<open>response_message\<close> is the one message
  object that every message is unmarshalled into; \<open>n\<close> counts the messages sent before, and
  the schema is still there while it is to be sent. The list of the result holds the
  responses sent, also when the loop ends with an error.
\<close>

fun listen_loop ::
  "handler_env \<Rightarrow> request \<Rightarrow> method_config \<Rightarrow> nat \<Rightarrow> error_patch option \<Rightarrow> go_error option
   \<Rightarrow> nat \<Rightarrow> schema option \<Rightarrow> pmsg \<Rightarrow> deferred_message list \<Rightarrow> store
   \<Rightarrow> response list \<times> unit result \<times> store" where
  "listen_loop env req conf meta err_patch stream_err n sc response_message [] s =
     (case stream_err of
        Some e \<Rightarrow> ([], Err (Errorf ''received error from method %q: %w''
                    [AStr (mth_full_name (mc_descriptor conf)), AErr e]), s)
      | None \<Rightarrow> ([], Ok (), s))"
| "listen_loop env req conf meta err_patch stream_err n sc response_message (dm # dms) s =
     (let method_name = mth_full_name (mc_descriptor conf);
          senv = (he_stitch env)\<lparr>se_fallback_catch := False\<rparr>
      in case deferred_unmarshal (he_lib env) dm response_message of
           Panic p \<Rightarrow> ([], Panic p, s)
         | Err e \<Rightarrow> ([], Err (Errorf ''failed to unmarshal response from method %q: %w''
             [AStr method_name, AErr e]), s)
         | Ok message \<Rightarrow>
             (let (path, s1) = new_slice [method_name] s;
                  fenv = (format_env_of senv meta err_patch)\<lparr>fe_resolver := mc_type_resolver conf\<rparr>
              in case formatMessage fenv message (rq_mask req) path s1 of
                   (Panic p, s2) \<Rightarrow> ([], Panic p, s2)
                 | (Err e, s2) \<Rightarrow> ([], Err (Errorf ''failed to format response from method %q: %w''
                     [AStr method_name, AErr e]), s2)
                 | (Ok (body, patches), s2) \<Rightarrow>
                     (case stitch senv [patches] s2 of
                        (Panic p, s3) \<Rightarrow> ([], Panic p, s3)
                      | (Err e, s3) \<Rightarrow> ([], Err (Errorf ''failed to add relations to response from method %q: %w''
                          [AStr method_name, AErr e]), s3)
                      | (Ok _, s3) \<Rightarrow>
                          (let resp = final_body s3
                                 \<lparr>rs_method = rq_method req, rs_body = body, rs_schema = sc\<rparr> err_patch
                           in case he_send env n of
                                Some e \<Rightarrow> ([], Err e, s3)
                              | None \<Rightarrow>
                                  (case listen_loop env req conf meta err_patch stream_err (Suc n) None
                                          message dms s3 of
                                     (sent, r, s4) \<Rightarrow> (resp # sent, r, s4))))))"

definition Listen :: "handler_env \<Rightarrow> request \<Rightarrow> store \<Rightarrow> response list \<times> unit result \<times> store" where
  "Listen env req s =
     (case computeResponseSchema (he_lib env) (he_pool env) (he_gateway env) req False RpcKindServerStream of
        Panic p \<Rightarrow> ([], Panic p, s)
      | Err e \<Rightarrow> ([], Err e, s)
      | Ok (conf, sc) \<Rightarrow>
          (case parse_body env req conf of
             Panic p \<Rightarrow> ([], Panic p, s)
           | Err e \<Rightarrow> ([], Err e, s)
           | Ok msg \<Rightarrow>
               (let out = outbound_rpc env conf msg;
                    t = log_rpc out s
                in case he_stream env (st_rpcs s) out of
                     Inl e \<Rightarrow> ([], Err (Errorf ''failed to invoke method %q: %w''
                       [AStr (mth_full_name (mc_descriptor conf)), AErr e]), t)
                   | Inr (dms, stream_err) \<Rightarrow>
                       (let info = \<lparr>rm_operations = call_operations env conf,
                                    rm_headers = propagateHeaders (he_headers env) []\<rparr>;
                            (meta, t1) = new_meta info t;
                            (target, t2) = (if rq_on_error req = Catch then new_struct t1 else (0, t1));
                            err_patch = (if rq_on_error req = Catch
                              then Some \<lparr>ep_target = target, ep_name = ''error''\<rparr> else None)
                        in listen_loop env req conf meta err_patch stream_err 0 (Some sc)
                             (new_message (mc_response_type conf)) dms t2))))"

section \<open>What is forwarded\<close>

lemma propagateHeaders_lookup:
  "distinct (map fst src) \<Longrightarrow> map_of (propagateHeaders src dest) k =
     (if header_vals dest k = [] \<and> \<not> forbidden_header k
      then (case map_of src k of Some vs \<Rightarrow> Some vs | None \<Rightarrow> map_of dest k) else map_of dest k)"
proof (induction src dest rule: propagateHeaders.induct)
  case (2 name vals rest dest)
  then have "map_of rest name = None" by (auto simp: map_of_eq_None_iff)
  with 2 show ?case by (auto simp: header_vals_def split: option.splits if_splits)
qed (auto split: option.split)

section \<open>The messages of a stream\<close>

text \<open>One turn of the loop: it stops, or sends a response and goes on.\<close>

lemma listen_loop_Cons:
  assumes "listen_loop env req conf meta ep se n sc m (dm # dms) s = (sent, r, t)"
  obtains (stop) "sent = []" "r \<noteq> Ok ()"
  | (sent) message path s1 body patches s2 s3 sent' where
      "deferred_unmarshal (he_lib env) dm m = Ok message"
      "new_slice [mth_full_name (mc_descriptor conf)] s = (path, s1)"
      "formatMessage ((format_env_of ((he_stitch env)\<lparr>se_fallback_catch := False\<rparr>) meta ep)
         \<lparr>fe_resolver := mc_type_resolver conf\<rparr>) message (rq_mask req) path s1 = (Ok (body, patches), s2)"
      "stitch ((he_stitch env)\<lparr>se_fallback_catch := False\<rparr>) [patches] s2 = (Ok (), s3)"
      "sent = final_body s3 \<lparr>rs_method = rq_method req, rs_body = body, rs_schema = sc\<rparr> ep # sent'"
      "listen_loop env req conf meta ep se (Suc n) None message dms s3 = (sent', r, t)"
proof -
  let ?senv = "(he_stitch env)\<lparr>se_fallback_catch := False\<rparr>"
  let ?fenv = "(format_env_of ?senv meta ep)\<lparr>fe_resolver := mc_type_resolver conf\<rparr>"
  obtain path s1 where ns: "new_slice [mth_full_name (mc_descriptor conf)] s = (path, s1)" by fastforce
  show ?thesis
  proof (cases "deferred_unmarshal (he_lib env) dm m")
    case (Ok message)
    obtain fr s2 where fm: "formatMessage ?fenv message (rq_mask req) path s1 = (fr, s2)" by fastforce
    show ?thesis
    proof (cases fr)
      case fr: (Ok bp)
      obtain body patches where bp: "bp = (body, patches)" by fastforce
      obtain sr s3 where st: "stitch ?senv [patches] s2 = (sr, s3)" by fastforce
      show ?thesis
      proof (cases sr)
        case sr: (Ok u)
        obtain sent' r' t' where rest:
          "listen_loop env req conf meta ep se (Suc n) None message dms s3 = (sent', r', t')"
          using prod_cases3 by blast
        show ?thesis
        proof (cases "he_send env n")
          case None
          with assms Ok ns fm fr bp st sr rest
          have "sent = final_body s3 \<lparr>rs_method = rq_method req, rs_body = body, rs_schema = sc\<rparr> ep # sent'"
            "r = r'" "t = t'" by (simp_all add: Let_def)
          with Ok ns fm fr bp st sr rest show ?thesis by (intro that(2)) simp_all
        qed (use assms Ok ns fm fr bp st sr in \<open>intro that(1); auto simp: Let_def\<close>)
      qed (use assms Ok ns fm fr bp st in \<open>intro that(1); auto simp: Let_def\<close>)+
    qed (use assms Ok ns fm in \<open>intro that(1); auto simp: Let_def\<close>)+
  qed (use assms ns in \<open>intro that(1); auto simp: Let_def\<close>)+
qed

declare listen_loop.simps(2) [simp del]

lemma final_body_simps [simp]:
  "rs_method (final_body s resp ep) = rs_method resp" "rs_schema (final_body s resp ep) = rs_schema resp"
  by (auto simp: final_body_def split: option.split)

text \<open>A response for each message up to the first failure, the schema only with the first.\<close>

lemma listen_loop_sent:
  "listen_loop env req conf meta ep se n sc m dms s = (sent, r, t) \<Longrightarrow>
     length sent \<le> length dms \<and> (r = Ok () \<longrightarrow> length sent = length dms \<and> se = None)
     \<and> (\<forall>resp \<in> set sent. rs_method resp = rq_method req)
     \<and> (case sent of [] \<Rightarrow> True | resp # rest \<Rightarrow> rs_schema resp = sc \<and> (\<forall>x \<in> set rest. rs_schema x = None))"
proof (induction dms arbitrary: n sc m s sent)
  case (Cons dm dms)
  from Cons.prems show ?case
  proof (cases rule: listen_loop_Cons)
    case (sent message path s1 body patches s2 s3 sent')
    from Cons.IH [OF sent(6)] sent(5) show ?thesis
      by (cases sent') auto
  qed simp
qed (auto split: option.splits)

section \<open>The responses of Fetch and Do\<close>

lemma call_method_response:
  assumes "call_method env fc (req, conf, sc, msg) s = (Ok (resp, ep, ps), t)"
  shows "rs_method resp = rq_method req \<and> rs_schema resp = Some sc"
  using assms
  by (auto simp: call_method_def Let_def new_meta_def new_slice_def
      split: sum.splits if_splits outcome.splits prod.splits)

lemma call_methods_Ok:
  assumes "call_methods env fc jobs s = (Ok rs, t)"
  shows "map fst rs = map fst jobs"
    and "(i, resp, ep, ps) \<in> set rs \<Longrightarrow>
      \<exists>req conf sc msg. (i, req, conf, sc, msg) \<in> set jobs
        \<and> rs_method resp = rq_method req \<and> rs_schema resp = Some sc"
proof -
  have "map fst rs = map fst jobs \<and> (\<forall>(i, resp, ep, ps) \<in> set rs.
      \<exists>req conf sc msg. (i, req, conf, sc, msg) \<in> set jobs
        \<and> rs_method resp = rq_method req \<and> rs_schema resp = Some sc)"
    using assms
  proof (induction env fc jobs s arbitrary: rs t rule: call_methods.induct)
    case (2 env fc i job jobs s)
    obtain req conf sc msg where job: "job = (req, conf, sc, msg)" by (cases job)
    from 2(2) obtain r s1 rs' where r: "call_method env fc job s = (Ok r, s1)"
      and rs': "call_methods env fc jobs s1 = (Ok rs', t)" and rs: "rs = (i, r) # rs'"
      by (auto simp: sbind_eq_Ok_iff)
    obtain resp ep ps where r': "r = (resp, ep, ps)" by (cases r)
    from call_method_response [OF r [unfolded job r']] 2(1) [OF r rs'] show ?case
      by (fastforce simp: rs r' job)
  qed simp
  then show "map fst rs = map fst jobs"
    and "(i, resp, ep, ps) \<in> set rs \<Longrightarrow>
      \<exists>req conf sc msg. (i, req, conf, sc, msg) \<in> set jobs
        \<and> rs_method resp = rq_method req \<and> rs_schema resp = Some sc"
    by blast+
qed

definition call_order_ok :: "handler_env \<Rightarrow> bool" where
  "call_order_ok env \<longleftrightarrow> (\<forall>k. mset (he_call_order env k) = mset [0..<k])"

text \<open>How a request for several methods comes to succeed.\<close>

lemma handler_do_Ok:
  assumes "handler_do env requests for_fetch s = (Ok resps, t)"
  obtains confs scs msgs results t1 t2 where
    "computeResponseSchemas (he_lib env) (he_pool env) (he_gateway env) requests for_fetch RpcKindUnary = Ok (confs, scs)"
    "omap (\<lambda>(req, conf). parse_body env req conf) (zip requests confs) = Ok msgs"
    "call_methods env (\<not> for_fetch) (map (\<lambda>i. (i, zip requests (zip confs (zip scs msgs)) ! i))
       (filter (\<lambda>i. i < length requests) (he_call_order env (length requests)))) s = (Ok results, t1)"
    "stitch ((he_stitch env)\<lparr>se_fallback_catch := \<not> for_fetch\<rparr>)
       (map (\<lambda>i. snd (snd (the (map_of results i)))) [0..<length requests]) t1 = (Ok (), t)"
    "resps = map (\<lambda>i. final_body t (fst (the (map_of results i))) (fst (snd (the (map_of results i)))))
       [0..<length requests]"
proof -
  obtain confs scs where
    c: "computeResponseSchemas (he_lib env) (he_pool env) (he_gateway env) requests for_fetch RpcKindUnary = Ok (confs, scs)"
    using assms by (cases "computeResponseSchemas (he_lib env) (he_pool env) (he_gateway env) requests for_fetch RpcKindUnary")
      (auto simp: handler_do_def)
  then obtain msgs where
    m: "omap (\<lambda>(req, conf). parse_body env req conf) (zip requests confs) = Ok msgs"
    using assms by (cases "omap (\<lambda>(req, conf). parse_body env req conf) (zip requests confs)")
      (auto simp: handler_do_def)
  have l: "length (zip requests (zip confs (zip scs msgs))) = length requests"
    using c omap_length [OF m] by (auto simp: computeResponseSchemas_Ok_iff)
  let ?jobs = "map (\<lambda>i. (i, zip requests (zip confs (zip scs msgs)) ! i))
       (filter (\<lambda>i. i < length requests) (he_call_order env (length requests)))"
  have run: "handler_do env requests for_fetch s =
    sbind (call_methods env (\<not> for_fetch) ?jobs) (\<lambda>results.
      let slots = map (\<lambda>i. the (map_of results i)) [0..<length requests]
      in sbind (stitch ((he_stitch env)\<lparr>se_fallback_catch := \<not> for_fetch\<rparr>)
           (map (\<lambda>(resp, ep, patches). patches) slots)) (\<lambda>_.
             sread (\<lambda>s. slift (Ok (map (\<lambda>(resp, ep, patches). final_body s resp ep) slots))))) s"
    using c m by (simp add: handler_do_def Let_def l del: length_zip)
  from assms [unfolded run sbind_eq_Ok_iff Let_def sread_eq slift_eq] show ?thesis
    by (elim exE conjE) (rule that [OF c m], auto simp: split_beta comp_def)
qed

lemma handler_do_responses:
  assumes "call_order_ok env" "handler_do env requests for_fetch s = (Ok resps, t)"
  shows "length resps = length requests"
    and "\<forall>rq \<in> set requests. request_ok (he_lib env) (he_pool env) (he_gateway env) for_fetch RpcKindUnary rq"
    and "i < length requests \<Longrightarrow> rs_method (resps ! i) = rq_method (requests ! i)
      \<and> rs_schema (resps ! i) = Some (schema_of (he_pool env) (he_gateway env)
          (mth_output (mc_descriptor (the (gw_methods (he_gateway env) (rq_method (requests ! i))))))
          (rq_mask (requests ! i)))"
proof -
  from assms(2) obtain confs scs msgs results t1 where
    c: "computeResponseSchemas (he_lib env) (he_pool env) (he_gateway env) requests for_fetch RpcKindUnary = Ok (confs, scs)"
    and m: "omap (\<lambda>(req, conf). parse_body env req conf) (zip requests confs) = Ok msgs"
    and r: "call_methods env (\<not> for_fetch) (map (\<lambda>i. (i, zip requests (zip confs (zip scs msgs)) ! i))
       (filter (\<lambda>i. i < length requests) (he_call_order env (length requests)))) s = (Ok results, t1)"
    and resps: "resps = map (\<lambda>i. final_body t (fst (the (map_of results i))) (fst (snd (the (map_of results i)))))
       [0..<length requests]"
    by (rule handler_do_Ok)
  show "length resps = length requests" by (simp add: resps)
  show "\<forall>rq \<in> set requests. request_ok (he_lib env) (he_pool env) (he_gateway env) for_fetch RpcKindUnary rq"
    using c by (simp add: computeResponseSchemas_Ok_iff)
  assume i: "i < length requests"
  let ?jobs = "map (\<lambda>i. (i, zip requests (zip confs (zip scs msgs)) ! i))
       (filter (\<lambda>i. i < length requests) (he_call_order env (length requests)))"
  have "i \<in> fst ` set ?jobs"
    using i mset_eq_setD [of "he_call_order env (length requests)" "[0..<length requests]"] assms(1)
    by (force simp: call_order_ok_def)
  then have "i \<in> fst ` set results"
    using call_methods_Ok(1) [OF r] by (metis list.set_map)
  then obtain x where x: "map_of results i = Some x"
    by (cases "map_of results i") (auto simp: map_of_eq_None_iff)
  obtain resp ep ps where x': "x = (resp, ep, ps)" by (cases x)
  from map_of_SomeD [OF x] have "(i, resp, ep, ps) \<in> set results" by (simp only: x')
  from call_methods_Ok(2) [OF r this] obtain req conf sc msg where
    "(i, req, conf, sc, msg) \<in> set ?jobs" and resp: "rs_method resp = rq_method req" "rs_schema resp = Some sc"
    by blast
  then have "zip requests (zip confs (zip scs msgs)) ! i = (req, conf, sc, msg)" by auto
  then have "req = requests ! i" "sc = scs ! i"
    using i c omap_length [OF m] by (auto simp: computeResponseSchemas_Ok_iff)
  with i c resp x x' show "rs_method (resps ! i) = rq_method (requests ! i)
      \<and> rs_schema (resps ! i) = Some (schema_of (he_pool env) (he_gateway env)
          (mth_output (mc_descriptor (the (gw_methods (he_gateway env) (rq_method (requests ! i))))))
          (rq_mask (requests ! i)))"
    by (simp add: resps computeResponseSchemas_Ok_iff)
qed

text \<open>A request that fails validation sends nothing and leaves no trace.\<close>

lemma handler_do_invalid:
  assumes "\<exists>rq \<in> set requests. \<not> request_ok (he_lib env) (he_pool env) (he_gateway env) for_fetch RpcKindUnary rq"
  shows "\<exists>r. handler_do env requests for_fetch s = (r, s) \<and> \<not> is_ok r"
proof (cases "computeResponseSchemas (he_lib env) (he_pool env) (he_gateway env) requests for_fetch RpcKindUnary")
  case (Ok x)
  with assms show ?thesis by (cases x) (auto simp: computeResponseSchemas_Ok_iff)
qed (auto simp: handler_do_def)

end
