(* ===== verification/Knit_Typed.thy ===== *)
theory Knit_Typed
  imports Knit_Handler
begin

text \<open>
  Messages that conform to their descriptors, and what formatting and stitching then
  guarantee: nothing panics, and every patch is for a relation that the gateway knows. The
  hypotheses on the library are what protobuf-go documents of messages it unmarshals.
\<close>

section \<open>Conformance\<close>

fun scalar_typed :: "kind \<Rightarrow> pval \<Rightarrow> bool" where
  "scalar_typed k v =
     (if k = EnumKind then (case v of PEnum n \<Rightarrow> True | _ \<Rightarrow> False)
      else if k \<in> {Int32Kind, Sint32Kind, Sfixed32Kind} then (case v of PInt32 i \<Rightarrow> True | _ \<Rightarrow> False)
      else if k \<in> {Int64Kind, Sint64Kind, Sfixed64Kind} then (case v of PInt64 i \<Rightarrow> True | _ \<Rightarrow> False)
      else if k \<in> {Uint32Kind, Fixed32Kind} then (case v of PUint32 i \<Rightarrow> True | _ \<Rightarrow> False)
      else if k \<in> {Uint64Kind, Fixed64Kind} then (case v of PUint64 i \<Rightarrow> True | _ \<Rightarrow> False)
      else if k \<in> {FloatKind, DoubleKind} then (case v of PFloat f \<Rightarrow> True | _ \<Rightarrow> False)
      else if k = BoolKind then (case v of PBool b \<Rightarrow> True | _ \<Rightarrow> False)
      else if k = StringKind then (case v of PString s \<Rightarrow> True | _ \<Rightarrow> False)
      else if k = BytesKind then (case v of PBytes b \<Rightarrow> True | _ \<Rightarrow> False)
      else False)"

fun key_typed :: "kind \<Rightarrow> map_key \<Rightarrow> bool" where
  "key_typed k key =
     (if k \<in> {Int32Kind, Sint32Kind, Sfixed32Kind, Int64Kind, Sint64Kind, Sfixed64Kind}
      then (case key of KInt i \<Rightarrow> True | _ \<Rightarrow> False)
      else if k \<in> {Uint32Kind, Fixed32Kind, Uint64Kind, Fixed64Kind} then (case key of KUint i \<Rightarrow> True | _ \<Rightarrow> False)
      else if k = BoolKind then (case key of KBool b \<Rightarrow> True | _ \<Rightarrow> False)
      else k = StringKind \<and> (case key of KString s \<Rightarrow> True | _ \<Rightarrow> False))"

lemma pval_sizes:
  "(n, v) \<in> set kvs \<Longrightarrow> size v < size (ProtoMsg d kvs gt)"
  "x \<in> set xs \<Longrightarrow> size x < size (PList xs)"
  "(k, x) \<in> set ms \<Longrightarrow> size x < size (PMap ms)"
proof -
  show "(n, v) \<in> set kvs \<Longrightarrow> size v < size (ProtoMsg d kvs gt)"
    by (induction kvs) auto
  show "x \<in> set xs \<Longrightarrow> size x < size (PList xs)"
    by (induction xs) auto
  show "(k, x) \<in> set ms \<Longrightarrow> size x < size (PMap ms)"
    by (induction ms) auto
qed

function (sequential) typed_msg :: "desc_pool \<Rightarrow> pmsg \<Rightarrow> bool"
  and typed_value :: "desc_pool \<Rightarrow> field_desc \<Rightarrow> pval \<Rightarrow> bool"
  and typed_elem :: "desc_pool \<Rightarrow> field_desc \<Rightarrow> pval \<Rightarrow> bool"
where
  "typed_msg pool (ProtoMsg d kvs gt) =
     (\<forall>(n, v) \<in> set kvs. case field_by_number (md_fields (pool d)) n of
        None \<Rightarrow> False | Some fd \<Rightarrow> typed_value pool fd v)"
| "typed_value pool fd v =
     (case fd_shape fd of
        Singular \<Rightarrow> typed_elem pool fd v
      | Repeated \<Rightarrow> (case v of PList xs \<Rightarrow> (\<forall>x \<in> set xs. typed_elem pool fd x) | _ \<Rightarrow> False)
      | MapOf k w \<Rightarrow> (case v of
            PMap kvs \<Rightarrow> (\<forall>(key, x) \<in> set kvs. key_typed (fd_kind k) key \<and> typed_elem pool w x)
          | _ \<Rightarrow> False))"
| "typed_elem pool fd v =
     (if isMessage (fd_kind fd) then
        (case v of PMsg m \<Rightarrow> pm_desc m = fd_message fd \<and> typed_msg pool m | _ \<Rightarrow> False)
      else scalar_typed (fd_kind fd) v)"
  by pat_completeness auto

termination
  by (relation "measures [\<lambda>x. case x of Inl (_, m) \<Rightarrow> size m | Inr (Inl (_, _, v)) \<Rightarrow> size v
        | Inr (Inr (_, _, v)) \<Rightarrow> size v, \<lambda>x. case x of Inr (Inl _) \<Rightarrow> 1 | _ \<Rightarrow> 0]")
    (auto dest: pval_sizes)

declare typed_msg.simps [simp del] typed_value.simps [simp del] typed_elem.simps [simp del]
  scalar_typed.simps [simp del] key_typed.simps [simp del]

text \<open>
  What protobuf-go documents: field numbers are distinct, \<^verbatim>\<open>Get\<close> answers a conforming default
  (an empty list, map or message, a zero) for a field that is not populated, unmarshalling
  into a conforming message leaves a conforming message of the same type, and a type found
  by its full name is that type.
\<close>

definition library_typed :: "protolib \<Rightarrow> desc_pool \<Rightarrow> bool" where
  "library_typed lib pool \<longleftrightarrow>
     (\<forall>d. distinct (map fd_number (md_fields (pool d))))
     \<and> (\<forall>d. \<forall>fd \<in> set (md_fields (pool d)). typed_value pool fd (pl_default lib fd))
     \<and> (\<forall>bs m m'. typed_msg pool m \<and> pl_unmarshal lib bs m = Inr m'
          \<longrightarrow> typed_msg pool m' \<and> pm_desc m' = pm_desc m)
     \<and> (\<forall>res bs m m'. typed_msg pool m \<and> pl_msg_of_json lib res bs m = Inr m'
          \<longrightarrow> typed_msg pool m' \<and> pm_desc m' = pm_desc m)
     \<and> (\<forall>k bs m m'. typed_msg pool m \<and> pl_custom_unmarshal lib k bs (AnyMsg m) = Inr (AnyMsg m')
          \<longrightarrow> typed_msg pool m' \<and> pm_desc m' = pm_desc m)
     \<and> (\<forall>d mt. pl_find_message lib (md_full_name (pool d)) = Inr mt \<longrightarrow> mt_desc mt = d)"

lemma library_typedD:
  assumes "library_typed lib pool"
  shows "distinct (map fd_number (md_fields (pool d)))"
    and "fd \<in> set (md_fields (pool d)) \<Longrightarrow> typed_value pool fd (pl_default lib fd)"
    and "pl_unmarshal lib bs m = Inr m' \<Longrightarrow> typed_msg pool m \<Longrightarrow> typed_msg pool m' \<and> pm_desc m' = pm_desc m"
    and "pl_msg_of_json lib res bs m = Inr m' \<Longrightarrow> typed_msg pool m \<Longrightarrow> typed_msg pool m' \<and> pm_desc m' = pm_desc m"
    and "pl_custom_unmarshal lib k bs (AnyMsg m) = Inr (AnyMsg m') \<Longrightarrow> typed_msg pool m
      \<Longrightarrow> typed_msg pool m' \<and> pm_desc m' = pm_desc m"
    and "pl_find_message lib (md_full_name (pool d)) = Inr mt \<Longrightarrow> mt_desc mt = d"
  using assms unfolding library_typed_def by blast+

lemma typed_elem_message:
  "isMessage (fd_kind fd) \<Longrightarrow> typed_elem pool fd v \<longleftrightarrow>
     (\<exists>m. v = PMsg m \<and> pm_desc m = fd_message fd \<and> typed_msg pool m)"
  by (cases v) (auto simp: typed_elem.simps)

lemma typed_value_list:
  "fd_shape fd = Repeated \<Longrightarrow> typed_value pool fd v \<longleftrightarrow> (\<exists>xs. v = PList xs \<and> (\<forall>x \<in> set xs. typed_elem pool fd x))"
  by (cases v) (auto simp: typed_value.simps)

lemma typed_value_map:
  "fd_shape fd = MapOf k w \<Longrightarrow> typed_value pool fd v \<longleftrightarrow>
     (\<exists>kvs. v = PMap kvs \<and> (\<forall>(key, x) \<in> set kvs. key_typed (fd_kind k) key \<and> typed_elem pool w x))"
  by (cases v) (auto simp: typed_value.simps)

lemma field_by_number_distinct:
  "distinct (map fd_number fds) \<Longrightarrow> fd \<in> set fds \<Longrightarrow> field_by_number fds (fd_number fd) = Some fd"
  by (induction fds) (auto simp: field_by_number_def)

lemma pm_get_typed:
  assumes "library_typed lib pool" "typed_msg pool m" "fd \<in> set (md_fields (pool (pm_desc m)))"
  shows "typed_value pool fd (pm_get lib m fd)"
proof (cases m)
  case (ProtoMsg d kvs gt)
  have fbn: "field_by_number (md_fields (pool d)) (fd_number fd) = Some fd"
    using library_typedD(1) [OF assms(1)] assms(3) ProtoMsg by (intro field_by_number_distinct) auto
  show ?thesis
  proof (cases "map_of kvs (fd_number fd)")
    case None
    with library_typedD(2) [OF assms(1,3)] ProtoMsg show ?thesis by (simp add: pm_get_def)
  next
    case (Some v)
    from map_of_SomeD [OF this] assms(2) fbn have "typed_value pool fd v"
      by (force simp: ProtoMsg typed_msg.simps split: option.splits)
    with Some ProtoMsg show ?thesis by (simp add: pm_get_def)
  qed
qed

section \<open>Runs that do not panic\<close>

definition ensures :: "'a run \<Rightarrow> store \<Rightarrow> ('a \<Rightarrow> bool) \<Rightarrow> bool" where
  "ensures m s Q \<longleftrightarrow> (case fst (m s) of Ok x \<Rightarrow> Q x | Err e \<Rightarrow> True | Panic p \<Rightarrow> False)"

lemma ensures_bind:
  "ensures m s Q' \<Longrightarrow> (\<And>x t. m s = (Ok x, t) \<Longrightarrow> Q' x \<Longrightarrow> ensures (f x) t Q) \<Longrightarrow> ensures (sbind m f) s Q"
  by (auto simp: ensures_def sbind_def split: prod.splits outcome.splits)

lemma ensures_lift: "(case r of Ok x \<Rightarrow> Q x | Err e \<Rightarrow> True | Panic p \<Rightarrow> False) \<Longrightarrow> ensures (slift r) s Q"
  by (simp add: ensures_def slift_def)

lemma ensures_Ok [simp]: "ensures (slift (Ok x)) s Q \<longleftrightarrow> Q x"
  by (simp add: ensures_def slift_def)

lemma ensures_do: "(\<And>x t. f s = (x, t) \<Longrightarrow> Q x) \<Longrightarrow> ensures (sdo f) s Q"
  by (cases "f s") (simp add: ensures_def sdo_def)

lemma ensures_sread: "ensures (f s) s Q \<Longrightarrow> ensures (sread f) s Q"
  by (simp add: ensures_def)

lemma ensures_split: "(\<And>a b. (a, b) = x \<Longrightarrow> ensures (f a b) s Q) \<Longrightarrow> ensures (case x of (a, b) \<Rightarrow> f a b) s Q"
  by (cases x) simp

lemma ensures_conseq: "ensures m s Q' \<Longrightarrow> (\<And>x. Q' x \<Longrightarrow> Q x) \<Longrightarrow> ensures m s Q"
  by (auto simp: ensures_def split: outcome.splits)

section \<open>Formatting a conforming message\<close>

text \<open>A patch whose relation the gateway knows, for a conforming message.\<close>

definition patch_ok :: "desc_pool \<Rightarrow> gateway \<Rightarrow> patch \<Rightarrow> bool" where
  "patch_ok pool g p \<longleftrightarrow> typed_msg pool (pt_target p)
     \<and> fieldWithCamelCaseName (md_fields (pool (pm_desc (pt_target p)))) (mf_name (pt_mask p)) = None
     \<and> entry_ok pool g (pm_desc (pt_target p)) (pt_mask p)"

text \<open>The mask is valid for the elements of the field.\<close>

definition elem_mask_ok :: "desc_pool \<Rightarrow> gateway \<Rightarrow> field_desc \<Rightarrow> mask_field list \<Rightarrow> bool" where
  "elem_mask_ok pool g fd msk \<longleftrightarrow> (isMessage (fd_kind fd) \<longrightarrow> mask_ok pool g (fd_message fd) msk)"

lemma field_type_elem_mask: "field_type_ok pool g fd f \<Longrightarrow> elem_mask_ok pool g (elem_desc fd) (mf_mask f)"
  by (auto simp: field_type_ok_def elem_mask_ok_def)

lemma as_type_not_Panic [simp]: "as_type lib pool n m \<noteq> Panic p"
  by (auto simp: as_type_def Let_def obind_iffs split: go_type.splits)

lemma format_go_struct_not_Panic [simp]: "format_go_struct lib res g \<noteq> Panic p"
  by (cases g) (auto simp: format_go_struct_def formatAny_def json_value_of_def obind_iffs)

lemma format_scalar_typed: "scalar_typed (fd_kind fd) v \<Longrightarrow> format_scalar lib fd v path \<noteq> Panic p"
  by (cases "fd_kind fd"; cases v; simp add: scalar_typed.simps format_scalar_def Let_def split: option.split)

lemma formatMapKeyValue_typed: "key_typed k key \<Longrightarrow> formatMapKeyValue lib k key path \<noteq> Panic p"
  by (auto simp: key_typed.simps formatMapKeyValue_def split: map_key.splits if_splits)

abbreviation all_ok :: "format_env \<Rightarrow> gateway \<Rightarrow> 'a \<times> patch list \<Rightarrow> bool" where
  "all_ok env g x \<equiv> \<forall>p \<in> set (snd x). patch_ok (fe_pool env) g p"

lemma ensures_outcome:
  "(\<And>p. r \<noteq> Panic p) \<Longrightarrow> (\<And>x. r = Ok x \<Longrightarrow> Q x) \<Longrightarrow> ensures (slift r) s Q"
  by (rule ensures_lift) (simp split: outcome.split)

lemma format_ensures:
  shows "library_typed (fe_lib env) (fe_pool env) \<Longrightarrow> typed_msg (fe_pool env) msg \<Longrightarrow> mask_ok (fe_pool env) g (pm_desc msg) msk
      \<Longrightarrow> ensures (formatMessage env msg msk path) s (all_ok env g)"
    and "library_typed (fe_lib env) (fe_pool env) \<Longrightarrow> typed_msg (fe_pool env) msg
      \<Longrightarrow> \<forall>f \<in> set msk. entry_ok (fe_pool env) g (pm_desc msg) f
      \<Longrightarrow> ensures (formatNormalMessage env msg msk path) s (all_ok env g)"
    and "library_typed (fe_lib env) (fe_pool env) \<Longrightarrow> typed_msg (fe_pool env) msg
      \<Longrightarrow> \<forall>f \<in> set msk. entry_ok (fe_pool env) g (pm_desc msg) f
      \<Longrightarrow> ensures (format_fields env msg val msk path) s (\<lambda>ps. \<forall>p \<in> set ps. patch_ok (fe_pool env) g p)"
    and "library_typed (fe_lib env) (fe_pool env) \<Longrightarrow> typed_value (fe_pool env) field v
      \<Longrightarrow> elem_mask_ok (fe_pool env) g (elem_desc field) msk
      \<Longrightarrow> ensures (formatValue env field v msk path) s (all_ok env g)"
    and "library_typed (fe_lib env) (fe_pool env) \<Longrightarrow>
      \<forall>(key, x) \<in> set kvs. key_typed kk key \<and> typed_elem (fe_pool env) field x
      \<Longrightarrow> elem_mask_ok (fe_pool env) g field msk
      \<Longrightarrow> ensures (format_entries env kk field kvs msk path) s (\<lambda>x. \<forall>p \<in> snd ` set (snd x). patch_ok (fe_pool env) g p)"
    and "library_typed (fe_lib env) (fe_pool env) \<Longrightarrow> \<forall>x \<in> set vals. typed_elem (fe_pool env) field x
      \<Longrightarrow> elem_mask_ok (fe_pool env) g field msk
      \<Longrightarrow> ensures (format_elements env field vals msk path) s (all_ok env g)"
    and "library_typed (fe_lib env) (fe_pool env) \<Longrightarrow> typed_elem (fe_pool env) field v
      \<Longrightarrow> elem_mask_ok (fe_pool env) g field msk
      \<Longrightarrow> ensures (formatSingularValue env field v msk path) s (all_ok env g)"
proof (induction env msg msk path s and env msg msk path s and env msg val msk path s
    and env field v msk path s and env kk field kvs msk path s and env field vals msk path s
    and env field v msk path s
    rule: formatMessage_formatNormalMessage_format_fields_formatValue_format_entries_format_elements_formatSingularValue.induct)
  case (1 env msg msk path s)
  show ?case
  proof (cases "md_full_name (fe_pool env (pm_desc msg)) \<in> set wellKnownTypes")
    case True
    then show ?thesis
      by (auto simp: format_runs(1) Let_def obind_iffs intro!: ensures_outcome)
  next
    case False
    with 1 show ?thesis by (simp add: format_runs(1) mask_ok.simps)
  qed
next
  case (2 env msg msk path s)
  show ?case
    unfolding format_runs(2)
    apply (rule ensures_bind [where Q' = "\<lambda>_. True"], rule ensures_do, simp)
    apply (rule ensures_bind [OF 2(1)])
    apply (assumption | rule 2 | simp)+
    done
next
  case (3 env msg val path s)
  then show ?case by (simp add: format_runs)
next
  case (4 env msg val f rest path s)
  let ?pool = "fe_pool env"
  let ?Q = "\<lambda>ps. \<forall>p \<in> set ps. patch_ok ?pool g p"
  have rest: "\<forall>f \<in> set rest. entry_ok ?pool g (pm_desc msg) f" and ok: "entry_ok ?pool g (pm_desc msg) f"
    using 4(7) by simp_all
  show ?case
  proof (cases "fieldWithCamelCaseName (md_fields (?pool (pm_desc msg))) (mf_name f)")
    case None
    have "patch_ok ?pool g (relation_patch env msg val path f)"
      using 4(6) None ok by (simp add: patch_ok_def relation_patch_def)
    then show ?thesis
      unfolding format_runs(4) None option.case
      by (intro ensures_bind [OF 4(1) [OF None 4(5) 4(6) rest]]) simp
  next
    case (Some field)
    show ?thesis
    proof (cases "fd_presence field \<and> \<not> pm_has msg field")
      case True
      with Some 4(2) [OF Some True 4(5) 4(6) rest] show ?thesis by (simp add: format_runs(4))
    next
      case False
      have "typed_value ?pool field (pm_get (fe_lib env) msg field)"
        using 4(5,6) fieldWithCamelCaseName_in_set [OF Some] by (intro pm_get_typed) auto
      moreover have "elem_mask_ok ?pool g (elem_desc field) (mf_mask f)"
        using ok Some by (auto simp: entry_ok.simps entry_field_def elem_mask_ok_def split: if_splits)
      ultimately show ?thesis
        unfolding format_runs(4) Some option.case if_not_P [OF False]
        apply (intro ensures_bind [where Q' = "\<lambda>_. True" and m = "sdo (append_slice _ _ _)"] ensures_do TrueI)
        apply (rule ensures_bind [OF 4(3) [OF Some False]])
        apply (assumption | rule 4)+
        apply (rule ensures_split)
        apply (rule ensures_bind [where Q' = "\<lambda>_. True"], rule ensures_do, rule TrueI)
        apply (rule ensures_bind [OF 4(4) [OF Some False]])
        apply (assumption | rule 4 rest)+
        apply auto
        done
    qed
  qed
next
  case (5 env field v msk path s)
  show ?case
  proof (cases "fd_shape field")
    case Singular
    with 5 show ?thesis by (simp add: format_runs(5) typed_value.simps elem_desc_def)
  next
    case Repeated
    with 5(5) obtain xs where v: "v = PList xs" "\<forall>x \<in> set xs. typed_elem (fe_pool env) field x"
      by (auto simp: typed_value_list)
    have e: "elem_mask_ok (fe_pool env) g field msk" using 5(6) Repeated by (simp add: elem_desc_def)
    show ?thesis
      unfolding format_runs(5) Repeated field_shape.case
      apply (rule ensures_bind [where Q' = "\<lambda>x. x = xs"])
      apply (simp add: v pv_list_def)
      apply (rule ensures_bind [OF 5(2) [OF Repeated]])
      apply (assumption | rule 5 e | simp add: v)+
      apply (auto intro!: ensures_split)
      done
  next
    case (MapOf k w)
    with 5(5) obtain kvs where v: "v = PMap kvs"
      "\<forall>(key, x) \<in> set kvs. key_typed (fd_kind k) key \<and> typed_elem (fe_pool env) w x"
      by (auto simp: typed_value_map)
    have e: "elem_mask_ok (fe_pool env) g w msk" using 5(6) MapOf by (simp add: elem_desc_def)
    show ?thesis
      unfolding format_runs(5) MapOf field_shape.case
      apply (rule ensures_bind [where Q' = "\<lambda>x. x = kvs"])
      apply (simp add: v pv_map_def)
      apply (rule ensures_bind [OF 5(3) [OF MapOf]])
      apply (assumption | rule 5 e | simp add: v)+
      apply (auto intro!: ensures_split)
      done
  qed
next
  case (6 env kk field msk path s)
  then show ?case by (simp add: format_runs)
next
  case (7 env kk field k v kvs msk path s)
  have v: "key_typed kk k" "typed_elem (fe_pool env) field v"
    and kvs: "\<forall>(key, x) \<in> set kvs. key_typed kk key \<and> typed_elem (fe_pool env) field x"
    using 7(4) by auto
  show ?case
    unfolding format_runs_at(1)
    apply (rule ensures_sread)
    apply (rule ensures_bind [where Q' = "\<lambda>_. True"], rule ensures_outcome)
    apply (rule formatMapKeyValue_typed [OF v(1)])
    apply (rule TrueI)
    apply (rule ensures_bind [OF 7(1)])
    apply (assumption | rule 7 v)+
    apply (rule ensures_split)
    apply (rule ensures_bind [OF 7(2)])
    apply (assumption | rule 7 kvs)+
    apply auto
    done
next
  case (8 env field msk path s)
  then show ?case by (simp add: format_runs)
next
  case (9 env field v vals msk path s)
  then show ?case
    unfolding format_runs(8)
    apply (intro ensures_bind [OF 9(1)])
    apply simp_all
    apply (rule ensures_split)
    apply (rule ensures_bind [OF 9(2)])
    apply (assumption | simp)+
    apply (auto intro!: ensures_outcome)
    done
next
  case (10 env field v msk path s)
  show ?case
  proof (cases "isMessage (fd_kind field)")
    case True
    with 10(3) obtain m where m: "v = PMsg m" "pm_desc m = fd_message field" "typed_msg (fe_pool env) m"
      by (auto simp: typed_elem_message)
    have mk: "mask_ok (fe_pool env) g (pm_desc m) msk" using 10(4) True m by (simp add: elem_mask_ok_def)
    show ?thesis
      unfolding format_runs_at(2) if_P [OF True]
      apply (rule ensures_sread)
      apply (rule ensures_bind [where Q' = "\<lambda>x. x = m"])
      apply (simp add: m pv_message_def)
      apply (rule 10(1) [OF True])
      apply (assumption | rule 10 | simp add: m mk [unfolded m])+
      done
  next
    case False
    with 10(3) have "scalar_typed (fd_kind field) v" by (simp add: typed_elem.simps)
    then show ?thesis
      unfolding format_runs_at(2) if_not_P [OF False]
      by (intro ensures_sread ensures_outcome) (auto simp: obind_iffs dest: format_scalar_typed)
  qed
qed

section \<open>What resolvers return\<close>

lemma typed_new_message [simp]: "typed_msg pool (new_message mt)"
  by (simp add: new_message_def typed_msg.simps)

lemma deferred_unmarshal_typed:
  assumes "library_typed lib pool" "typed_msg pool m" "deferred_unmarshal lib dm m = Ok m'"
  shows "typed_msg pool m' \<and> pm_desc m' = pm_desc m"
proof (cases "dm_codec dm")
  case None
  with assms show ?thesis by (auto simp: deferred_unmarshal_def split: if_splits)
next
  case (Some c)
  with assms(3) obtain a where a: "codec_unmarshal lib c (dm_bytes dm) (AnyMsg m) = Ok a"
    and m': "m' = (case a of AnyMsg m' \<Rightarrow> m' | _ \<Rightarrow> m)"
    by (auto simp: deferred_unmarshal_def obind_iffs)
  show ?thesis
  proof (cases a)
    case (AnyMsg m'')
    with a m' assms(2) show ?thesis
      using library_typedD(3,4,5) [OF assms(1)] by (cases c) (auto simp: obind_iffs)
  qed (use m' assms(2) in auto)
qed

lemma codec_unmarshal_not_Panic [simp]: "codec_unmarshal lib c bs a \<noteq> Panic p"
  by (cases c; cases a) (auto simp: obind_iffs)

lemma deferred_unmarshal_not_Panic [simp]: "deferred_unmarshal lib dm m \<noteq> Panic p"
  by (auto simp: deferred_unmarshal_def obind_iffs split: option.splits)

text \<open>A relation's values conform to its descriptor, one for each base.\<close>

definition values_ok :: "desc_pool \<Rightarrow> field_desc \<Rightarrow> 'a list \<Rightarrow> pval option list \<Rightarrow> bool" where
  "values_ok pool fd bases vals \<longleftrightarrow> length vals = length bases
     \<and> (\<forall>v. Some v \<in> set vals \<longrightarrow> typed_value pool fd v)"

text \<open>The messages in the list that a resolver's response holds, and the values taken out of them.\<close>

definition holds_value :: "protolib \<Rightarrow> desc_pool \<Rightarrow> field_desc \<Rightarrow> pval \<Rightarrow> bool" where
  "holds_value lib pool fd v \<longleftrightarrow> (\<exists>m. v = PMsg m \<and> typed_value pool fd (pm_get lib m fd))"

lemma response_values:
  assumes lib: "library_typed lib pool" and resp: "typed_msg pool resp" "rf \<in> set (md_fields (pool (pm_desc resp)))"
    and rf: "fd_is_list rf" "fd_kind rf = MessageKind" "md_fields (pool (fd_message rf)) = [fd]"
  shows "\<exists>vals. pv_list (pm_get lib resp rf) = Ok vals \<and> (\<forall>v \<in> set vals. holds_value lib pool fd v)"
proof -
  from pm_get_typed [OF lib resp] rf(1) obtain vs where
    vs: "pm_get lib resp rf = PList vs" "\<forall>v \<in> set vs. typed_elem pool rf v"
    by (auto simp: typed_value_list fd_is_list_def split: field_shape.splits)
  have "holds_value lib pool fd v" if "v \<in> set vs" for v
  proof -
    from vs(2) that rf(2) obtain m where "v = PMsg m" "pm_desc m = fd_message rf" "typed_msg pool m"
      by (auto simp: typed_elem_message isMessage_def)
    with pm_get_typed [OF lib, of m fd] rf(3) show ?thesis by (auto simp: holds_value_def)
  qed
  with vs show ?thesis by (auto simp: pv_list_def)
qed

lemma held_values:
  "\<forall>v \<in> set vs. holds_value lib pool fd v
    \<Longrightarrow> \<exists>ws. omap (\<lambda>v. obind (pv_message v) (\<lambda>m. Ok (Some (pm_get lib m fd)))) vs = Ok ws
          \<and> (\<forall>w. Some w \<in> set ws \<longrightarrow> typed_value pool fd w)"
  by (induction vs) (auto simp: pv_message_def holds_value_def)

lemma newRemoteResolver_ensures:
  assumes lib: "library_typed lib pool"
    and cfg: "getRelationConfig lib net pool method name client = Ok cfg"
  shows "ensures (rc_resolver cfg meta bases params) s (values_ok pool (rc_descriptor cfg) bases)"
proof -
  obtain rf where rf: "field_by_number (md_fields (pool (mth_output method))) 1 = Some rf"
    "fd_is_list rf" "fd_kind rf = MessageKind" "md_fields (pool (fd_message rf)) = [rc_descriptor cfg]"
    and res: "rc_resolver cfg = newRemoteResolver lib net pool name (rc_base_field cfg)
            (rc_descriptor cfg) rf (dynamic_message_type (mth_output method)) client"
    using getRelationConfig_Ok_fields(3) [OF cfg] by blast
  let ?new = "new_message (dynamic_message_type (mth_output method))"
  let ?conv = "omap (\<lambda>v. obind (pv_message v) (\<lambda>m. Ok (Some (pm_get lib m (rc_descriptor cfg)))))"
  have vals: "\<exists>vals. pv_list (pm_get lib resp rf) = Ok vals
      \<and> (\<forall>v \<in> set vals. holds_value lib pool (rc_descriptor cfg) v)"
    if "deferred_unmarshal lib dm ?new = Ok resp" for dm resp
    using deferred_unmarshal_typed [OF lib typed_new_message that] field_by_number_Some [OF rf(1)] rf(2-4)
    by (intro response_values [OF lib]) (simp_all add: dynamic_message_type_def)
  obtain r t where run: "rc_resolver cfg meta bases params s = (r, t)" by fastforce
  show ?thesis
  proof (cases r)
    case (Ok ws)
    have l: "length ws = length bases" using newRemoteResolver_length run Ok res by metis
    from run Ok obtain dm resp where d: "deferred_unmarshal lib dm ?new = Ok resp"
      and ws: "\<exists>vs. pv_list (pm_get lib resp rf) = Ok vs \<and> ?conv vs = Ok ws"
      by (auto simp: res newRemoteResolver_def Let_def obind_iffs split: go_type.splits sum.splits outcome.splits if_splits)
    with vals [OF d] held_values have "\<forall>w. Some w \<in> set ws \<longrightarrow> typed_value pool (rc_descriptor cfg) w" by fastforce
    with l run Ok show ?thesis by (simp add: ensures_def values_ok_def)
  next
    case (Err e)
    with run show ?thesis by (simp add: ensures_def)
  next
    case (Panic p)
    from run Panic obtain dm where dm: "\<exists>resp. deferred_unmarshal lib dm ?new = Ok resp \<and>
        (pv_list (pm_get lib resp rf) = Panic p \<or> (\<exists>vs. pv_list (pm_get lib resp rf) = Ok vs \<and> ?conv vs = Panic p))"
      by (auto simp: res newRemoteResolver_def Let_def obind_iffs split: go_type.splits sum.splits outcome.splits if_splits)
    then show ?thesis using vals held_values by fastforce
  qed
qed

section \<open>Stitching conforming messages\<close>

text \<open>
  The environment of a stitcher whose gateway was set up by registration. A patch is \<open>caught\<close>
  when an error of its relation has somewhere to go.
\<close>

definition stitch_env_ok :: "network \<Rightarrow> stitch_env \<Rightarrow> bool" where
  "stitch_env_ok net env \<longleftrightarrow> library_typed (se_lib env) (se_pool env)
     \<and> gateway_ok (se_lib env) net (se_pool env) (se_gateway env)"

definition caught_patch :: "stitch_env \<Rightarrow> patch \<Rightarrow> bool" where
  "caught_patch env p \<longleftrightarrow> patch_ok (se_pool env) (se_gateway env) p \<and> pt_err p \<noteq> None"

lemma patch_config_known:
  assumes "patch_ok (se_pool env) (se_gateway env) p"
  shows "\<exists>cfg. patch_config env p = Some cfg
    \<and> field_type_ok (se_pool env) (se_gateway env) (rc_descriptor cfg) (pt_mask p)"
  using assms
  by (auto simp: patch_ok_def entry_ok.simps entry_field_def patch_config_def patch_type_name_def
      field_type_ok_def split: option.splits if_splits)

lemma patch_key_config: "patch_key env p = patch_key env q \<Longrightarrow> patch_config env p = patch_config env q"
  by (simp add: patch_key_def patch_config_def)

lemma gateway_relation:
  "gateway_ok lib net pool g \<Longrightarrow> lookup_relation g m n = Some cfg \<Longrightarrow>
     (\<exists>client. getRelationConfig lib net pool (rc_method cfg) (rc_name cfg) client = Ok cfg)"
  unfolding gateway_ok_def relation_ok_def by blast

lemma patch_config_made:
  assumes "stitch_env_ok net env" "patch_config env p = Some cfg"
  shows "\<exists>client. getRelationConfig (se_lib env) net (se_pool env) (rc_method cfg) (rc_name cfg) client = Ok cfg"
  using assms gateway_relation unfolding stitch_env_ok_def patch_config_def by blast

text \<open>A group is not empty, its patches satisfy \<open>P\<close>, have its key and are for its relation.\<close>

definition group_ok :: "stitch_env \<Rightarrow> (patch \<Rightarrow> bool) \<Rightarrow> group \<Rightarrow> bool" where
  "group_ok env P grp \<longleftrightarrow> (case grp of (key, cfg, ps) \<Rightarrow>
     ps \<noteq> [] \<and> (\<forall>p \<in> set ps. P p \<and> patch_key env p = key \<and> patch_config env p = Some cfg))"

lemma add_to_group_ok:
  assumes "P p" "patch_config env p = Some cfg" "\<forall>grp \<in> set groups. group_ok env P grp"
  shows "\<forall>grp \<in> set (add_to_group (patch_key env p) cfg p groups). group_ok env P grp"
  using assms(3)
proof (induction groups)
  case Nil
  with assms show ?case by (simp add: group_ok_def)
next
  case (Cons grp groups)
  obtain k c ps where grp: "grp = (k, c, ps)" by (cases grp)
  show ?case
  proof (cases "k = patch_key env p")
    case True
    obtain q where q: "q \<in> set ps" using Cons.prems grp by (cases ps) (auto simp: group_ok_def)
    with Cons.prems grp have "patch_key env q = k" "patch_config env q = Some c" by (auto simp: group_ok_def)
    with patch_key_config [of env q p] True assms(2) have "c = cfg" by simp
    with Cons.prems grp True assms(1,2) show ?thesis by (auto simp: group_ok_def)
  qed (use Cons grp in auto)
qed

lemma group_patches_ok:
  "group_patches env s ps groups = Ok groups' \<Longrightarrow> \<forall>p \<in> set ps. P p
    \<Longrightarrow> \<forall>grp \<in> set groups. group_ok env P grp \<Longrightarrow> \<forall>grp \<in> set groups'. group_ok env P grp"
proof (induction ps arbitrary: groups)
  case (Cons p ps)
  then obtain cfg where cfg: "patch_config env p = Some cfg"
    and rest: "group_patches env s ps (add_to_group (patch_key env p) cfg p groups) = Ok groups'"
    by (auto split: option.splits)
  from Cons.prems(2,3) cfg have "\<forall>grp \<in> set (add_to_group (patch_key env p) cfg p groups). group_ok env P grp"
    by (intro add_to_group_ok) simp_all
  from Cons.IH [OF rest _ this] Cons.prems(2) show ?case by simp
qed simp

text \<open>No patch of a validated mask is for a relation the gateway does not know.\<close>

lemma group_patches_known:
  "\<forall>p \<in> set ps. patch_ok (se_pool env) (se_gateway env) p \<Longrightarrow> \<exists>groups'. group_patches env s ps groups = Ok groups'"
proof (induction ps arbitrary: groups)
  case (Cons p ps)
  from Cons.prems patch_config_known obtain cfg where "patch_config env p = Some cfg" by (metis list.set_intros(1))
  with Cons show ?case by simp
qed simp

lemma parseMessage_not_Panic [simp]: "parseMessage lib v m res \<noteq> Panic p"
  by (auto simp: parseMessage_def obind_iffs split: sum.splits)

lemma parse_params_not_Panic:
  assumes "stitch_env_ok net env" "group_ok env (\<lambda>_. True) grp"
  shows "parse_params env grp \<noteq> Panic p"
proof -
  obtain key cfg ps where grp: "grp = (key, cfg, ps)" by (cases grp)
  with assms(2) have "patch_config env (hd ps) = Some cfg" by (cases ps) (simp_all add: group_ok_def)
  from patch_config_made [OF assms(1) this] have "relation_valid (se_pool env) cfg"
    by (auto dest: getRelationConfig_valid)
  then show ?thesis
    by (auto simp: grp parse_params_def relation_valid_def Let_def
        split: option.splits outcome.splits prod.splits)
qed

lemma deliver_error_ensures:
  "\<forall>p \<in> set ps. pt_err p \<noteq> None \<Longrightarrow> ensures (deliver_error env e ps) s (\<lambda>sets. sets = [])"
proof (induction ps arbitrary: s)
  case (Cons p ps)
  then obtain ep where ep: "pt_err p = Some ep" by auto
  have d: "deliver_error env e (p # ps) = sbind (sdo (append_slice (se_grow env) (pt_path p) (mf_name (pt_mask p))))
     (\<lambda>path. sread (\<lambda>t. sbind (sdo (\<lambda>u. ((), set_field (ep_target ep) (ep_name ep)
           (formatError (se_lib env) e (string_join (slice_elems t path) ''.'')
              (gw_type_resolver (se_gateway env))) u))) (\<lambda>_. deliver_error env e ps)))"
    by (rule ext) (simp add: ep)
  show ?case
    unfolding d using Cons
    by (intro ensures_bind [where Q' = "\<lambda>_. True"] ensures_do ensures_sread TrueI) simp
qed (simp add: ensures_def slift_def)

lemma deliver_values_run:
  "deliver_values env d meta ((p, Some v) # rest) =
     sbind (sdo (\<lambda>t. new_slice (slice_elems t (pt_path p) @ [mf_name (pt_mask p)]) t)) (\<lambda>path.
       sbind (formatValue (format_env_of env meta (pt_err p)) d v (mf_mask (pt_mask p)) path)
         (\<lambda>(field_val, field_patches).
           sbind (sdo (\<lambda>t. ((), set_field (pt_format_target p) (mf_name (pt_mask p)) field_val t))) (\<lambda>_.
             sbind (deliver_values env d meta rest) (\<lambda>sets.
               slift (Ok (if field_patches = [] then sets else field_patches # sets))))))"
  by (rule ext) simp

text \<open>The patches that delivering a caught patch's value leaves are caught again.\<close>

lemma formatValue_caught:
  assumes "stitch_env_ok net env" "typed_value (se_pool env) d v"
    "field_type_ok (se_pool env) (se_gateway env) d (pt_mask p)" "pt_err p \<noteq> None"
  shows "ensures (formatValue (format_env_of env meta (pt_err p)) d v (mf_mask (pt_mask p)) path) s
    (\<lambda>x. \<forall>q \<in> set (snd x). caught_patch env q)"
proof -
  let ?fenv = "format_env_of env meta (pt_err p)"
  have e: "ensures (formatValue ?fenv d v (mf_mask (pt_mask p)) path) s (all_ok ?fenv (se_gateway env))"
    using assms(1,2) field_type_elem_mask [OF assms(3)]
    by (intro format_ensures(4)) (simp_all add: format_env_of_def stitch_env_ok_def)
  have m: "makes ?fenv {} (size_list size (mf_mask (pt_mask p))) {} s
      (formatValue ?fenv d v (mf_mask (pt_mask p)) path) ret_patches"
    by (rule format_makes(4))
  show ?thesis
  proof (cases "formatValue ?fenv d v (mf_mask (pt_mask p)) path s")
    case (Pair r t)
    with m have "\<forall>q \<in> patches_in ret_patches r. patch_made ?fenv {} (size_list size (mf_mask (pt_mask p))) s t q"
      by (simp add: makes_def)
    with e Pair assms(4) show ?thesis
      by (cases r) (auto simp: ensures_def caught_patch_def patch_made_def format_env_of_def ret_patches_def)
  qed
qed

lemma deliver_values_ensures:
  assumes "stitch_env_ok net env"
  shows "\<forall>(p, v) \<in> set pvs. pt_err p \<noteq> None \<and> field_type_ok (se_pool env) (se_gateway env) d (pt_mask p)
      \<and> (\<forall>x. v = Some x \<longrightarrow> typed_value (se_pool env) d x)
    \<Longrightarrow> ensures (deliver_values env d meta pvs) s (\<lambda>sets. \<forall>ps \<in> set sets. \<forall>q \<in> set ps. caught_patch env q)"
proof (induction pvs arbitrary: s)
  case (Cons pv pvs)
  obtain p v where pv: "pv = (p, v)" by (cases pv)
  show ?case
  proof (cases v)
    case None
    have "deliver_values env d meta (pv # pvs) = deliver_values env d meta pvs"
      by (rule ext) (simp add: pv None)
    with Cons show ?thesis by simp
  next
    case (Some x)
    note fv = formatValue_caught [OF assms, where d = d and v = x and p = p]
    show ?thesis
      unfolding pv Some deliver_values_run
      apply (rule ensures_bind [where Q' = "\<lambda>_. True"], rule ensures_do, rule TrueI)
      apply (rule ensures_bind [OF fv])
      using Cons.prems pv Some apply (simp_all)
      apply (rule ensures_split)
      apply (rule ensures_bind [where Q' = "\<lambda>_. True"], rule ensures_do, rule TrueI)
      apply (rule ensures_bind [OF Cons.IH])
      apply auto
      done
  qed
qed (simp add: ensures_def slift_def)

lemma run_batch_ensures:
  assumes env: "stitch_env_ok net env" and grp: "group_ok env (caught_patch env) grp"
  shows "ensures (run_batch env grp params) s (\<lambda>sets. \<forall>ps \<in> set sets. \<forall>q \<in> set ps. caught_patch env q)"
proof -
  obtain key cfg batch where g: "grp = (key, cfg, batch)" by (cases grp)
  have b: "batch \<noteq> []" "\<forall>p \<in> set batch. caught_patch env p \<and> patch_config env p = Some cfg"
    using grp g by (auto simp: group_ok_def)
  have ft: "\<forall>p \<in> set batch. pt_err p \<noteq> None \<and> field_type_ok (se_pool env) (se_gateway env) (rc_descriptor cfg) (pt_mask p)"
    using b(2) patch_config_known by (fastforce simp: caught_patch_def)
  from b patch_config_made [OF env] obtain client where
    "getRelationConfig (se_lib env) net (se_pool env) (rc_method cfg) (rc_name cfg) client = Ok cfg"
    by (metis hd_in_set)
  from newRemoteResolver_ensures [OF _ this] env
  have res: "ensures (rc_resolver cfg (st_metas s (gk_meta key)) (map pt_target batch) params) s
      (values_ok (se_pool env) (rc_descriptor cfg) (map pt_target batch))"
    by (simp add: stitch_env_ok_def)
  obtain r t where rt: "rc_resolver cfg (st_metas s (gk_meta key)) (map pt_target batch) params s = (r, t)"
    by fastforce
  obtain meta u where mu: "new_meta (batch_meta cfg (st_metas t (gk_meta key))) t = (meta, u)" by fastforce
  show ?thesis
  proof (cases r)
    case (Ok vals)
    with res rt have v: "length vals = length batch" "\<forall>x. Some x \<in> set vals \<longrightarrow> typed_value (se_pool env) (rc_descriptor cfg) x"
      by (simp_all add: ensures_def values_ok_def)
    then have run: "run_batch env grp params s = deliver_values env (rc_descriptor cfg) meta (zip batch vals) u"
      using rt mu Ok by (simp add: run_batch_def g batch_result_def)
    have "ensures (deliver_values env (rc_descriptor cfg) meta (zip batch vals)) u
        (\<lambda>sets. \<forall>ps \<in> set sets. \<forall>q \<in> set ps. caught_patch env q)"
      using ft v(2) by (intro deliver_values_ensures [OF env]) (auto dest: set_zip_leftD set_zip_rightD)
    then show ?thesis by (simp add: ensures_def run)
  next
    case (Err e)
    obtain ep where "pt_err (hd batch) = Some ep" using b(1) ft by (meson hd_in_set option.exhaust)
    then have run: "run_batch env grp params s = deliver_error env e batch u"
      using rt mu Err by (simp add: run_batch_def g batch_result_def)
    from deliver_error_ensures [of batch env e u] ft show ?thesis
      by (auto simp: ensures_def run split: outcome.splits)
  next
    case (Panic p)
    with res rt show ?thesis by (simp add: ensures_def)
  qed
qed

lemma run_batches_ensures:
  assumes env: "stitch_env_ok net env"
  shows "\<forall>(grp, params) \<in> set jobs. group_ok env (caught_patch env) grp
    \<Longrightarrow> ensures (run_batches env jobs) s (\<lambda>sets. \<forall>ps \<in> set sets. \<forall>q \<in> set ps. caught_patch env q)"
proof (induction jobs arbitrary: s)
  case (Cons job jobs)
  obtain grp params where job: "job = (grp, params)" by (cases job)
  have run: "run_batches env (job # jobs) = sbind (run_batch env grp params) (\<lambda>sets.
       sbind (run_batches env jobs) (\<lambda>sets'. slift (Ok (sets @ sets'))))"
    by (rule ext) (simp add: job)
  have g: "group_ok env (caught_patch env) grp" using Cons.prems job by simp
  show ?case
    unfolding run
    apply (rule ensures_bind [OF run_batch_ensures [OF env g]])
    apply (rule ensures_bind [OF Cons.IH])
    using Cons.prems apply auto
    done
qed (simp add: ensures_def slift_def)

lemma group_ok_mono: "group_ok env P grp \<Longrightarrow> (\<And>p. P p \<Longrightarrow> Q p) \<Longrightarrow> group_ok env Q grp"
  by (auto simp: group_ok_def)

text \<open>
  A round over caught patches does not panic, and hands caught patches on; it can only fail
  for parameters that do not parse or a value that does not format.
\<close>

lemma stitch_round_ensures:
  assumes env: "stitch_env_ok net env" and ps: "\<forall>p \<in> set (concat patches). caught_patch env p"
  shows "ensures (stitch_round env n patches) s
    (\<lambda>r. case r of None \<Rightarrow> True | Some sets \<Rightarrow> \<forall>p \<in> set (concat sets). caught_patch env p)"
proof (cases "stitch_round env n patches s")
  case (Pair r t)
  have known: "\<exists>groups. group_patches env s (concat patches) [] = Ok groups"
    using group_patches_known [of "concat patches" env s "[]"] ps by (auto simp: caught_patch_def)
  have gok: "\<forall>grp \<in> set groups. group_ok env (caught_patch env) grp"
    if "group_patches env s (concat patches) [] = Ok groups" for groups
    using group_patches_ok [OF that ps] by simp
  from Pair show ?thesis
  proof (cases rule: stitch_round_cases)
    case (params groups)
    have "omap (\<lambda>grp. obind (parse_params env grp) (\<lambda>params. Ok (grp, params)))
        (visit (se_parse_order env) n groups) \<noteq> Panic p" for p
      using gok [OF params(1)] set_visit_subset [of "se_parse_order env" n groups]
        parse_params_not_Panic [OF env] group_ok_mono
      by (intro omap_not_Panic) (fastforce simp: obind_iffs)
    with Pair params show ?thesis
      by (cases "omap (\<lambda>grp. obind (parse_params env grp) (\<lambda>params. Ok (grp, params)))
        (visit (se_parse_order env) n groups)") (auto simp: ensures_def stitch_round_def)
  next
    case (batches groups jobs r')
    have "fst ` set (visit (se_run_order env) n jobs) \<subseteq> set groups"
      using omap_fst_in_set [OF batches(3)] set_visit_subset [of "se_run_order env" n jobs]
        set_visit_subset [of "se_parse_order env" n groups] by (metis (no_types, lifting) image_mono list.set_map order_trans)
    with gok [OF batches(1)]
    have "\<forall>(grp, params) \<in> set (visit (se_run_order env) n jobs). group_ok env (caught_patch env) grp"
      by force
    from run_batches_ensures [OF env this, of s] batches(4,5) Pair show ?thesis
      by (cases r') (auto simp: ensures_def)
  qed (use known Pair in \<open>auto simp: ensures_def\<close>)
qed

text \<open>Stitching caught patches never panics, whatever the backends answer.\<close>

lemma stitch_from_ensures:
  assumes "stitch_env_ok net env"
  shows "\<forall>p \<in> set (concat patches). caught_patch env p \<Longrightarrow> ensures (stitch_from env n patches) s (\<lambda>_. True)"
  using assms
proof (induction env n patches s rule: stitch_from.induct)
  case (1 env n patches s)
  show ?case
  proof (cases "patches = []")
    case False
    note round = stitch_round_ensures [OF 1(3) 1(2), of n s]
    obtain r t where rt: "stitch_round env n patches s = (r, t)" by fastforce
    show ?thesis
    proof (cases r)
      case (Ok x)
      show ?thesis
      proof (cases x)
        case (Some sets)
        with round rt Ok have "\<forall>p \<in> set (concat sets). caught_patch env p" by (simp add: ensures_def)
        from 1(1) [OF False rt [symmetric] Ok Some this 1(3)] rt Ok Some False show ?thesis
          by (simp add: ensures_def stitch_from.simps [of env n])
      qed (use rt Ok False in \<open>simp add: ensures_def stitch_from.simps [of env n]\<close>)
    qed (use round rt False in \<open>simp_all add: ensures_def stitch_from.simps [of env n]\<close>)
  qed (simp add: ensures_def stitch_from.simps)
qed

section \<open>Keys of a map\<close>

lemma key_text_eq_iff:
  "format_int i = format_int j \<longleftrightarrow> i = j" "format_uint u = format_uint v \<longleftrightarrow> u = v"
  by (rule int64_text.enc_eq_iff uint64_text.enc_eq_iff; simp)+

lemma map_key_text_inj:
  assumes "key_typed k key" "key_typed k key'"
    "formatMapKeyValue lib k key path = Ok t" "formatMapKeyValue lib k key' path' = Ok t"
  shows "key = key'"
  using assms
  by (cases key; cases key')
    (simp_all add: key_typed.simps formatMapKeyValue_def key_text_eq_iff format_bool_inj split: if_split_asm,
     (metis key_text_eq_iff format_bool_inj)+)

end
