(* ===== verification/Knit_Body.thy ===== *)
theory Knit_Body
  imports Knit_Typed
begin

text \<open>
  What the values that \<^verbatim>\<open>format.go\<close> builds mean. \<open>entry_shows\<close> and \<open>struct_shows\<close> read a struct
  against the message and the mask it was built from; structs live in the store and are
  completed later by the stitcher, so the reading is relative to a \<open>heap_typing\<close>, which says of
  each struct what it stands for, and to the set of entries still pending. \<open>format_leaves\<close>: a
  run of the formatter extends the typing, leaves every other struct alone, and the entries
  pending afterwards are exactly those of the patches it returns.
\<close>

section \<open>What a formatted value shows\<close>

abbreviation field_named :: "desc_pool \<Rightarrow> pmsg \<Rightarrow> mask_field \<Rightarrow> field_desc option" where
  "field_named pool m f \<equiv> fieldWithCamelCaseName (md_fields (pool (pm_desc m))) (mf_name f)"

abbreviation relation_named :: "desc_pool \<Rightarrow> gateway \<Rightarrow> pmsg \<Rightarrow> mask_field \<Rightarrow> relation_config option" where
  "relation_named pool g m f \<equiv> lookup_relation g (md_full_name (pool (pm_desc m))) (mf_name f)"

abbreviation well_known :: "desc_pool \<Rightarrow> pmsg \<Rightarrow> bool" where
  "well_known pool m \<equiv> md_full_name (pool (pm_desc m)) \<in> set wellKnownTypes"

definition shown :: "pmsg \<Rightarrow> field_desc \<Rightarrow> bool" where
  "shown m fd \<longleftrightarrow> (fd_presence fd \<longrightarrow> pm_has m fd)"

definition is_error_value :: "protolib \<Rightarrow> gvalue \<Rightarrow> bool" where
  "is_error_value lib w \<longleftrightarrow> (\<exists>e path res. w = formatError lib e path res)"

definition rep_elem :: "protolib \<Rightarrow> field_desc \<Rightarrow> (pmsg \<Rightarrow> gvalue \<Rightarrow> bool) \<Rightarrow> pval \<Rightarrow> gvalue \<Rightarrow> bool" where
  "rep_elem lib fd R v w \<longleftrightarrow>
     (if isMessage (fd_kind fd) then \<exists>m. v = PMsg m \<and> R m w else \<exists>path. format_scalar lib fd v path = Ok w)"

definition rep_entry ::
  "protolib \<Rightarrow> kind \<Rightarrow> field_desc \<Rightarrow> (pmsg \<Rightarrow> gvalue \<Rightarrow> bool) \<Rightarrow> map_key \<times> pval \<Rightarrow> string \<times> gvalue \<Rightarrow> bool" where
  "rep_entry lib kk mv R kv e \<longleftrightarrow>
     (\<exists>path. formatMapKeyValue lib kk (fst kv) path = Ok (fst e)) \<and> rep_elem lib mv R (snd kv) (snd e)"

definition rep_value :: "protolib \<Rightarrow> field_desc \<Rightarrow> (pmsg \<Rightarrow> gvalue \<Rightarrow> bool) \<Rightarrow> pval \<Rightarrow> gvalue \<Rightarrow> bool" where
  "rep_value lib fd R v w \<longleftrightarrow>
     (case fd_shape fd of
        MapOf k mv \<Rightarrow> \<exists>kvs es. v = PMap kvs \<and> list_all2 (rep_entry lib (fd_kind k) mv R) kvs es
          \<and> w = VObject (fold (\<lambda>(k, v). AList.update k v) es [])
      | Repeated \<Rightarrow> \<exists>xs ws. v = PList xs \<and> list_all2 (rep_elem lib fd R) xs ws \<and> w = VList ws
      | Singular \<Rightarrow> rep_elem lib fd R v w)"

definition wkt_value :: "protolib \<Rightarrow> desc_pool \<Rightarrow> resolver \<Rightarrow> pmsg \<Rightarrow> gvalue \<Rightarrow> bool" where
  "wkt_value lib pool res m w \<longleftrightarrow>
     (\<exists>gs. as_type lib pool (md_full_name (pool (pm_desc m))) m = Ok gs \<and> format_go_struct lib res gs = Ok w)"

section \<open>What a relation's resolver answered\<close>

definition relation_params :: "protolib \<Rightarrow> gateway \<Rightarrow> relation_config \<Rightarrow> mask_field \<Rightarrow> pmsg result" where
  "relation_params lib g cfg f =
     (case rc_request_type cfg of
        None \<Rightarrow> Panic ''nil dereference''
      | Some rt \<Rightarrow> (case mf_params f of
            None \<Rightarrow> Ok (new_message rt)
          | Some (a, v) \<Rightarrow> parseMessage lib (Some v) (new_message rt) (gw_type_resolver g)))"

definition answered :: "protolib \<Rightarrow> gateway \<Rightarrow> relation_config \<Rightarrow> mask_field \<Rightarrow> pmsg \<Rightarrow> pval option \<Rightarrow> bool" where
  "answered lib g cfg f m v \<longleftrightarrow>
     (\<exists>params meta bases s vals t i. relation_params lib g cfg f = Ok params
        \<and> rc_resolver cfg meta bases params s = (Ok vals, t) \<and> length vals = length bases
        \<and> i < length bases \<and> bases ! i = m \<and> vals ! i = v)"

definition failed :: "protolib \<Rightarrow> gateway \<Rightarrow> relation_config \<Rightarrow> mask_field \<Rightarrow> pmsg \<Rightarrow> bool" where
  "failed lib g cfg f m \<longleftrightarrow>
     (\<exists>params meta bases s e t. relation_params lib g cfg f = Ok params
        \<and> rc_resolver cfg meta bases params s = (Err e, t) \<and> m \<in> set bases)"

section \<open>What a struct shows\<close>

definition entry_shows ::
  "protolib \<Rightarrow> desc_pool \<Rightarrow> gateway \<Rightarrow> (resolver \<Rightarrow> mask_field list \<Rightarrow> pmsg \<Rightarrow> gvalue \<Rightarrow> bool) \<Rightarrow> bool
   \<Rightarrow> resolver \<Rightarrow> pmsg \<Rightarrow> mask_field \<Rightarrow> gvalue option \<Rightarrow> bool" where
  "entry_shows lib pool g R pending res m f x \<longleftrightarrow>
     (case field_named pool m f of
        Some fd \<Rightarrow> (case x of
            None \<Rightarrow> \<not> shown m fd
          | Some w \<Rightarrow> shown m fd \<and> rep_value lib fd (R res (mf_mask f)) (pm_get lib m fd) w)
      | None \<Rightarrow> (case relation_named pool g m f of
            None \<Rightarrow> False
          | Some cfg \<Rightarrow> (case x of
                None \<Rightarrow> pending \<or> answered lib g cfg f m None \<or> failed lib g cfg f m
              | Some w \<Rightarrow> is_error_value lib w
                  \<or> (\<exists>v. answered lib g cfg f m (Some v)
                       \<and> rep_value lib (rc_descriptor cfg) (R (gw_type_resolver g) (mf_mask f)) v w))))"

definition struct_shows ::
  "protolib \<Rightarrow> desc_pool \<Rightarrow> gateway \<Rightarrow> (resolver \<Rightarrow> mask_field list \<Rightarrow> pmsg \<Rightarrow> gvalue \<Rightarrow> bool)
   \<Rightarrow> (mask_field \<Rightarrow> bool) \<Rightarrow> resolver \<Rightarrow> mask_field list \<Rightarrow> pmsg \<Rightarrow> (string \<rightharpoonup> gvalue) \<Rightarrow> bool" where
  "struct_shows lib pool g R pending res msk m c \<longleftrightarrow>
     dom c \<subseteq> mf_name ` set msk
     \<and> (\<forall>f \<in> set msk. entry_shows lib pool g R (pending f) res m f (c (mf_name f)))"

lemma Ok_eq_obind_iff: "Ok y = obind r f \<longleftrightarrow> (\<exists>x. r = Ok x \<and> f x = Ok y)"
  by (cases r) auto

lemma rep_elem_mono: "rep_elem lib fd R v w \<Longrightarrow> (\<And>m w. R m w \<Longrightarrow> R' m w) \<Longrightarrow> rep_elem lib fd R' v w"
  by (auto simp: rep_elem_def split: if_splits)

lemma rep_entry_mono:
  "rep_entry lib kk mv R kv e \<Longrightarrow> (\<And>m w. R m w \<Longrightarrow> R' m w) \<Longrightarrow> rep_entry lib kk mv R' kv e"
  unfolding rep_entry_def by (blast intro: rep_elem_mono)

lemma rep_value_mono:
  assumes "rep_value lib fd R v w" "\<And>m w. R m w \<Longrightarrow> R' m w"
  shows "rep_value lib fd R' v w"
proof -
  have l: "list_all2 (rep_elem lib fd R) xs ws \<Longrightarrow> list_all2 (rep_elem lib fd R') xs ws" for xs ws
    by (erule list_all2_mono) (rule rep_elem_mono [OF _ assms(2)])
  have e: "list_all2 (rep_entry lib kk mv R) kvs es \<Longrightarrow> list_all2 (rep_entry lib kk mv R') kvs es" for kk mv kvs es
    by (erule list_all2_mono) (rule rep_entry_mono [OF _ assms(2)])
  show ?thesis
  proof (cases "fd_shape fd")
    case Singular
    with assms(1) rep_elem_mono [OF _ assms(2)] show ?thesis by (simp add: rep_value_def)
  next
    case Repeated
    with assms(1) l show ?thesis unfolding rep_value_def by auto
  next
    case (MapOf k mv)
    with assms(1) e show ?thesis unfolding rep_value_def by (simp; metis)
  qed
qed

lemma entry_shows_mono:
  assumes "entry_shows lib pool g R p res m f x" "\<And>res msk m w. R res msk m w \<Longrightarrow> R' res msk m w" "p \<Longrightarrow> p'"
  shows "entry_shows lib pool g R' p' res m f x"
  using assms(1,3) rep_value_mono [of lib _ "R res (mf_mask f)" _ _ "R' res (mf_mask f)", OF _ assms(2)]
    rep_value_mono [of lib _ "R (gw_type_resolver g) (mf_mask f)" _ _ "R' (gw_type_resolver g) (mf_mask f)", OF _ assms(2)]
  by (auto simp: entry_shows_def split: option.splits)

lemma struct_shows_mono:
  assumes "struct_shows lib pool g R p res msk m c" "\<And>res msk m w. R res msk m w \<Longrightarrow> R' res msk m w" "\<And>f. p f \<Longrightarrow> p' f"
  shows "struct_shows lib pool g R' p' res msk m c"
  using assms(1) entry_shows_mono [OF _ assms(2) assms(3)] by (auto simp: struct_shows_def)

section \<open>The structs of the store\<close>

datatype heap_object = Formatted resolver pmsg "mask_field list" | ErrorHolder

type_synonym heap_typing = "nat \<rightharpoonup> heap_object"

definition rep_msg ::
  "protolib \<Rightarrow> desc_pool \<Rightarrow> heap_typing \<Rightarrow> resolver \<Rightarrow> mask_field list \<Rightarrow> pmsg \<Rightarrow> gvalue \<Rightarrow> bool" where
  "rep_msg lib pool H res msk m w \<longleftrightarrow>
     (if well_known pool m then wkt_value lib pool res m w
      else \<exists>a. w = VStruct a \<and> H a = Some (Formatted res m msk))"

definition heap_ok ::
  "protolib \<Rightarrow> desc_pool \<Rightarrow> gateway \<Rightarrow> heap_typing \<Rightarrow> (nat \<times> mask_field) set \<Rightarrow> store \<Rightarrow> bool" where
  "heap_ok lib pool g H P s \<longleftrightarrow>
     (\<forall>a. st_next_struct s \<le> a \<longrightarrow> H a = None)
     \<and> (\<forall>a res m msk. H a = Some (Formatted res m msk) \<longrightarrow>
          typed_msg pool m \<and> mask_ok pool g (pm_desc m) msk \<and> \<not> well_known pool m
          \<and> struct_shows lib pool g (rep_msg lib pool H) (\<lambda>f. (a, f) \<in> P) res msk m (st_structs s a))
     \<and> (\<forall>a. H a = Some ErrorHolder \<longrightarrow> (\<forall>w \<in> ran (st_structs s a). is_error_value lib w))"

definition extends :: "store \<Rightarrow> heap_typing \<Rightarrow> heap_typing \<Rightarrow> bool" where
  "extends s H H' \<longleftrightarrow> (\<forall>a < st_next_struct s. H' a = H a)"

lemma extends_refl [simp]: "extends s H H"
  by (simp add: extends_def)

lemma extends_trans:
  "extends s H H' \<Longrightarrow> extends t H' H'' \<Longrightarrow> st_next_struct s \<le> st_next_struct t \<Longrightarrow> extends s H H''"
  by (simp add: extends_def)

abbreviation object_ok where
  "object_ok lib pool g H P s a res m msk \<equiv> typed_msg pool m \<and> mask_ok pool g (pm_desc m) msk \<and> \<not> well_known pool m
     \<and> struct_shows lib pool g (rep_msg lib pool H) (\<lambda>f. (a, f) \<in> P) res msk m (st_structs s a)"

lemma heap_okI:
  assumes "\<And>a. st_next_struct s \<le> a \<Longrightarrow> H a = None"
    "\<And>a res m msk. H a = Some (Formatted res m msk) \<Longrightarrow> object_ok lib pool g H P s a res m msk"
    "\<And>a w. H a = Some ErrorHolder \<Longrightarrow> w \<in> ran (st_structs s a) \<Longrightarrow> is_error_value lib w"
  shows "heap_ok lib pool g H P s"
  unfolding heap_ok_def using assms by (intro conjI allI impI ballI) simp_all

lemma heap_okD:
  assumes "heap_ok lib pool g H P s"
  shows "st_next_struct s \<le> a \<Longrightarrow> H a = None"
    and "H a = Some (Formatted res m msk) \<Longrightarrow> object_ok lib pool g H P s a res m msk"
    and "H a = Some ErrorHolder \<Longrightarrow> w \<in> ran (st_structs s a) \<Longrightarrow> is_error_value lib w"
  using assms by (simp_all add: heap_ok_def)

lemma heap_bound: "heap_ok lib pool g H P s \<Longrightarrow> H a = Some x \<Longrightarrow> a < st_next_struct s"
  using heap_okD(1) [of lib pool g H P s a] by (cases "a < st_next_struct s") auto

lemma extends_Some: "heap_ok lib pool g H P s \<Longrightarrow> extends s H H' \<Longrightarrow> H a = Some x \<Longrightarrow> H' a = Some x"
  using heap_bound [of lib pool g H P s a x] by (simp add: extends_def)

lemma rep_msg_mono:
  "(\<And>a x. H a = Some x \<Longrightarrow> H' a = Some x) \<Longrightarrow> rep_msg lib pool H res msk m w \<Longrightarrow> rep_msg lib pool H' res msk m w"
  by (auto simp: rep_msg_def split: if_splits)

lemma rep_msg_extends:
  "heap_ok lib pool g H P s \<Longrightarrow> extends s H H' \<Longrightarrow> rep_msg lib pool H res msk m w \<Longrightarrow> rep_msg lib pool H' res msk m w"
  by (rule rep_msg_mono [OF extends_Some])

lemma heap_ok_mono:
  assumes h: "heap_ok lib pool g H P s" and PQ: "P \<subseteq> Q"
  shows "heap_ok lib pool g H Q s"
proof (rule heap_okI)
  fix a res m msk assume "H a = Some (Formatted res m msk)"
  with heap_okD(2) [OF h] have "object_ok lib pool g H P s a res m msk" .
  with PQ show "object_ok lib pool g H Q s a res m msk"
    using struct_shows_mono [of lib pool g "rep_msg lib pool H" "\<lambda>f. (a, f) \<in> P" res msk m "st_structs s a"
        "rep_msg lib pool H" "\<lambda>f. (a, f) \<in> Q"] by blast
qed (use heap_okD(1,3) [OF h] in auto)

text \<open>Only the structs that the typing knows matter.\<close>

lemma heap_ok_same:
  assumes "heap_ok lib pool g H P s" "st_next_struct s \<le> st_next_struct t"
    "\<And>a. H a \<noteq> None \<Longrightarrow> st_structs t a = st_structs s a"
  shows "heap_ok lib pool g H P t"
proof (rule heap_okI)
  fix a res m msk assume a: "H a = Some (Formatted res m msk)"
  with heap_okD(2) [OF assms(1) a] assms(3) [of a] show "object_ok lib pool g H P t a res m msk" by simp
qed (use heap_okD(1,3) [OF assms(1)] assms(2,3) in auto)

text \<open>A new struct enters the typing once it is complete.\<close>

lemma heap_ok_add:
  assumes "heap_ok lib pool g H P s" "a < st_next_struct s" "H a = None"
    "case ob of Formatted res m msk \<Rightarrow> object_ok lib pool g H P s a res m msk
      | ErrorHolder \<Rightarrow> \<forall>w \<in> ran (st_structs s a). is_error_value lib w"
  shows "heap_ok lib pool g (H(a \<mapsto> ob)) P s"
proof -
  let ?H = "H(a \<mapsto> ob)"
  have ext: "H x = Some y \<Longrightarrow> ?H x = Some y" for x y using assms(3) by auto
  have mono: "rep_msg lib pool H res msk m w \<Longrightarrow> rep_msg lib pool ?H res msk m w" for res msk m w
    by (rule rep_msg_mono [OF ext])
  have old: "object_ok lib pool g ?H P s x res m msk" if "object_ok lib pool g H P s x res m msk" for x res m msk
    using that struct_shows_mono [of lib pool g "rep_msg lib pool H" "\<lambda>f. (x, f) \<in> P" res msk m "st_structs s x"
        "rep_msg lib pool ?H" "\<lambda>f. (x, f) \<in> P", OF _ mono] by blast
  show ?thesis
  proof (rule heap_okI)
    fix x assume "st_next_struct s \<le> x"
    with heap_okD(1) [OF assms(1)] assms(2) show "?H x = None" by auto
  next
    fix x res m msk assume x: "?H x = Some (Formatted res m msk)"
    show "object_ok lib pool g ?H P s x res m msk"
    proof (cases "x = a")
      case True
      with x assms(4) show ?thesis by (intro old) simp
    next
      case False
      with x show ?thesis by (intro old heap_okD(2) [OF assms(1)]) simp
    qed
  next
    fix x w assume "?H x = Some ErrorHolder" "w \<in> ran (st_structs s x)"
    with heap_okD(3) [OF assms(1), of x w] assms(4) show "is_error_value lib w"
      by (auto split: if_splits)
  qed
qed


section \<open>Patches\<close>

definition patch_rep :: "desc_pool \<Rightarrow> heap_typing \<Rightarrow> patch \<Rightarrow> bool" where
  "patch_rep pool H p \<longleftrightarrow>
     (\<exists>res msk. H (pt_format_target p) = Some (Formatted res (pt_target p) msk)
        \<and> pt_mask p \<in> set msk \<and> field_named pool (pt_target p) (pt_mask p) = None)"

definition err_rep :: "desc_pool \<Rightarrow> heap_typing \<Rightarrow> error_patch \<Rightarrow> bool" where
  "err_rep pool H ep \<longleftrightarrow> H (ep_target ep) = Some ErrorHolder
     \<or> (\<exists>res m msk f. H (ep_target ep) = Some (Formatted res m msk)
          \<and> f \<in> set msk \<and> mf_name f = ep_name ep \<and> field_named pool m f = None)"

definition pend :: "patch set \<Rightarrow> (nat \<times> mask_field) set" where
  "pend ps = (\<lambda>p. (pt_format_target p, pt_mask p)) ` ps"

lemma pend_simps [simp]: "pend {} = {}" "pend (insert p ps) = insert (pt_format_target p, pt_mask p) (pend ps)"
  "pend (A \<union> B) = pend A \<union> pend B"
  by (auto simp: pend_def)

lemma patch_rep_extends:
  "heap_ok lib pool g H P s \<Longrightarrow> extends s H H' \<Longrightarrow> patch_rep pool H p \<Longrightarrow> patch_rep pool H' p"
  using extends_Some [of lib pool g H P s H'] by (auto simp: patch_rep_def)

lemma err_rep_extends:
  "heap_ok lib pool g H P s \<Longrightarrow> extends s H H' \<Longrightarrow> err_rep pool H ep \<Longrightarrow> err_rep pool H' ep"
  using extends_Some [of lib pool g H P s H'] by (auto simp: err_rep_def)

section \<open>Formatting\<close>

text \<open>What a run of the formatter leaves: a typing of the new structs, under which its result is right.\<close>

definition leaves ::
  "format_env \<Rightarrow> gateway \<Rightarrow> heap_typing \<Rightarrow> (nat \<times> mask_field) set \<Rightarrow> store \<Rightarrow> store \<Rightarrow> patch set
   \<Rightarrow> (heap_typing \<Rightarrow> bool) \<Rightarrow> bool" where
  "leaves env g H P s t ps Q \<longleftrightarrow>
     (\<exists>H'. extends s H H' \<and> heap_ok (fe_lib env) (fe_pool env) g H' (P \<union> pend ps) t
        \<and> (\<forall>p \<in> ps. patch_rep (fe_pool env) H' p) \<and> Q H')"

abbreviation represents where
  "represents env H \<equiv> rep_msg (fe_lib env) (fe_pool env) H (fe_resolver env)"

lemma format_next:
  "formatMessage env msg msk path s = (r, t) \<Longrightarrow> st_next_struct s \<le> st_next_struct t"
  "formatValue env fd v msk path s = (r, t) \<Longrightarrow> st_next_struct s \<le> st_next_struct t"
  "formatValue env fd v msk path s = (r, t) \<Longrightarrow> a < st_next_struct s \<Longrightarrow> st_structs t a = st_structs s a"
  "formatSingularValue env fd v msk path s = (r, t) \<Longrightarrow> st_next_struct s \<le> st_next_struct t"
  using format_makes(1) [of env msk s msg path] format_makes(4) [of env msk s fd v path]
    format_makes(7) [of env msk s fd v path]
  by (auto simp: makes_def keeps_def)

lemma append_slice_heap:
  assumes "append_slice grow sl x s = (sl', t)"
  shows "st_next_struct t = st_next_struct s" "st_structs t = st_structs s"
  using append_slice_simps(1,2) [of grow sl x s] assms by simp_all

lemma leavesI:
  "extends s H H' \<Longrightarrow> heap_ok (fe_lib env) (fe_pool env) g H' (P \<union> pend ps) t
    \<Longrightarrow> (\<And>p. p \<in> ps \<Longrightarrow> patch_rep (fe_pool env) H' p) \<Longrightarrow> Q H' \<Longrightarrow> leaves env g H P s t ps Q"
  by (auto simp: leaves_def)

lemma leavesE:
  assumes "leaves env g H P s t ps Q"
  obtains H' where "extends s H H'" "heap_ok (fe_lib env) (fe_pool env) g H' (P \<union> pend ps) t"
    "\<And>p. p \<in> ps \<Longrightarrow> patch_rep (fe_pool env) H' p" "Q H'"
  using assms by (auto simp: leaves_def)

text \<open>Two runs one after the other.\<close>

lemma leaves_trans:
  assumes "leaves env g H P s t ps Q" "st_next_struct s \<le> st_next_struct t"
    "\<And>H'. extends s H H' \<Longrightarrow> heap_ok (fe_lib env) (fe_pool env) g H' (P \<union> pend ps) t \<Longrightarrow> Q H'
      \<Longrightarrow> leaves env g H' (P \<union> pend ps) t u ps' (\<lambda>H''. extends t H' H'' \<longrightarrow> Q' H'')"
  shows "leaves env g H P s u (ps \<union> ps') Q'"
proof -
  obtain H' where H': "extends s H H'" "heap_ok (fe_lib env) (fe_pool env) g H' (P \<union> pend ps) t"
    "\<And>p. p \<in> ps \<Longrightarrow> patch_rep (fe_pool env) H' p" "Q H'"
    using assms(1) by (rule leavesE) blast
  obtain H'' where H'': "extends t H' H''" "heap_ok (fe_lib env) (fe_pool env) g H'' (P \<union> pend ps \<union> pend ps') u"
    "\<And>p. p \<in> ps' \<Longrightarrow> patch_rep (fe_pool env) H'' p" "extends t H' H'' \<longrightarrow> Q' H''"
    using assms(3) [OF H'(1,2,4)] by (rule leavesE) blast
  show ?thesis
  proof (rule leavesI [of s H H''])
    show "extends s H H''" by (rule extends_trans [OF H'(1) H''(1) assms(2)])
    show "heap_ok (fe_lib env) (fe_pool env) g H'' (P \<union> pend (ps \<union> ps')) u"
      using H''(2) by (simp add: Un_assoc)
    show "patch_rep (fe_pool env) H'' p" if "p \<in> ps \<union> ps'" for p
      using that H''(3) patch_rep_extends [OF H'(2) H''(1) H'(3)] by blast
    show "Q' H''" using H''(1,4) by blast
  qed
qed

lemma leaves_lift: "heap_ok (fe_lib env) (fe_pool env) g H P s \<Longrightarrow> Q H \<Longrightarrow> leaves env g H P s s {} Q"
  by (rule leavesI [of s H H]) simp_all

lemma rep_value_extends:
  assumes "heap_ok lib pool g H P s" "extends s H H'" "rep_value lib fd (rep_msg lib pool H res msk) v w"
  shows "rep_value lib fd (rep_msg lib pool H' res msk) v w"
  by (rule rep_value_mono [OF assms(3) rep_msg_extends [OF assms(1,2)]])

lemma rep_elem_extends:
  assumes "heap_ok lib pool g H P s" "extends s H H'" "rep_elem lib fd (rep_msg lib pool H res msk) v w"
  shows "rep_elem lib fd (rep_msg lib pool H' res msk) v w"
  by (rule rep_elem_mono [OF assms(3) rep_msg_extends [OF assms(1,2)]])

text \<open>An element of a list or a map, and the ones behind it.\<close>

lemma leaves_cons:
  assumes x: "leaves env g H P s t ps (\<lambda>H'. rep_elem (fe_lib env) fd (represents env H' msk) x v)"
    and le: "st_next_struct s \<le> st_next_struct t"
    and rest: "\<And>H' P'. heap_ok (fe_lib env) (fe_pool env) g H' P' t
      \<Longrightarrow> leaves env g H' P' t u ps' (\<lambda>H'. list_all2 (R (represents env H' msk)) xs ws)"
    and head: "\<And>H'. rep_elem (fe_lib env) fd (represents env H' msk) x v \<Longrightarrow> R (represents env H' msk) y w"
  shows "leaves env g H P s u (ps \<union> ps') (\<lambda>H'. list_all2 (R (represents env H' msk)) (y # xs) (w # ws))"
proof (rule leaves_trans [OF x le])
  fix H' assume H': "heap_ok (fe_lib env) (fe_pool env) g H' (P \<union> pend ps) t"
    "rep_elem (fe_lib env) fd (represents env H' msk) x v"
  show "leaves env g H' (P \<union> pend ps) t u ps' (\<lambda>H''. extends t H' H'' \<longrightarrow>
      list_all2 (R (represents env H'' msk)) (y # xs) (w # ws))"
    using rest [OF H'(1)] head [OF rep_elem_extends [OF H'(1) _ H'(2)]] by (auto simp: leaves_def)
qed

text \<open>The same for the loop over the mask, which fills a struct that is not yet in the typing.\<close>

definition fields_leave ::
  "format_env \<Rightarrow> gateway \<Rightarrow> heap_typing \<Rightarrow> (nat \<times> mask_field) set \<Rightarrow> store \<Rightarrow> store \<Rightarrow> patch set
   \<Rightarrow> nat \<Rightarrow> pmsg \<Rightarrow> mask_field list \<Rightarrow> bool" where
  "fields_leave env g H P s t ps val msg msk \<longleftrightarrow>
     (\<exists>H'. extends s H H' \<and> heap_ok (fe_lib env) (fe_pool env) g H' (P \<union> pend ps) t
        \<and> (\<forall>n. n \<notin> mf_name ` set msk \<longrightarrow> st_structs t val n = st_structs s val n)
        \<and> (\<forall>f \<in> set msk. entry_shows (fe_lib env) (fe_pool env) g (rep_msg (fe_lib env) (fe_pool env) H')
              ((val, f) \<in> pend ps) (fe_resolver env) msg f (st_structs t val (mf_name f)))
        \<and> (\<forall>p \<in> ps. patch_rep (fe_pool env) H' p
              \<or> (pt_format_target p = val \<and> pt_target p = msg \<and> pt_mask p \<in> set msk
                   \<and> field_named (fe_pool env) msg (pt_mask p) = None)))"

lemma fields_leaveI:
  assumes "extends s H H'" "heap_ok (fe_lib env) (fe_pool env) g H' (P \<union> pend ps) t"
    "\<And>n. n \<notin> mf_name ` set msk \<Longrightarrow> st_structs t val n = st_structs s val n"
    "\<And>f. f \<in> set msk \<Longrightarrow> entry_shows (fe_lib env) (fe_pool env) g (rep_msg (fe_lib env) (fe_pool env) H')
       ((val, f) \<in> pend ps) (fe_resolver env) msg f (st_structs t val (mf_name f))"
    "\<And>p. p \<in> ps \<Longrightarrow> patch_rep (fe_pool env) H' p \<or> (pt_format_target p = val \<and> pt_target p = msg
       \<and> pt_mask p \<in> set msk \<and> field_named (fe_pool env) msg (pt_mask p) = None)"
  shows "fields_leave env g H P s t ps val msg msk"
  using assms unfolding fields_leave_def by blast

lemma fields_leaveE:
  assumes "fields_leave env g H P s t ps val msg msk"
  obtains H' where "extends s H H'" "heap_ok (fe_lib env) (fe_pool env) g H' (P \<union> pend ps) t"
    "\<And>n. n \<notin> mf_name ` set msk \<Longrightarrow> st_structs t val n = st_structs s val n"
    "\<And>f. f \<in> set msk \<Longrightarrow> entry_shows (fe_lib env) (fe_pool env) g (rep_msg (fe_lib env) (fe_pool env) H')
       ((val, f) \<in> pend ps) (fe_resolver env) msg f (st_structs t val (mf_name f))"
    "\<And>p. p \<in> ps \<Longrightarrow> patch_rep (fe_pool env) H' p \<or> (pt_format_target p = val \<and> pt_target p = msg
       \<and> pt_mask p \<in> set msk \<and> field_named (fe_pool env) msg (pt_mask p) = None)"
  using assms unfolding fields_leave_def by blast

text \<open>A relation is left to the stitcher.\<close>

lemma fields_leave_relation:
  assumes run: "fields_leave env g H P s t ps val msg rest"
    and f: "field_named (fe_pool env) msg f = None" "relation_named (fe_pool env) g msg f \<noteq> None"
    and new: "st_structs s val (mf_name f) = None" "mf_name f \<notin> mf_name ` set rest"
  shows "fields_leave env g H P s t (insert (relation_patch env msg val path f) ps) val msg (f # rest)"
proof -
  let ?p = "relation_patch env msg val path f"
  obtain H' where H': "extends s H H'" "heap_ok (fe_lib env) (fe_pool env) g H' (P \<union> pend ps) t"
    "\<And>n. n \<notin> mf_name ` set rest \<Longrightarrow> st_structs t val n = st_structs s val n"
    "\<And>f. f \<in> set rest \<Longrightarrow> entry_shows (fe_lib env) (fe_pool env) g (rep_msg (fe_lib env) (fe_pool env) H')
       ((val, f) \<in> pend ps) (fe_resolver env) msg f (st_structs t val (mf_name f))"
    "\<And>p. p \<in> ps \<Longrightarrow> patch_rep (fe_pool env) H' p \<or> (pt_format_target p = val \<and> pt_target p = msg
       \<and> pt_mask p \<in> set rest \<and> field_named (fe_pool env) msg (pt_mask p) = None)"
    using run by (rule fields_leaveE) blast
  have p: "pt_format_target ?p = val" "pt_target ?p = msg" "pt_mask ?p = f"
    by (simp_all add: relation_patch_def)
  show ?thesis
  proof (rule fields_leaveI [of s H H'])
    show "heap_ok (fe_lib env) (fe_pool env) g H' (P \<union> pend (insert ?p ps)) t"
      by (rule heap_ok_mono [OF H'(2)]) auto
    show "st_structs t val n = st_structs s val n" if "n \<notin> mf_name ` set (f # rest)" for n
      using that H'(3) by simp
    show "entry_shows (fe_lib env) (fe_pool env) g (rep_msg (fe_lib env) (fe_pool env) H')
       ((val, h) \<in> pend (insert ?p ps)) (fe_resolver env) msg h (st_structs t val (mf_name h))"
      if "h \<in> set (f # rest)" for h
    proof (cases "h = f")
      case True
      with f new p H'(3) [OF new(2)] show ?thesis by (auto simp: entry_shows_def)
    next
      case False
      with that have "h \<in> set rest" by simp
      from entry_shows_mono [OF H'(4) [OF this]] show ?thesis by simp
    qed
    show "patch_rep (fe_pool env) H' q \<or> (pt_format_target q = val \<and> pt_target q = msg
       \<and> pt_mask q \<in> set (f # rest) \<and> field_named (fe_pool env) msg (pt_mask q) = None)"
      if "q \<in> insert ?p ps" for q
      using that H'(5) [of q] p f(1) by auto
  qed (rule H'(1))
qed

text \<open>A field that is not shown.\<close>

lemma fields_leave_hidden:
  assumes run: "fields_leave env g H P s t ps val msg rest"
    and f: "field_named (fe_pool env) msg f = Some fd" "\<not> shown msg fd"
    and new: "st_structs s val (mf_name f) = None" "mf_name f \<notin> mf_name ` set rest"
  shows "fields_leave env g H P s t ps val msg (f # rest)"
proof -
  obtain H' where H': "extends s H H'" "heap_ok (fe_lib env) (fe_pool env) g H' (P \<union> pend ps) t"
    "\<And>n. n \<notin> mf_name ` set rest \<Longrightarrow> st_structs t val n = st_structs s val n"
    "\<And>f. f \<in> set rest \<Longrightarrow> entry_shows (fe_lib env) (fe_pool env) g (rep_msg (fe_lib env) (fe_pool env) H')
       ((val, f) \<in> pend ps) (fe_resolver env) msg f (st_structs t val (mf_name f))"
    "\<And>p. p \<in> ps \<Longrightarrow> patch_rep (fe_pool env) H' p \<or> (pt_format_target p = val \<and> pt_target p = msg
       \<and> pt_mask p \<in> set rest \<and> field_named (fe_pool env) msg (pt_mask p) = None)"
    using run by (rule fields_leaveE) blast
  show ?thesis
  proof (rule fields_leaveI [OF H'(1,2)])
    show "entry_shows (fe_lib env) (fe_pool env) g (rep_msg (fe_lib env) (fe_pool env) H')
       ((val, h) \<in> pend ps) (fe_resolver env) msg h (st_structs t val (mf_name h))"
      if "h \<in> set (f # rest)" for h
    proof (cases "h = f")
      case True
      with f new H'(3) [OF new(2)] show ?thesis by (auto simp: entry_shows_def)
    next
      case False
      with that show ?thesis by (intro H'(4)) simp
    qed
  qed (use H'(3,5) in auto)
qed

text \<open>A field that is shown: its value is formatted, then stored.\<close>

lemma fields_leave_shown:
  assumes fv: "leaves env g H P s t ps (\<lambda>H'. rep_value (fe_lib env) fd (represents env H' (mf_mask f)) (pm_get (fe_lib env) msg fd) v)"
    and f: "field_named (fe_pool env) msg f = Some fd" "shown msg fd"
    and val: "val < st_next_struct s" "H val = None" "st_structs t val = st_structs s val" "st_next_struct s \<le> st_next_struct t"
    and heap: "heap_ok (fe_lib env) (fe_pool env) g H P s"
    and new: "mf_name f \<notin> mf_name ` set rest"
    and run: "\<And>H' P'. heap_ok (fe_lib env) (fe_pool env) g H' P' (set_field val (mf_name f) v t) \<Longrightarrow> H' val = None
      \<Longrightarrow> fields_leave env g H' P' (set_field val (mf_name f) v t) u ps' val msg rest"
  shows "fields_leave env g H P s u (ps \<union> ps') val msg (f # rest)"
proof -
  let ?t = "set_field val (mf_name f) v t"
  obtain H1 where H1: "extends s H H1" "heap_ok (fe_lib env) (fe_pool env) g H1 (P \<union> pend ps) t"
    "\<And>p. p \<in> ps \<Longrightarrow> patch_rep (fe_pool env) H1 p"
    "rep_value (fe_lib env) fd (represents env H1 (mf_mask f)) (pm_get (fe_lib env) msg fd) v"
    using fv by (rule leavesE) blast
  have none: "H1 val = None" using H1(1) val(1,2) by (simp add: extends_def)
  have heap1: "heap_ok (fe_lib env) (fe_pool env) g H1 (P \<union> pend ps) ?t"
    by (rule heap_ok_same [OF H1(2)]) (use none in \<open>auto simp: store_simps\<close>)
  obtain H2 where H2: "extends ?t H1 H2" "heap_ok (fe_lib env) (fe_pool env) g H2 (P \<union> pend ps \<union> pend ps') u"
    "\<And>n. n \<notin> mf_name ` set rest \<Longrightarrow> st_structs u val n = st_structs ?t val n"
    "\<And>f. f \<in> set rest \<Longrightarrow> entry_shows (fe_lib env) (fe_pool env) g (rep_msg (fe_lib env) (fe_pool env) H2)
       ((val, f) \<in> pend ps') (fe_resolver env) msg f (st_structs u val (mf_name f))"
    "\<And>p. p \<in> ps' \<Longrightarrow> patch_rep (fe_pool env) H2 p \<or> (pt_format_target p = val \<and> pt_target p = msg
       \<and> pt_mask p \<in> set rest \<and> field_named (fe_pool env) msg (pt_mask p) = None)"
    using run [OF heap1 none] by (rule fields_leaveE) blast
  show ?thesis
  proof (rule fields_leaveI [of s H H2])
    show "extends s H H2"
      by (rule extends_trans [OF H1(1) H2(1)]) (use val(4) in \<open>simp add: store_simps\<close>)
    show "heap_ok (fe_lib env) (fe_pool env) g H2 (P \<union> pend (ps \<union> ps')) u"
      using H2(2) by (simp add: Un_assoc)
    show "st_structs u val n = st_structs s val n" if "n \<notin> mf_name ` set (f # rest)" for n
      using that H2(3) [of n] val(3) by (simp add: store_simps)
    show "entry_shows (fe_lib env) (fe_pool env) g (rep_msg (fe_lib env) (fe_pool env) H2)
       ((val, h) \<in> pend (ps \<union> ps')) (fe_resolver env) msg h (st_structs u val (mf_name h))"
      if "h \<in> set (f # rest)" for h
    proof (cases "h = f")
      case True
      have "st_structs u val (mf_name f) = Some v" using H2(3) [OF new] by (simp add: store_simps)
      moreover have "rep_value (fe_lib env) fd (represents env H2 (mf_mask f)) (pm_get (fe_lib env) msg fd) v"
        by (rule rep_value_extends [OF heap1 H2(1) H1(4)])
      ultimately show ?thesis using f by (simp add: True entry_shows_def)
    next
      case False
      with that have "h \<in> set rest" by simp
      from entry_shows_mono [OF H2(4) [OF this]] show ?thesis by simp
    qed
    show "patch_rep (fe_pool env) H2 q \<or> (pt_format_target q = val \<and> pt_target q = msg
       \<and> pt_mask q \<in> set (f # rest) \<and> field_named (fe_pool env) msg (pt_mask q) = None)"
      if "q \<in> ps \<union> ps'" for q
      using that H2(5) [of q] patch_rep_extends [OF heap1 H2(1) H1(3)] by auto
  qed
qed

lemma heap_append:
  assumes "heap_ok lib pool g H P s" "append_slice grow sl x s = (sl', t)"
  shows "heap_ok lib pool g H P t"
  using append_slice_heap [OF assms(2)] by (intro heap_ok_same [OF assms(1)]) simp_all

text \<open>The same from the runs that format and store the value.\<close>

lemma fields_leave_formatted:
  assumes lib: "library_typed (fe_lib env) (fe_pool env)" and msg: "typed_msg (fe_pool env) msg"
    and f: "field_named (fe_pool env) msg f = Some fd" "shown msg fd" "entry_ok (fe_pool env) g (pm_desc msg) f"
    and ap: "append_slice (fe_grow env) path (mf_name f) s = (path', s1)"
    and fv: "formatValue env fd (pm_get (fe_lib env) msg fd) (mf_mask f) path' s1 = (Ok (v, ps), s2)"
    and heap: "heap_ok (fe_lib env) (fe_pool env) g H P s" "H val = None" "val < st_next_struct s"
    and free: "\<forall>h \<in> set rest. st_structs s val (mf_name h) = None" "mf_name f \<notin> mf_name ` set rest"
    and leave: "typed_value (fe_pool env) fd (pm_get (fe_lib env) msg fd)
      \<Longrightarrow> elem_mask_ok (fe_pool env) g (elem_desc fd) (mf_mask f) \<Longrightarrow> heap_ok (fe_lib env) (fe_pool env) g H P s1
      \<Longrightarrow> leaves env g H P s1 s2 (set ps)
            (\<lambda>H'. rep_value (fe_lib env) fd (represents env H' (mf_mask f)) (pm_get (fe_lib env) msg fd) v)"
    and run: "\<And>H' P'. val < st_next_struct (set_field val (mf_name f) v s2)
      \<Longrightarrow> \<forall>h \<in> set rest. st_structs (set_field val (mf_name f) v s2) val (mf_name h) = None
      \<Longrightarrow> heap_ok (fe_lib env) (fe_pool env) g H' P' (set_field val (mf_name f) v s2) \<Longrightarrow> H' val = None
      \<Longrightarrow> fields_leave env g H' P' (set_field val (mf_name f) v s2) t ps' val msg rest"
  shows "fields_leave env g H P s t (set ps \<union> ps') val msg (f # rest)"
proof -
  have heap1: "heap_ok (fe_lib env) (fe_pool env) g H P s1" by (rule heap_append [OF heap(1) ap])
  have same: "st_next_struct s1 = st_next_struct s" "st_structs s1 = st_structs s"
    using append_slice_heap [OF ap] by simp_all
  have typed: "typed_value (fe_pool env) fd (pm_get (fe_lib env) msg fd)"
    using lib msg fieldWithCamelCaseName_in_set [OF f(1)] by (intro pm_get_typed) auto
  have mask: "elem_mask_ok (fe_pool env) g (elem_desc fd) (mf_mask f)"
    using f(1,3) by (auto simp: entry_ok.simps entry_field_def elem_mask_ok_def split: if_splits)
  have keep: "st_structs s2 val = st_structs s1 val" "st_next_struct s1 \<le> st_next_struct s2"
    using format_next(2,3) [OF fv] same heap(3) by simp_all
  have free': "\<forall>h \<in> set rest. st_structs (set_field val (mf_name f) v s2) val (mf_name h) = None"
    using free keep same by (auto simp: store_simps) (metis image_eqI)
  have "val < st_next_struct (set_field val (mf_name f) v s2)"
    using heap(3) keep(2) same by (simp add: store_simps)
  from fields_leave_shown [OF leave [OF typed mask heap1] f(1,2) _ heap(2) keep heap1 free(2) run [OF this free']] heap(3) same
  have "fields_leave env g H P s1 t (set ps \<union> ps') val msg (f # rest)" by simp
  then show ?thesis using same by (simp add: fields_leave_def extends_def)
qed

text \<open>A complete struct joins the typing.\<close>

lemma fields_leave_complete:
  assumes run: "fields_leave env g H P s t ps val msg msk"
    and msg: "typed_msg (fe_pool env) msg" "mask_ok (fe_pool env) g (pm_desc msg) msk" "\<not> well_known (fe_pool env) msg"
    and val: "val < st_next_struct s" "H val = None" "st_structs s val = Map.empty" "st_next_struct s \<le> st_next_struct t"
    and heap: "heap_ok (fe_lib env) (fe_pool env) g H P r" "st_next_struct r = val"
  shows "leaves env g H P r t ps (\<lambda>H'. represents env H' msk msg (VStruct val))"
proof -
  obtain H' where H': "extends s H H'" "heap_ok (fe_lib env) (fe_pool env) g H' (P \<union> pend ps) t"
    "\<And>n. n \<notin> mf_name ` set msk \<Longrightarrow> st_structs t val n = st_structs s val n"
    "\<And>f. f \<in> set msk \<Longrightarrow> entry_shows (fe_lib env) (fe_pool env) g (rep_msg (fe_lib env) (fe_pool env) H')
       ((val, f) \<in> pend ps) (fe_resolver env) msg f (st_structs t val (mf_name f))"
    "\<And>p. p \<in> ps \<Longrightarrow> patch_rep (fe_pool env) H' p \<or> (pt_format_target p = val \<and> pt_target p = msg
       \<and> pt_mask p \<in> set msk \<and> field_named (fe_pool env) msg (pt_mask p) = None)"
    using run by (rule fields_leaveE) blast
  let ?H = "H'(val \<mapsto> Formatted (fe_resolver env) msg msk)"
  have none: "H' val = None" using H'(1) val(1,2) by (simp add: extends_def)
  have "n \<in> mf_name ` set msk" if "st_structs t val n = Some y" for n y
    using H'(3) [of n] val(3) that by (cases "n \<in> mf_name ` set msk") auto
  then have "dom (st_structs t val) \<subseteq> mf_name ` set msk" by auto
  moreover have "entry_shows (fe_lib env) (fe_pool env) g (rep_msg (fe_lib env) (fe_pool env) H')
      ((val, f) \<in> P \<union> pend ps) (fe_resolver env) msg f (st_structs t val (mf_name f))" if "f \<in> set msk" for f
    by (rule entry_shows_mono [OF H'(4) [OF that]]) auto
  ultimately have "struct_shows (fe_lib env) (fe_pool env) g (rep_msg (fe_lib env) (fe_pool env) H')
      (\<lambda>f. (val, f) \<in> P \<union> pend ps) (fe_resolver env) msk msg (st_structs t val)"
    by (simp add: struct_shows_def)
  then have heap': "heap_ok (fe_lib env) (fe_pool env) g ?H (P \<union> pend ps) t"
    using msg val none by (intro heap_ok_add [OF H'(2)]) auto
  show ?thesis
  proof (rule leavesI [of r H ?H])
    show "extends r H ?H" using H'(1) val heap(2) by (simp add: extends_def)
    show "patch_rep (fe_pool env) ?H q" if "q \<in> ps" for q
      using H'(5) [OF that] none by (auto simp: patch_rep_def)
    show "represents env ?H msk msg (VStruct val)" using msg(3) by (simp add: rep_msg_def)
  qed (rule heap')
qed

lemma format_leaves:
  assumes lib: "library_typed (fe_lib env0) (fe_pool env0)"
  shows "env = env0 \<Longrightarrow> formatMessage env msg msk path s = (Ok (v, ps), t) \<Longrightarrow> typed_msg (fe_pool env) msg
      \<Longrightarrow> mask_ok (fe_pool env) g (pm_desc msg) msk
      \<Longrightarrow> (\<And>H P. heap_ok (fe_lib env) (fe_pool env) g H P s
        \<Longrightarrow> leaves env g H P s t (set ps) (\<lambda>H'. represents env H' msk msg v))"
    and "env = env0 \<Longrightarrow> formatNormalMessage env msg msk path s = (Ok (v, ps), t) \<Longrightarrow> typed_msg (fe_pool env) msg
      \<Longrightarrow> mask_ok (fe_pool env) g (pm_desc msg) msk \<Longrightarrow> \<not> well_known (fe_pool env) msg
      \<Longrightarrow> (\<And>H P. heap_ok (fe_lib env) (fe_pool env) g H P s
        \<Longrightarrow> leaves env g H P s t (set ps) (\<lambda>H'. represents env H' msk msg v))"
    and "env = env0 \<Longrightarrow> format_fields env msg val msk path s = (Ok pl, t) \<Longrightarrow> typed_msg (fe_pool env) msg
      \<Longrightarrow> \<forall>f \<in> set msk. entry_ok (fe_pool env) g (pm_desc msg) f \<Longrightarrow> distinct (map mf_name msk)
      \<Longrightarrow> val < st_next_struct s \<Longrightarrow> \<forall>f \<in> set msk. st_structs s val (mf_name f) = None
      \<Longrightarrow> (\<And>H P. heap_ok (fe_lib env) (fe_pool env) g H P s \<Longrightarrow> H val = None
        \<Longrightarrow> fields_leave env g H P s t (set pl) val msg msk)"
    and "env = env0 \<Longrightarrow> formatValue env field x msk path s = (Ok (v, ps), t) \<Longrightarrow> typed_value (fe_pool env) field x
      \<Longrightarrow> elem_mask_ok (fe_pool env) g (elem_desc field) msk
      \<Longrightarrow> (\<And>H P. heap_ok (fe_lib env) (fe_pool env) g H P s
        \<Longrightarrow> leaves env g H P s t (set ps) (\<lambda>H'. rep_value (fe_lib env) field (represents env H' msk) x v))"
    and "env = env0 \<Longrightarrow> format_entries env kk field kvs msk path s = (Ok (es, keyed), t)
      \<Longrightarrow> \<forall>(key, x) \<in> set kvs. key_typed kk key \<and> typed_elem (fe_pool env) field x
      \<Longrightarrow> elem_mask_ok (fe_pool env) g field msk
      \<Longrightarrow> (\<And>H P. heap_ok (fe_lib env) (fe_pool env) g H P s
        \<Longrightarrow> leaves env g H P s t (snd ` set keyed)
            (\<lambda>H'. list_all2 (rep_entry (fe_lib env) kk field (represents env H' msk)) kvs es))"
    and "env = env0 \<Longrightarrow> format_elements env field vals msk path s = (Ok (vs, ps), t)
      \<Longrightarrow> \<forall>x \<in> set vals. typed_elem (fe_pool env) field x
      \<Longrightarrow> elem_mask_ok (fe_pool env) g field msk
      \<Longrightarrow> (\<And>H P. heap_ok (fe_lib env) (fe_pool env) g H P s
        \<Longrightarrow> leaves env g H P s t (set ps)
            (\<lambda>H'. list_all2 (rep_elem (fe_lib env) field (represents env H' msk)) vals vs))"
    and "env = env0 \<Longrightarrow> formatSingularValue env field x msk path s = (Ok (v, ps), t)
      \<Longrightarrow> typed_elem (fe_pool env) field x \<Longrightarrow> elem_mask_ok (fe_pool env) g field msk
      \<Longrightarrow> (\<And>H P. heap_ok (fe_lib env) (fe_pool env) g H P s
        \<Longrightarrow> leaves env g H P s t (set ps) (\<lambda>H'. rep_elem (fe_lib env) field (represents env H' msk) x v))"
proof (induction env msg msk path s and env msg msk path s and env msg val msk path s
    and env field x msk path s and env kk field kvs msk path s and env field vals msk path s
    and env field x msk path s
    arbitrary: v ps t and v ps t and pl t and v ps t and es keyed t and vs ps t and v ps t
    rule: formatMessage_formatNormalMessage_format_fields_formatValue_format_entries_format_elements_formatSingularValue.induct)
  case (1 env msg msk path s)
  show ?case
  proof (cases "well_known (fe_pool env) msg")
    case True
    with 1(3) have "wkt_value (fe_lib env) (fe_pool env) (fe_resolver env) msg v" "ps = []" "t = s"
      by (auto simp: format_runs(1) Let_def obind_iffs wkt_value_def Ok_eq_obind_iff)
    with 1(6) True show ?thesis by (auto intro!: leaves_lift simp: rep_msg_def)
  next
    case False
    with 1(3) have "formatNormalMessage env msg msk path s = (Ok (v, ps), t)" by (simp add: format_runs(1))
    from 1(1) [OF refl False 1(2) this 1(4) 1(5) False 1(6)] show ?thesis .
  qed
next
  case (2 env msg msk path s)
  let ?val = "st_next_struct s" and ?s = "snd (new_struct s)"
  have new: "new_struct s = (?val, ?s)" by (metis new_struct_simps(1) prod.collapse)
  from 2(3) new obtain pl where run: "format_fields env msg ?val msk path ?s = (Ok pl, t)"
    and v: "v = VStruct ?val" "ps = pl"
    by (auto simp: format_runs(2) sbind_eq_Ok_iff)
  have heap: "heap_ok (fe_lib env) (fe_pool env) g H P ?s"
    using heap_okD(1) [OF 2(7), of ?val] by (intro heap_ok_same [OF 2(7)]) (auto simp: store_simps)
  have none: "H ?val = None" using heap_okD(1) [OF 2(7), of ?val] by simp
  have mask: "\<forall>f \<in> set msk. entry_ok (fe_pool env) g (pm_desc msg) f" "distinct (map mf_name msk)"
    using 2(5,6) by (simp_all add: mask_ok.simps)
  have fl: "fields_leave env g H P ?s t (set pl) ?val msg msk"
    by (rule 2(1) [OF _ 2(2) run 2(4) mask _ _ heap none]) (use new in \<open>simp_all add: store_simps\<close>)
  have le: "st_next_struct ?s \<le> st_next_struct t"
    using format_makes(3) [of env ?val msk ?s msg path] run by (auto simp: makes_def keeps_def)
  show ?case
    unfolding v
    by (rule fields_leave_complete [OF fl 2(4-6) _ none _ le 2(7) refl]) (simp_all add: store_simps)
next
  case (3 env msg val path s)
  then show ?case
    by (auto simp: format_runs intro!: fields_leaveI [of s H H])
next
  case (4 env msg val f rest path s)
  let ?pool = "fe_pool env"
  have ok: "entry_ok ?pool g (pm_desc msg) f" and rest: "\<forall>f \<in> set rest. entry_ok ?pool g (pm_desc msg) f"
    "distinct (map mf_name rest)" and new: "mf_name f \<notin> mf_name ` set rest"
    using 4(8,9) by auto
  have free: "st_structs s val (mf_name f) = None" "\<forall>f \<in> set rest. st_structs s val (mf_name f) = None"
    using 4(11) by simp_all
  show ?case
  proof (cases "field_named ?pool msg f")
    case None
    with 4(6) obtain pl' where run: "format_fields env msg val rest path s = (Ok pl', t)"
      and pl: "pl = relation_patch env msg val path f # pl'"
      by (auto simp: format_runs(4) sbind_eq_Ok_iff)
    have "relation_named ?pool g msg f \<noteq> None"
      using ok None by (auto simp: entry_ok.simps entry_field_def split: option.splits)
    with fields_leave_relation [OF 4(1) [OF None 4(5) run 4(7) rest 4(10) free(2) 4(12,13)] None _ free(1) new]
    show ?thesis by (simp add: pl)
  next
    case (Some fd)
    show ?thesis
    proof (cases "fd_presence fd \<and> \<not> pm_has msg fd")
      case True
      with 4(6) Some have run: "format_fields env msg val rest path s = (Ok pl, t)" by (simp add: format_runs(4))
      show ?thesis
        by (rule fields_leave_hidden [OF 4(2) [OF Some True 4(5) run 4(7) rest 4(10) free(2) 4(12,13)] Some _ free(1) new])
          (use True in \<open>simp add: shown_def\<close>)
    next
      case False
      from 4(6) Some False obtain path' s1 v ps s2 pl' where
        ap: "append_slice (fe_grow env) path (mf_name f) s = (path', s1)"
        and fv: "formatValue env fd (pm_get (fe_lib env) msg fd) (mf_mask f) path' s1 = (Ok (v, ps), s2)"
        and run: "format_fields env msg val rest path (set_field val (mf_name f) v s2) = (Ok pl', t)"
        and pl: "pl = ps @ pl'"
        by (auto simp: format_runs(4) sbind_eq_Ok_iff split: if_splits)
      show ?thesis
        unfolding pl set_append
        by (rule fields_leave_formatted [OF lib [folded 4(5)] 4(7) Some _ ok ap fv 4(12,13,10) free(2) new
              4(3) [OF Some False _ 4(5) fv] 4(4) [OF Some False _ fv refl 4(5) run 4(7) rest]])
          (use ap False in \<open>simp_all add: shown_def\<close>)
    qed
  qed
next
  case (5 env field x msk path s)
  show ?case
  proof (cases "fd_shape field")
    case Singular
    with 5 show ?thesis
      by (simp add: format_runs(5) typed_value.simps elem_desc_def rep_value_def)
  next
    case Repeated
    with 5(5,6) obtain xs where xs: "x = PList xs" "\<forall>x \<in> set xs. typed_elem (fe_pool env) field x"
      by (auto simp: typed_value_list)
    with 5(5) Repeated obtain vs where run: "format_elements env field xs msk path s = (Ok (vs, ps), t)"
      and v: "v = VList vs"
      by (auto simp: format_runs(5) sbind_eq_Ok_iff pv_list_def)
    have e: "elem_mask_ok (fe_pool env) g field msk" using 5(7) Repeated by (simp add: elem_desc_def)
    have "leaves env g H P s t (set ps) (\<lambda>H'. list_all2 (rep_elem (fe_lib env) field (represents env H' msk)) xs vs)"
      by (rule 5(2) [OF Repeated _ 5(4) run xs(2) e 5(8)]) (simp add: xs pv_list_def)
    then show ?thesis using Repeated by (simp add: xs v rep_value_def)
  next
    case (MapOf k w)
    with 5(6) obtain kvs where kvs: "x = PMap kvs"
      "\<forall>(key, x) \<in> set kvs. key_typed (fd_kind k) key \<and> typed_elem (fe_pool env) w x"
      by (auto simp: typed_value_map)
    with 5(5) MapOf obtain es keyed where run: "format_entries env (fd_kind k) w kvs msk path s = (Ok (es, keyed), t)"
      and v: "v = VObject (fold (\<lambda>(k, v). AList.update k v) es [])" "set ps = snd ` set keyed"
      by (auto simp: format_runs(5) sbind_eq_Ok_iff pv_map_def)
    have e: "elem_mask_ok (fe_pool env) g w msk" using 5(7) MapOf by (simp add: elem_desc_def)
    have "leaves env g H P s t (snd ` set keyed)
        (\<lambda>H'. list_all2 (rep_entry (fe_lib env) (fd_kind k) w (represents env H' msk)) kvs es)"
      by (rule 5(3) [OF MapOf _ 5(4) run kvs(2) e 5(8)]) (simp add: kvs pv_map_def)
    then show ?thesis using MapOf by (auto simp: kvs v rep_value_def leaves_def)
  qed
next
  case (6 env kk field msk path s)
  then show ?case by (auto simp: format_runs intro!: leaves_lift)
next
  case (7 env kk field k x kvs msk path s)
  from 7(4) obtain ks v ps s1 es' keyed' where key: "formatMapKeyValue (fe_lib env) kk k (slice_elems s path) = Ok ks"
    and fv: "formatSingularValue env field x msk path s = (Ok (v, ps), s1)"
    and run: "format_entries env kk field kvs msk path s1 = (Ok (es', keyed'), t)"
    and es: "es = (ks, v) # es'" "keyed = map (Pair ks) ps @ keyed'"
    by (auto simp: format_runs_at(1) sbind_eq_Ok_iff eq_commute [of "Ok _" "formatMapKeyValue _ _ _ _"])
  have typed: "typed_elem (fe_pool env) field x"
    "\<forall>(key, x) \<in> set kvs. key_typed kk key \<and> typed_elem (fe_pool env) field x"
    using 7(5) by auto
  have "leaves env g H P s t (set ps \<union> snd ` set keyed')
      (\<lambda>H'. list_all2 (rep_entry (fe_lib env) kk field (represents env H' msk)) ((k, x) # kvs) ((ks, v) # es'))"
    by (rule leaves_cons [where x = x and v = v, OF 7(1) [OF _ 7(3) fv typed(1) 7(6,7)] format_next(4) [OF fv]
          7(2) [OF _ fv refl 7(3) run typed(2) 7(6)]])
      (use key in \<open>auto simp: rep_entry_def\<close>)
  then show ?case by (simp add: es image_Un image_image)
next
  case (8 env field msk path s)
  then show ?case by (auto simp: format_runs intro!: leaves_lift)
next
  case (9 env field x vals msk path s)
  from 9(4) obtain v ps1 s1 vs' ps2 where
    fv: "formatSingularValue env field x msk path s = (Ok (v, ps1), s1)"
    and run: "format_elements env field vals msk path s1 = (Ok (vs', ps2), t)"
    and vs: "vs = v # vs'" "ps = ps1 @ ps2"
    by (auto simp: format_runs(8) sbind_eq_Ok_iff)
  have typed: "typed_elem (fe_pool env) field x" "\<forall>x \<in> set vals. typed_elem (fe_pool env) field x"
    using 9(5) by auto
  show ?case
    unfolding vs set_append
    by (rule leaves_cons [OF 9(1) [OF 9(3) fv typed(1) 9(6,7)] format_next(4) [OF fv]
          9(2) [OF fv refl 9(3) run typed(2) 9(6)]])
next
  case (10 env field x msk path s)
  show ?case
  proof (cases "isMessage (fd_kind field)")
    case True
    with 10(4) obtain m where m: "x = PMsg m" "pm_desc m = fd_message field" "typed_msg (fe_pool env) m"
      by (auto simp: typed_elem_message)
    have mask: "mask_ok (fe_pool env) g (pm_desc m) msk" using 10(5) True m by (simp add: elem_mask_ok_def)
    from 10(3) True have run: "formatMessage env m msk path s = (Ok (v, ps), t)"
      by (simp add: format_runs_at(2) m pv_message_def sbind_eq_Ok_iff)
    have "leaves env g H P s t (set ps) (\<lambda>H'. represents env H' msk m v)"
      by (rule 10(1) [OF True _ 10(2) run m(3) mask 10(6)]) (simp add: m pv_message_def)
    then show ?thesis using True by (simp add: rep_elem_def m)
  next
    case False
    with 10(3) have "format_scalar (fe_lib env) field x (slice_elems s path) = Ok v" "ps = []" "t = s"
      by (auto simp: format_runs_at(2) Ok_eq_obind_iff)
    with False 10(6) show ?thesis by (auto intro!: leaves_lift simp: rep_elem_def)
  qed
qed

end
