(* ===== verification/Knit_Join.thy ===== *)
theory Knit_Join
  imports Knit_Body
begin

text \<open>
  Stitching joins the right data: every entry that the stitcher writes into a struct is the
  formatted answer of that relation's resolver, called with the mask's parameters, for the
  very message that the struct shows, or an error. The typing of the store
  (\<^verbatim>\<open>Knit_Body\<close>) is kept by every batch and round, and no patch is left out, whatever the
  orders in which Go visits the groups and runs the goroutines.
\<close>

section \<open>Writing into structs\<close>

lemma entry_shows_pending:
  "entry_shows lib pool g R p res m f x \<Longrightarrow> x \<noteq> None \<or> field_named pool m f \<noteq> None \<Longrightarrow> entry_shows lib pool g R q res m f x"
  by (auto simp: entry_shows_def split: option.splits)

text \<open>Writing an entry of a struct.\<close>

lemma heap_write:
  assumes heap: "heap_ok lib pool g H P s" and a: "H a = Some (Formatted res m msk)" and f: "f \<in> set msk"
    and w: "entry_shows lib pool g (rep_msg lib pool H) False res m f (Some w)"
  shows "heap_ok lib pool g H (P - {(a, f)}) (set_field a (mf_name f) w s)"
proof (rule heap_okI)
  fix b res' m' msk' assume b: "H b = Some (Formatted res' m' msk')"
  let ?c = "st_structs s b" and ?c' = "st_structs (set_field a (mf_name f) w s) b"
  from heap_okD(2) [OF heap b] have ok: "object_ok lib pool g H P s b res' m' msk'" .
  then have names: "distinct (map mf_name msk')" by (simp add: mask_ok.simps)
  have "struct_shows lib pool g (rep_msg lib pool H) (\<lambda>h. (b, h) \<in> P - {(a, f)}) res' msk' m' ?c'"
    unfolding struct_shows_def
  proof (intro conjI ballI)
    show "dom ?c' \<subseteq> mf_name ` set msk'"
      using ok a b f by (auto simp: struct_shows_def store_simps split: if_splits)
    fix h assume h: "h \<in> set msk'"
    from ok h have old: "entry_shows lib pool g (rep_msg lib pool H) ((b, h) \<in> P) res' m' h (?c (mf_name h))"
      by (simp add: struct_shows_def)
    show "entry_shows lib pool g (rep_msg lib pool H) ((b, h) \<in> P - {(a, f)}) res' m' h (?c' (mf_name h))"
    proof (cases "b = a")
      case True
      with a b have eq: "res' = res" "m' = m" "msk' = msk" by simp_all
      show ?thesis
      proof (cases "mf_name h = mf_name f")
        case same: True
        with names h f eq have "h = f" by (metis distinct_map inj_onD)
        with True eq w show ?thesis by (auto simp: store_simps intro: entry_shows_mono)
      next
        case False
        with True have "?c' (mf_name h) = ?c (mf_name h)" by (simp add: store_simps)
        moreover have "(b, h) \<in> P - {(a, f)} \<longleftrightarrow> (b, h) \<in> P" using False by auto
        ultimately show ?thesis using old by simp
      qed
    next
      case False
      then show ?thesis using old by (simp add: store_simps)
    qed
  qed
  with ok show "object_ok lib pool g H (P - {(a, f)}) (set_field a (mf_name f) w s) b res' m' msk'" by simp
next
  fix b assume "st_next_struct (set_field a (mf_name f) w s) \<le> b"
  with heap_okD(1) [OF heap] show "H b = None" by (simp add: store_simps)
next
  fix b x assume "H b = Some ErrorHolder" "x \<in> ran (st_structs (set_field a (mf_name f) w s) b)"
  with a heap_okD(3) [OF heap] show "is_error_value lib x" by (auto simp: store_simps split: if_splits)
qed

text \<open>Writing a caught error into the struct that holds it.\<close>

lemma heap_write_error:
  assumes heap: "heap_ok lib pool g H P s" and ep: "err_rep pool H ep" and w: "is_error_value lib w"
  shows "heap_ok lib pool g H P (set_field (ep_target ep) (ep_name ep) w s)"
proof (cases "H (ep_target ep) = Some ErrorHolder")
  case True
  show ?thesis
  proof (rule heap_okI)
    fix a assume "st_next_struct (set_field (ep_target ep) (ep_name ep) w s) \<le> a"
    with heap_okD(1) [OF heap] show "H a = None" by (simp add: store_simps)
  next
    fix a res m msk assume a: "H a = Some (Formatted res m msk)"
    with True have "a \<noteq> ep_target ep" by auto
    with heap_okD(2) [OF heap a] show "object_ok lib pool g H P (set_field (ep_target ep) (ep_name ep) w s) a res m msk"
      by (simp add: store_simps)
  next
    fix a x assume "H a = Some ErrorHolder" "x \<in> ran (st_structs (set_field (ep_target ep) (ep_name ep) w s) a)"
    with heap_okD(3) [OF heap, of a] w show "is_error_value lib x"
      by (auto simp: store_simps ran_def split: if_splits)
  qed
next
  case False
  with ep obtain res m msk f where f: "H (ep_target ep) = Some (Formatted res m msk)" "f \<in> set msk"
    "mf_name f = ep_name ep" "field_named pool m f = None"
    by (auto simp: err_rep_def)
  have "entry_shows lib pool g (rep_msg lib pool H) ((ep_target ep, f) \<in> P) res m f (st_structs s (ep_target ep) (mf_name f))"
    using heap_okD(2) [OF heap f(1)] f(2) by (simp add: struct_shows_def)
  with f(4) have "relation_named pool g m f \<noteq> None" by (auto simp: entry_shows_def split: option.splits)
  with f(4) w have "entry_shows lib pool g (rep_msg lib pool H) False res m f (Some w)"
    by (auto simp: entry_shows_def)
  from heap_write [OF heap f(1,2) this] show ?thesis
    unfolding f(3) by (rule heap_ok_mono) auto
qed

text \<open>A relation with no value, or whose resolver failed, is settled without a write.\<close>

lemma heap_settle:
  assumes heap: "heap_ok lib pool g H P s" and a: "H a = Some (Formatted res m msk)"
    and f: "field_named pool m f = None" "relation_named pool g m f = Some cfg"
      "answered lib g cfg f m None \<or> failed lib g cfg f m"
  shows "heap_ok lib pool g H (P - {(a, f)}) s"
proof (rule heap_okI)
  fix b res' m' msk' assume b: "H b = Some (Formatted res' m' msk')"
  from heap_okD(2) [OF heap b] have ok: "object_ok lib pool g H P s b res' m' msk'" .
  have "entry_shows lib pool g (rep_msg lib pool H) ((b, h) \<in> P - {(a, f)}) res' m' h (st_structs s b (mf_name h))"
    if h: "h \<in> set msk'" for h
  proof -
    from ok h have old: "entry_shows lib pool g (rep_msg lib pool H) ((b, h) \<in> P) res' m' h (st_structs s b (mf_name h))"
      by (simp add: struct_shows_def)
    show ?thesis
    proof (cases "b = a \<and> h = f")
      case True
      with a b f old show ?thesis by (auto simp: entry_shows_def split: option.splits)
    next
      case False
      then have "(b, h) \<in> P - {(a, f)} \<longleftrightarrow> (b, h) \<in> P" by auto
      with old show ?thesis by simp
    qed
  qed
  with ok show "object_ok lib pool g H (P - {(a, f)}) s b res' m' msk'" by (simp add: struct_shows_def)
qed (use heap_okD(1,3) [OF heap] in auto)


section \<open>Stitching\<close>

abbreviation join_heap where
  "join_heap env H P s \<equiv> heap_ok (se_lib env) (se_pool env) (se_gateway env) H P s"

definition patch_ready :: "stitch_env \<Rightarrow> heap_typing \<Rightarrow> patch \<Rightarrow> bool" where
  "patch_ready env H p \<longleftrightarrow> patch_rep (se_pool env) H p \<and> (\<forall>ep. pt_err p = Some ep \<longrightarrow> err_rep (se_pool env) H ep)"

lemma patch_ready_extends:
  "join_heap env H P s \<Longrightarrow> extends s H H' \<Longrightarrow> patch_ready env H p \<Longrightarrow> patch_ready env H' p"
  using patch_rep_extends [of "se_lib env" "se_pool env" "se_gateway env" H P s H' p]
    err_rep_extends [of "se_lib env" "se_pool env" "se_gateway env" H P s H'] by (auto simp: patch_ready_def)

lemma patch_ready_ok:
  assumes "join_heap env H P s" "patch_ready env H p"
  shows "patch_ok (se_pool env) (se_gateway env) p"
proof -
  from assms(2) obtain res msk where p: "H (pt_format_target p) = Some (Formatted res (pt_target p) msk)"
    "pt_mask p \<in> set msk" "field_named (se_pool env) (pt_target p) (pt_mask p) = None"
    by (auto simp: patch_ready_def patch_rep_def)
  from heap_okD(2) [OF assms(1) p(1)] p(2,3) show ?thesis
    by (simp add: patch_ok_def mask_ok.simps [of "se_pool env"])
qed

text \<open>The patches that a run of the formatter leaves can be stitched.\<close>

lemma made_ready:
  assumes "patch_made env X n s t q" "patch_rep pool H q" "\<And>ep. fe_upstream env = Some ep \<Longrightarrow> err_rep pool H ep"
  shows "\<forall>ep. pt_err q = Some ep \<longrightarrow> err_rep pool H ep"
  using assms by (auto simp: patch_made_def patch_rep_def err_rep_def split: if_splits)

lemma formatValue_join:
  assumes env: "stitch_env_ok net env" and heap: "join_heap env H P s" and p: "patch_ready env H p"
    and v: "typed_value (se_pool env) d v" "field_type_ok (se_pool env) (se_gateway env) d (pt_mask p)"
    and run: "formatValue (format_env_of env meta (pt_err p)) d v (mf_mask (pt_mask p)) path s = (Ok (w, qs), t)"
  obtains H' where "extends s H H'" "join_heap env H' (P \<union> pend (set qs)) t"
    "\<And>q. q \<in> set qs \<Longrightarrow> patch_ready env H' q"
    "rep_value (se_lib env) d (rep_msg (se_lib env) (se_pool env) H' (gw_type_resolver (se_gateway env)) (mf_mask (pt_mask p))) v w"
proof -
  let ?env = "format_env_of env meta (pt_err p)"
  have fe [simp]: "fe_lib ?env = se_lib env" "fe_pool ?env = se_pool env" "fe_upstream ?env = pt_err p"
    "fe_resolver ?env = gw_type_resolver (se_gateway env)"
    by (simp_all add: format_env_of_def)
  have "leaves ?env (se_gateway env) H P s t (set qs)
      (\<lambda>H'. rep_value (fe_lib ?env) d (represents ?env H' (mf_mask (pt_mask p))) v w)"
    by (rule format_leaves(4) [OF _ refl run]) (use env v heap field_type_elem_mask in \<open>simp_all add: stitch_env_ok_def\<close>)
  then obtain H' where H': "extends s H H'" "join_heap env H' (P \<union> pend (set qs)) t"
    "\<And>q. q \<in> set qs \<Longrightarrow> patch_rep (se_pool env) H' q"
    "rep_value (se_lib env) d (rep_msg (se_lib env) (se_pool env) H' (gw_type_resolver (se_gateway env)) (mf_mask (pt_mask p))) v w"
    by (rule leavesE) simp
  have "patch_ready env H' q" if q: "q \<in> set qs" for q
  proof -
    from format_makes(4) [of ?env "mf_mask (pt_mask p)" s d v path] run q obtain n where
      "patch_made ?env {} n s t q" by (auto simp: makes_def ret_patches_def)
    from made_ready [OF this H'(3) [OF q]] err_rep_extends [OF heap H'(1)] p H'(3) [OF q]
    show ?thesis by (simp add: patch_ready_def)
  qed
  with H' that show ?thesis by blast
qed

text \<open>What is known of a patch of a batch: its relation, and for a delivery what the resolver said.\<close>

definition outcome_known :: "stitch_env \<Rightarrow> relation_config \<Rightarrow> patch \<Rightarrow> bool" where
  "outcome_known env cfg p \<longleftrightarrow> patch_config env p = Some cfg
     \<and> failed (se_lib env) (se_gateway env) cfg (pt_mask p) (pt_target p)"

lemma config_relation:
  "patch_config env p = Some cfg \<longleftrightarrow> relation_named (se_pool env) (se_gateway env) (pt_target p) (pt_mask p) = Some cfg"
  by (simp add: patch_config_def patch_type_name_def)

lemma settle_patch:
  assumes "join_heap env H P s" "patch_ready env H p" "patch_config env p = Some cfg"
    "answered (se_lib env) (se_gateway env) cfg (pt_mask p) (pt_target p) None
      \<or> failed (se_lib env) (se_gateway env) cfg (pt_mask p) (pt_target p)"
  shows "join_heap env H (P - pend {p}) s"
  using assms by (auto simp: patch_ready_def patch_rep_def config_relation intro: heap_settle)

lemma deliver_error_run:
  "deliver_error env e (p # ps) = sbind (sdo (append_slice (se_grow env) (pt_path p) (mf_name (pt_mask p))))
     (\<lambda>path. sread (\<lambda>t. case pt_err p of
          None \<Rightarrow> slift (Panic ''nil dereference'')
        | Some ep \<Rightarrow> sbind (sdo (\<lambda>u. ((), set_field (ep_target ep) (ep_name ep)
           (formatError (se_lib env) e (string_join (slice_elems t path) ''.'')
              (gw_type_resolver (se_gateway env))) u))) (\<lambda>_. deliver_error env e ps)))"
  by (rule ext) (simp)

lemma deliver_error_join:
  assumes "deliver_error env e ps s = (Ok sets, t)" "join_heap env H P s"
    "\<And>p. p \<in> set ps \<Longrightarrow> patch_ready env H p \<and> outcome_known env cfg p"
  shows "join_heap env H (P - pend (set ps)) t \<and> st_next_struct t = st_next_struct s"
  using assms
proof (induction ps arbitrary: s P)
  case (Cons p ps)
  from Cons.prems(1) obtain path s1 ep where
    ap: "append_slice (se_grow env) (pt_path p) (mf_name (pt_mask p)) s = (path, s1)" and ep: "pt_err p = Some ep"
    and run: "deliver_error env e ps (set_field (ep_target ep) (ep_name ep)
       (formatError (se_lib env) e (string_join (slice_elems s1 path) ''.'') (gw_type_resolver (se_gateway env))) s1) = (Ok sets, t)"
    unfolding deliver_error_run by (auto simp: sbind_eq_Ok_iff split: option.splits)
  have p: "patch_ready env H p" "outcome_known env cfg p" using Cons.prems(3) [of p] by auto
  have "join_heap env H P s1" by (rule heap_append [OF Cons.prems(2) ap])
  then have "join_heap env H (P - pend {p}) s1"
    using p by (intro settle_patch) (auto simp: outcome_known_def)
  then have h: "join_heap env H (P - pend {p}) (set_field (ep_target ep) (ep_name ep)
       (formatError (se_lib env) e (string_join (slice_elems s1 path) ''.'') (gw_type_resolver (se_gateway env))) s1)"
    using p(1) ep by (intro heap_write_error) (auto simp: patch_ready_def is_error_value_def)
  from Cons.IH [OF run h] Cons.prems(3) have "join_heap env H (P - pend {p} - pend (set ps)) t"
    "st_next_struct t = st_next_struct s1" by (auto simp: store_simps)
  moreover have "P - pend {p} - pend (set ps) = P - pend (set (p # ps))" by auto
  ultimately show ?case using append_slice_heap [OF ap] by simp
qed simp


text \<open>Delivering the values of a batch.\<close>

definition value_known :: "stitch_env \<Rightarrow> relation_config \<Rightarrow> patch \<times> pval option \<Rightarrow> bool" where
  "value_known env cfg pv \<longleftrightarrow> patch_config env (fst pv) = Some cfg
     \<and> answered (se_lib env) (se_gateway env) cfg (pt_mask (fst pv)) (pt_target (fst pv)) (snd pv)
     \<and> (\<forall>v. snd pv = Some v \<longrightarrow> typed_value (se_pool env) (rc_descriptor cfg) v)"

definition joins ::
  "stitch_env \<Rightarrow> heap_typing \<Rightarrow> (nat \<times> mask_field) set \<Rightarrow> store \<Rightarrow> store \<Rightarrow> patch set \<Rightarrow> patch set \<Rightarrow> bool" where
  "joins env H P s t ps qs \<longleftrightarrow>
     (\<exists>H'. extends s H H' \<and> join_heap env H' ((P - pend ps) \<union> pend qs) t
        \<and> (\<forall>q \<in> qs. patch_ready env H' q)) \<and> st_next_struct s \<le> st_next_struct t"

lemma joinsI:
  "extends s H H' \<Longrightarrow> join_heap env H' ((P - pend ps) \<union> pend qs) t \<Longrightarrow> (\<And>q. q \<in> qs \<Longrightarrow> patch_ready env H' q)
    \<Longrightarrow> st_next_struct s \<le> st_next_struct t \<Longrightarrow> joins env H P s t ps qs"
  unfolding joins_def by blast

lemma joinsE:
  assumes "joins env H P s t ps qs"
  obtains H' where "extends s H H'" "join_heap env H' ((P - pend ps) \<union> pend qs) t"
    "\<And>q. q \<in> qs \<Longrightarrow> patch_ready env H' q" "st_next_struct s \<le> st_next_struct t"
  using assms unfolding joins_def by blast

lemma joins_trans:
  assumes "joins env H P s t ps qs" "join_heap env H P s"
    "\<And>H'. extends s H H' \<Longrightarrow> join_heap env H' ((P - pend ps) \<union> pend qs) t
      \<Longrightarrow> joins env H' ((P - pend ps) \<union> pend qs) t u ps' qs'"
  shows "joins env H P s u (ps \<union> ps') (qs \<union> qs')"
proof -
  obtain H' where H': "extends s H H'" "join_heap env H' ((P - pend ps) \<union> pend qs) t"
    "\<And>q. q \<in> qs \<Longrightarrow> patch_ready env H' q" "st_next_struct s \<le> st_next_struct t"
    using assms(1) by (rule joinsE) blast
  obtain H'' where H'': "extends t H' H''" "join_heap env H'' ((((P - pend ps) \<union> pend qs) - pend ps') \<union> pend qs') u"
    "\<And>q. q \<in> qs' \<Longrightarrow> patch_ready env H'' q" "st_next_struct t \<le> st_next_struct u"
    using assms(3) [OF H'(1,2)] by (rule joinsE) blast
  show ?thesis
  proof (rule joinsI)
    show "extends s H H''" by (rule extends_trans [OF H'(1) H''(1) H'(4)])
    show "join_heap env H'' ((P - pend (ps \<union> ps')) \<union> pend (qs \<union> qs')) u"
      by (rule heap_ok_mono [OF H''(2)]) auto
    show "patch_ready env H'' q" if "q \<in> qs \<union> qs'" for q
      using that H''(3) patch_ready_extends [OF H'(2) H''(1) H'(3)] by blast
    show "st_next_struct s \<le> st_next_struct u" using H'(4) H''(4) by simp
  qed
qed

lemma deliver_one:
  assumes env: "stitch_env_ok net env" and heap: "join_heap env H P s"
    and p: "patch_ready env H p" "value_known env cfg (p, Some v)"
    and fv: "formatValue (format_env_of env meta (pt_err p)) (rc_descriptor cfg) v (mf_mask (pt_mask p)) path s = (Ok (w, qs), t)"
  shows "joins env H P s (set_field (pt_format_target p) (mf_name (pt_mask p)) w t) {p} (set qs)"
proof -
  have cfg: "patch_config env p = Some cfg" "typed_value (se_pool env) (rc_descriptor cfg) v"
    "answered (se_lib env) (se_gateway env) cfg (pt_mask p) (pt_target p) (Some v)"
    using p(2) by (simp_all add: value_known_def)
  have ft: "field_type_ok (se_pool env) (se_gateway env) (rc_descriptor cfg) (pt_mask p)"
    using patch_config_known [OF patch_ready_ok [OF heap p(1)]] cfg(1) by auto
  obtain H' where H': "extends s H H'" "join_heap env H' (P \<union> pend (set qs)) t"
    "\<And>q. q \<in> set qs \<Longrightarrow> patch_ready env H' q"
    "rep_value (se_lib env) (rc_descriptor cfg)
       (rep_msg (se_lib env) (se_pool env) H' (gw_type_resolver (se_gateway env)) (mf_mask (pt_mask p))) v w"
    by (rule formatValue_join [OF env heap p(1) cfg(2) ft fv]) blast
  from patch_ready_extends [OF heap H'(1) p(1)] obtain res msk where
    a: "H' (pt_format_target p) = Some (Formatted res (pt_target p) msk)" "pt_mask p \<in> set msk"
    "field_named (se_pool env) (pt_target p) (pt_mask p) = None"
    by (auto simp: patch_ready_def patch_rep_def)
  have "entry_shows (se_lib env) (se_pool env) (se_gateway env) (rep_msg (se_lib env) (se_pool env) H') False res
      (pt_target p) (pt_mask p) (Some w)"
    using a(3) cfg H'(4) by (auto simp: entry_shows_def config_relation)
  from heap_write [OF H'(2) a(1,2) this] show ?thesis
    using format_next(2) [OF fv]
    by (intro joinsI [OF H'(1) _ H'(3)]) (auto simp: store_simps intro: heap_ok_mono)
qed

lemma deliver_values_join:
  assumes env: "stitch_env_ok net env"
  shows "deliver_values env (rc_descriptor cfg) meta pvs s = (Ok sets, t) \<Longrightarrow> join_heap env H P s
    \<Longrightarrow> (\<And>pv. pv \<in> set pvs \<Longrightarrow> patch_ready env H (fst pv) \<and> value_known env cfg pv)
    \<Longrightarrow> joins env H P s t (fst ` set pvs) (set (concat sets))"
proof (induction pvs arbitrary: s H P sets)
  case Nil
  then show ?case by (auto intro!: joinsI [of s H H])
next
  case (Cons pv pvs)
  obtain p v where pv: "pv = (p, v)" by (cases pv)
  have p: "patch_ready env H p" "value_known env cfg (p, v)" using Cons.prems(3) [of pv] pv by auto
  show ?case
  proof (cases v)
    case None
    from Cons.prems(1) have run: "deliver_values env (rc_descriptor cfg) meta pvs s = (Ok sets, t)"
      by (simp add: pv None)
    have "join_heap env H (P - pend {p}) s"
      using p Cons.prems(2) None by (intro settle_patch) (auto simp: value_known_def)
    from Cons.IH [OF run this] Cons.prems(3) have "joins env H (P - pend {p}) s t (fst ` set pvs) (set (concat sets))"
      by simp
    moreover have "P - pend {p} - pend (fst ` set pvs) = P - pend (fst ` set (pv # pvs))" by (auto simp: pv)
    ultimately show ?thesis by (simp add: joins_def)
  next
    case (Some x)
    from Cons.prems(1) obtain path s1 w qs s2 sets' where
      path: "new_slice (slice_elems s (pt_path p) @ [mf_name (pt_mask p)]) s = (path, s1)"
      and fv: "formatValue (format_env_of env meta (pt_err p)) (rc_descriptor cfg) x (mf_mask (pt_mask p)) path s1 = (Ok (w, qs), s2)"
      and run: "deliver_values env (rc_descriptor cfg) meta pvs
          (set_field (pt_format_target p) (mf_name (pt_mask p)) w s2) = (Ok sets', t)"
      and sets: "sets = (if qs = [] then sets' else qs # sets')"
      unfolding pv Some deliver_values_run by (auto simp: sbind_eq_Ok_iff)
    have s1: "st_next_struct s1 = st_next_struct s" "st_structs s1 = st_structs s"
      using new_slice_simps(1,2) [of "slice_elems s (pt_path p) @ [mf_name (pt_mask p)]" s] path by simp_all
    have heap1: "join_heap env H P s1"
      by (rule heap_ok_same [OF Cons.prems(2)]) (simp_all add: s1)
    let ?s2 = "set_field (pt_format_target p) (mf_name (pt_mask p)) w s2"
    have j: "joins env H P s1 t ({p} \<union> fst ` set pvs) (set qs \<union> set (concat sets'))"
    proof (rule joins_trans [OF deliver_one [OF env heap1 p(1) _ fv] heap1])
      show "value_known env cfg (p, Some x)" using p(2) Some by simp
      fix H' assume H': "extends s1 H H'" "join_heap env H' (P - pend {p} \<union> pend (set qs)) ?s2"
      show "joins env H' (P - pend {p} \<union> pend (set qs)) ?s2 t (fst ` set pvs) (set (concat sets'))"
        by (rule Cons.IH [OF run H'(2)]) (use Cons.prems(3) patch_ready_extends [OF heap1 H'(1)] in auto)
    qed
    have eqs: "{p} \<union> fst ` set pvs = fst ` set (pv # pvs)" "set qs \<union> set (concat sets') = set (concat sets)"
      by (auto simp: sets pv)
    from j [unfolded eqs] s1 show ?thesis unfolding joins_def extends_def by (simp del: set_concat)
  qed
qed

text \<open>One batch.\<close>

lemma parse_params_relation:
  assumes "parse_params env (key, cfg, ps) = Ok params" "gk_params key = mf_params f"
  shows "relation_params (se_lib env) (se_gateway env) cfg f = Ok params"
  using assms
  by (auto simp: parse_params_def relation_params_def Let_def split: option.splits outcome.splits if_splits)

lemma registered_resolver_keeps:
  assumes "getRelationConfig lib net pool method name client = Ok cfg"
    "rc_resolver cfg meta bases params s = (r, t)"
  shows "st_structs t = st_structs s" "st_next_struct t = st_next_struct s"
proof -
  obtain rf where "rc_resolver cfg = newRemoteResolver lib net pool name (rc_base_field cfg)
      (rc_descriptor cfg) rf (dynamic_message_type (mth_output method)) client"
    using getRelationConfig_Ok_fields(3) [OF assms(1)] by blast
  then have "only_rpcs s t" using assms(2) by (auto intro: remote.resolve_store)
  from only_rpcs_components [OF this]
  show "st_structs t = st_structs s" "st_next_struct t = st_next_struct s" by blast+
qed

text \<open>What a batch's resolver answers is what the patches of the batch are given.\<close>

lemma batch_values_known:
  assumes env: "stitch_env_ok net env"
    and made: "getRelationConfig (se_lib env) net (se_pool env) (rc_method cfg) (rc_name cfg) client = Ok cfg"
    and run: "rc_resolver cfg meta (map pt_target batch) params s = (Ok vals, t)"
    and batch: "\<And>p. p \<in> set batch \<Longrightarrow> patch_config env p = Some cfg
      \<and> relation_params (se_lib env) (se_gateway env) cfg (pt_mask p) = Ok params"
  shows "length vals = length batch" "\<And>pv. pv \<in> set (zip batch vals) \<Longrightarrow> value_known env cfg pv"
proof -
  from newRemoteResolver_ensures [OF _ made, of meta "map pt_target batch" params s] env run
  have v: "length vals = length batch" "\<And>x. Some x \<in> set vals \<Longrightarrow> typed_value (se_pool env) (rc_descriptor cfg) x"
    by (auto simp: ensures_def values_ok_def stitch_env_ok_def)
  then show "length vals = length batch" by simp
  fix pv assume "pv \<in> set (zip batch vals)"
  then obtain i where i: "i < length batch" "pv = (batch ! i, vals ! i)"
    using v(1) by (auto simp: set_zip)
  have "answered (se_lib env) (se_gateway env) cfg (pt_mask (batch ! i)) (pt_target (batch ! i)) (vals ! i)"
    unfolding answered_def using batch [of "batch ! i"] run v(1) i(1)
    by (intro exI [of _ params] exI [of _ meta] exI [of _ "map pt_target batch"] exI [of _ s]
        exI [of _ vals] exI [of _ t] exI [of _ i]) simp
  moreover have "typed_value (se_pool env) (rc_descriptor cfg) x" if "vals ! i = Some x" for x
    using v nth_mem [of i vals] i(1) that by simp
  ultimately show "value_known env cfg pv"
    using i batch [of "batch ! i"] by (auto simp: value_known_def)
qed

lemma batch_failure_known:
  assumes "rc_resolver cfg meta (map pt_target batch) params s = (Err e, t)" "p \<in> set batch" "patch_config env p = Some cfg"
    "relation_params (se_lib env) (se_gateway env) cfg (pt_mask p) = Ok params"
  shows "outcome_known env cfg p"
  using assms unfolding outcome_known_def failed_def by fastforce

lemma run_batch_join:
  assumes env: "stitch_env_ok net env"
    and grp: "group_ok env (\<lambda>p. patch_ready env H p) (key, cfg, batch)"
    and params: "parse_params env (key, cfg, batch) = Ok params"
    and heap: "join_heap env H P s"
    and run: "run_batch env (key, cfg, batch) params s = (Ok sets, t)"
  shows "joins env H P s t (set batch) (set (concat sets))"
proof -
  have b: "batch \<noteq> []" "\<And>p. p \<in> set batch \<Longrightarrow> patch_ready env H p \<and> patch_key env p = key \<and> patch_config env p = Some cfg"
    using grp by (auto simp: group_ok_def)
  from b have "patch_config env (hd batch) = Some cfg" by simp
  from patch_config_made [OF env this] obtain client where
    made: "getRelationConfig (se_lib env) net (se_pool env) (rc_method cfg) (rc_name cfg) client = Ok cfg" by blast
  have bp: "patch_config env p = Some cfg \<and> relation_params (se_lib env) (se_gateway env) cfg (pt_mask p) = Ok params"
    if "p \<in> set batch" for p
    using parse_params_relation [OF params] b(2) [OF that] by (auto simp: patch_key_def)
  obtain r u where ru: "rc_resolver cfg (st_metas s (gk_meta key)) (map pt_target batch) params s = (r, u)" by fastforce
  obtain meta u' where mu: "new_meta (batch_meta cfg (st_metas u (gk_meta key))) u = (meta, u')" by fastforce
  have keep: "st_structs u' = st_structs s" "st_next_struct u' = st_next_struct s"
    using registered_resolver_keeps [OF made ru]
      new_meta_simps(2,3) [of "batch_meta cfg (st_metas u (gk_meta key))" u] mu by simp_all
  have heap': "join_heap env H P u'" by (rule heap_ok_same [OF heap]) (simp_all add: keep)
  show ?thesis
  proof (cases r)
    case (Ok vals)
    note known = batch_values_known [OF env made ru [unfolded Ok] bp]
    from run have dv: "deliver_values env (rc_descriptor cfg) meta (zip batch vals) u' = (Ok sets, t)"
      using ru mu Ok known(1) by (simp add: run_batch_def batch_result_def)
    have "joins env H P u' t (fst ` set (zip batch vals)) (set (concat sets))"
      by (rule deliver_values_join [OF env dv heap']) (use known(2) b(2) in \<open>auto dest: set_zip_leftD\<close>)
    moreover have "fst ` set (zip batch vals) = set batch"
      using known(1) by (metis list.set_map map_fst_zip)
    ultimately show ?thesis using keep by (simp add: joins_def extends_def)
  next
    case (Err e)
    have "pt_err (hd batch) \<noteq> None" using run ru Err by (auto simp: run_batch_def batch_result_def split: if_splits)
    with run ru Err mu have de: "deliver_error env e batch u' = (Ok sets, t)"
      by (simp add: run_batch_def batch_result_def)
    have "patch_ready env H p \<and> outcome_known env cfg p" if "p \<in> set batch" for p
      using b(2) [OF that] batch_failure_known [OF ru [unfolded Err] that] bp [OF that] by simp
    from deliver_error_join [OF de heap' this] have "join_heap env H (P - pend (set batch)) t"
      "st_next_struct t = st_next_struct u'" by auto
    with keep deliver_error_Ok [OF de] show ?thesis by (intro joinsI [of s H H]) simp_all
  next
    case (Panic x)
    with run ru show ?thesis by (simp add: run_batch_def batch_result_def)
  qed
qed

text \<open>All batches of a round, in the order in which they run.\<close>

definition job_ok :: "stitch_env \<Rightarrow> (patch \<Rightarrow> bool) \<Rightarrow> group \<times> pmsg \<Rightarrow> bool" where
  "job_ok env Q job \<longleftrightarrow> group_ok env Q (fst job) \<and> parse_params env (fst job) = Ok (snd job)"

lemma run_batches_join:
  assumes env: "stitch_env_ok net env"
  shows "run_batches env jobs s = (Ok sets, t) \<Longrightarrow> join_heap env H P s
    \<Longrightarrow> (\<And>job. job \<in> set jobs \<Longrightarrow> job_ok env (\<lambda>p. patch_ready env H p) job)
    \<Longrightarrow> joins env H P s t (set (group_members (map fst jobs))) (set (concat sets))"
proof (induction jobs arbitrary: s H P sets)
  case Nil
  then show ?case by (auto intro!: joinsI [of s H H])
next
  case (Cons job jobs)
  obtain key cfg batch params where job: "job = ((key, cfg, batch), params)" by (metis prod.collapse)
  from Cons.prems(1) obtain sets1 s1 sets2 where
    one: "run_batch env (key, cfg, batch) params s = (Ok sets1, s1)"
    and rest: "run_batches env jobs s1 = (Ok sets2, t)" and sets: "sets = sets1 @ sets2"
    by (auto simp: job sbind_eq_Ok_iff)
  have ok: "group_ok env (\<lambda>p. patch_ready env H p) (key, cfg, batch)" "parse_params env (key, cfg, batch) = Ok params"
    using Cons.prems(3) [of job] by (simp_all add: job job_ok_def)
  have "joins env H P s t (set batch \<union> set (group_members (map fst jobs))) (set (concat sets1) \<union> set (concat sets2))"
  proof (rule joins_trans [OF run_batch_join [OF env ok Cons.prems(2) one] Cons.prems(2)])
    fix H' assume H': "extends s H H'" "join_heap env H' (P - pend (set batch) \<union> pend (set (concat sets1))) s1"
    have "job_ok env (\<lambda>p. patch_ready env H' p) j" if "j \<in> set jobs" for j
      using Cons.prems(3) [of j] that patch_ready_extends [OF Cons.prems(2) H'(1)]
      by (auto simp: job_ok_def intro: group_ok_mono)
    from Cons.IH [OF rest H'(2) this]
    show "joins env H' (P - pend (set batch) \<union> pend (set (concat sets1))) s1 t
        (set (group_members (map fst jobs))) (set (concat sets2))" by simp
  qed
  then show ?case by (simp add: job sets)
qed

text \<open>A round settles every patch it is given, in whatever order Go visits the groups.\<close>

definition orders_ok :: "stitch_env \<Rightarrow> bool" where
  "orders_ok env \<longleftrightarrow> order_ok (se_parse_order env) \<and> order_ok (se_run_order env)"

text \<open>The jobs of a round are its groups with their parameters.\<close>

lemma round_jobs:
  assumes orders: "orders_ok env" and groups: "group_patches env s ps [] = Ok groups"
    and jobs: "omap (\<lambda>grp. obind (parse_params env grp) (\<lambda>params. Ok (grp, params)))
      (visit (se_parse_order env) n groups) = Ok jobs"
  shows "set (group_members (map fst (visit (se_run_order env) n jobs))) = set ps"
    and "\<And>job. job \<in> set (visit (se_run_order env) n jobs)
      \<Longrightarrow> fst job \<in> set groups \<and> parse_params env (fst job) = Ok (snd job)"
proof -
  have sets: "set (visit (se_parse_order env) n groups) = set groups" "set (visit (se_run_order env) n jobs) = set jobs"
    using orders by (simp_all add: orders_ok_def set_visit)
  have fst_jobs: "set (map fst jobs) = set groups"
    using omap_fst_in_set [OF jobs] sets(1) by simp
  then have "set (map fst (visit (se_run_order env) n jobs)) = set groups"
    using sets(2) by simp
  then have "set (group_members (map fst (visit (se_run_order env) n jobs))) = set (group_members groups)"
    unfolding group_members_def set_concat set_map [of "\<lambda>(key, config, ps). ps"] by (simp only:)
  also have "\<dots> = set ps"
    using mset_eq_setD [OF group_patches_members [OF groups, simplified]] by simp
  finally show "set (group_members (map fst (visit (se_run_order env) n jobs))) = set ps" .
  fix job assume "job \<in> set (visit (se_run_order env) n jobs)"
  then have j: "job \<in> set jobs" using sets(2) by simp
  then have "parse_params env (fst job) = Ok (snd job)"
    using omap_eq_Ok_iff [THEN iffD1, OF jobs]
    by (auto simp: list_all2_conv_all_nth in_set_conv_nth obind_iffs) (metis fst_conv snd_conv)
  moreover have "fst job \<in> set groups" using j fst_jobs by auto
  ultimately show "fst job \<in> set groups \<and> parse_params env (fst job) = Ok (snd job)" by simp
qed

lemma stitch_round_join:
  assumes env: "stitch_env_ok net env" "orders_ok env" and heap: "join_heap env H P s"
    and ready: "\<And>p. p \<in> set (concat patches) \<Longrightarrow> patch_ready env H p"
    and run: "stitch_round env n patches s = (Ok r, t)"
  shows "joins env H P s t (set (concat patches)) (set (concat (case r of None \<Rightarrow> [] | Some sets \<Rightarrow> sets)))"
  using run
proof (cases rule: stitch_round_cases)
  case finished
  from group_patches_members [OF finished(1)] have "concat patches = []" by simp
  with finished heap show ?thesis by (auto intro!: joinsI [of s H H] simp del: concat_eq_Nil_conv)
next
  case (batches groups jobs r')
  from batches(4,5) obtain sets where sets: "r = Some sets" "run_batches env (visit (se_run_order env) n jobs) s = (Ok sets, t)"
    by (cases r') simp_all
  note jobs = round_jobs [OF env(2) batches(1,3)]
  have "\<forall>grp \<in> set groups. group_ok env (\<lambda>p. patch_ready env H p) grp"
    using group_patches_ok [OF batches(1), of "\<lambda>p. patch_ready env H p"] ready by simp
  then have "job_ok env (\<lambda>p. patch_ready env H p) job" if "job \<in> set (visit (se_run_order env) n jobs)" for job
    using jobs(2) [OF that] by (auto simp: job_ok_def)
  from run_batches_join [OF env(1) sets(2) heap this] show ?thesis
    unfolding jobs(1) by (simp add: sets(1))
qed simp_all

lemma stitch_from_join:
  assumes "stitch_env_ok net env" "orders_ok env"
  shows "stitch_from env n patches s = (Ok u, t) \<Longrightarrow> join_heap env H P s
    \<Longrightarrow> (\<And>p. p \<in> set (concat patches) \<Longrightarrow> patch_ready env H p)
    \<Longrightarrow> joins env H P s t (set (concat patches)) {}"
  using assms
proof (induction env n patches s arbitrary: H P rule: stitch_from.induct)
  case (1 env n patches s)
  show ?case
  proof (cases "patches = []")
    case True
    with 1(2) have "t = s" by (simp add: stitch_from.simps)
    moreover have "joins env H P s s {} {}" by (rule joinsI [of s H H]) (use 1(3) in simp_all)
    ultimately show ?thesis using True by simp
  next
    case False
    obtain r s1 where round: "stitch_round env n patches s = (r, s1)" by fastforce
    with False 1(2) obtain x where r: "r = Ok x" by (cases r) (simp_all add: stitch_from.simps [of env n])
    note j = stitch_round_join [OF 1(5,6) 1(3) 1(4) round [unfolded r]]
    show ?thesis
    proof (cases x)
      case None
      with False 1(2) round r have "s1 = t" by (simp add: stitch_from.simps [of env n])
      with j None show ?thesis by simp
    next
      case (Some sets)
      with False 1(2) round r have rest: "stitch_from env (Suc n) sets s1 = (Ok u, t)"
        by (simp add: stitch_from.simps [of env n])
      have j': "joins env H P s s1 (set (concat patches)) (set (concat sets))" using j Some by simp
      then have le: "st_next_struct s \<le> st_next_struct s1" by (rule joinsE)
      obtain H' where H': "extends s H H'" "join_heap env H' ((P - pend (set (concat patches))) \<union> pend (set (concat sets))) s1"
        "\<And>q. q \<in> set (concat sets) \<Longrightarrow> patch_ready env H' q"
        using j' by (rule joinsE) blast
      have "joins env H' ((P - pend (set (concat patches))) \<union> pend (set (concat sets))) s1 t (set (concat sets)) {}"
        by (rule 1(1) [OF False round [symmetric] r Some rest H'(2,3) 1(5,6)])
      then obtain H'' where H'': "extends s1 H' H''"
        "join_heap env H'' (((P - pend (set (concat patches))) \<union> pend (set (concat sets))) - pend (set (concat sets)) \<union> pend {}) t"
        "st_next_struct s1 \<le> st_next_struct t"
        by (rule joinsE) blast
      show ?thesis
      proof (rule joinsI)
        show "extends s H H''" by (rule extends_trans [OF H'(1) H''(1) le])
        show "join_heap env H'' (P - pend (set (concat patches)) \<union> pend {}) t"
          by (rule heap_ok_mono [OF H''(2)]) auto
      qed (use le H''(3) in auto)
    qed
  qed
qed

end
