(* ===== verification/Knit_Answer.thy ===== *)
theory Knit_Answer
  imports Knit_Join
begin

text \<open>
  What \<^verbatim>\<open>Fetch\<close> and \<^verbatim>\<open>Do\<close> (\<^verbatim>\<open>handler.go\<close>) put into the bodies of their responses. A body is
  ready when it is an error value or represents the message that the method's backend
  answered to that very request; \<open>handler_do_join\<close> shows that after stitching every body is
  ready under a typing of the store in which nothing is pending, and \<open>heap_shows\<close> turns that
  into the closed reading \<open>shows_message\<close> along the mask.
\<close>

section \<open>The calls of the methods\<close>

lemma is_error_value_formatError [simp]: "is_error_value lib (formatError lib e path res)"
  unfolding is_error_value_def by blast

definition call_answer :: "handler_env \<Rightarrow> request \<Rightarrow> method_config \<Rightarrow> pmsg \<Rightarrow> bool" where
  "call_answer env req conf m \<longleftrightarrow>
     (\<exists>msg log dm. parse_body env req conf = Ok msg \<and> he_net env log (outbound_rpc env conf msg) = Inr dm
        \<and> deferred_unmarshal (he_lib env) dm (new_message (mc_response_type conf)) = Ok m)"

definition body_ready :: "handler_env \<Rightarrow> bool \<Rightarrow> heap_typing \<Rightarrow> request \<Rightarrow> method_config \<Rightarrow> gvalue \<Rightarrow> bool" where
  "body_ready env fc H req conf w \<longleftrightarrow> catches fc req \<and> is_error_value (he_lib env) w
     \<or> (\<exists>m. call_answer env req conf m
          \<and> rep_msg (he_lib env) (he_pool env) H (mc_type_resolver conf) (rq_mask req) m w)"

definition slot_ready :: "handler_env \<Rightarrow> bool \<Rightarrow> heap_typing \<Rightarrow> request \<Rightarrow> method_config \<Rightarrow> response \<Rightarrow> error_patch option \<Rightarrow> bool" where
  "slot_ready env fc H req conf resp ep \<longleftrightarrow> body_ready env fc H req conf (rs_body resp)
     \<and> (\<forall>e. ep = Some e \<longrightarrow> catches fc req \<and> H (ep_target e) = Some ErrorHolder)"

definition job_valid :: "handler_env \<Rightarrow> request \<times> method_config \<times> schema \<times> pmsg \<Rightarrow> bool" where
  "job_valid env job \<longleftrightarrow> (case job of (req, conf, sc, msg) \<Rightarrow>
     gw_methods (he_gateway env) (rq_method req) = Some conf
     \<and> mask_ok (he_pool env) (he_gateway env) (mth_output (mc_descriptor conf)) (rq_mask req)
     \<and> parse_body env req conf = Ok msg)"

lemma response_type_desc:
  assumes "library_typed lib pool" "gateway_ok lib net pool g" "gw_methods g k = Some conf"
  shows "mt_desc (mc_response_type conf) = mth_output (mc_descriptor conf)"
proof -
  from assms(2,3) have "method_ok lib pool k conf" by (simp add: gateway_ok_def)
  then consider "mc_response_type conf = dynamic_message_type (mth_output (mc_descriptor conf))"
    | "pl_find_message lib (md_full_name (pool (mth_output (mc_descriptor conf)))) = Inr (mc_response_type conf)"
    by (auto simp: method_ok_def)
  then show ?thesis
  proof cases
    case 1
    then show ?thesis by (simp add: dynamic_message_type_def)
  next
    case 2
    from library_typedD(6) [OF assms(1) this] show ?thesis .
  qed
qed

text \<open>
  What a call prepares before it formats the response: the metadata, the struct an error is
  caught in, and the path. \<open>call_formats\<close>: the rest of the call is the formatter.
\<close>

definition call_prepare :: "handler_env \<Rightarrow> bool \<Rightarrow> request \<Rightarrow> method_config \<Rightarrow> store
    \<Rightarrow> format_env \<times> slice \<times> error_patch option \<times> store" where
  "call_prepare env fc req conf s =
     (let catch = catches fc req;
          (meta, s1) = new_meta \<lparr>rm_operations = call_operations env conf, rm_headers = propagateHeaders (he_headers env) []\<rparr> s;
          (target, s2) = (if catch then new_struct s1 else (0, s1));
          err = (if catch then Some \<lparr>ep_target = target, ep_name = ''error''\<rparr> else None);
          (path, s3) = new_slice [mth_full_name (mc_descriptor conf)] s2
      in ((format_env_of ((he_stitch env)\<lparr>se_fallback_catch := fc\<rparr>) meta err)\<lparr>fe_resolver := mc_type_resolver conf\<rparr>, path, err, s3))"

lemma call_formats:
  assumes "he_net env (st_rpcs s) (outbound_rpc env conf msg) = Inr dm"
    "deferred_unmarshal (he_lib env) dm (new_message (mc_response_type conf)) = Ok m"
    "call_prepare env fc req conf (log_rpc (outbound_rpc env conf msg) s) = (fenv, path, err, u)"
    "call_method env fc (req, conf, sc, msg) s = (Ok (resp, ep, ps), t)"
  shows "formatMessage fenv m (rq_mask req) path u = (Ok (rs_body resp, ps), t)" and "ep = err"
  using assms by (auto simp: call_method_def call_prepare_def Let_def split: prod.splits outcome.splits)

lemma call_prepare_keeps:
  assumes "call_prepare env fc req conf s = (fenv, path, err, u)"
  shows "st_structs u = (if catches fc req then (st_structs s)(st_next_struct s := Map.empty) else st_structs s)"
    "st_next_struct u = (if catches fc req then Suc (st_next_struct s) else st_next_struct s)"
    "err = (if catches fc req then Some \<lparr>ep_target = st_next_struct s, ep_name = ''error''\<rparr> else None)"
    "fe_lib fenv = he_lib env" "fe_pool fenv = he_pool env"
    "fe_upstream fenv = err" "fe_resolver fenv = mc_type_resolver conf"
  using assms
  by (auto simp: call_prepare_def Let_def new_meta_def new_struct_def new_slice_def format_env_of_def
      he_lib_def he_pool_def he_gateway_def split: if_splits)

text \<open>The struct for a caught error is typed as its holder.\<close>

lemma call_prepare_join:
  assumes "call_prepare env fc req conf s = (fenv, path, err, u)" "join_heap (he_stitch env) H P s"
  obtains H' where "extends s H H'" "join_heap (he_stitch env) H' P u" "st_next_struct s \<le> st_next_struct u"
    "\<And>e. err = Some e \<Longrightarrow> H' (ep_target e) = Some ErrorHolder"
proof (cases "catches fc req")
  case True
  note keeps = call_prepare_keeps [OF assms(1), unfolded if_P [OF True]]
  have none: "H (st_next_struct s) = None" using heap_okD(1) [OF assms(2)] by simp
  have "join_heap (he_stitch env) H P u"
    using none by (intro heap_ok_same [OF assms(2)]) (auto simp: keeps(1,2))
  then have "join_heap (he_stitch env) (H(st_next_struct s \<mapsto> ErrorHolder)) P u"
    by (rule heap_ok_add) (simp_all add: keeps(1,2) none)
  then show thesis by (rule that [rotated]) (simp_all add: extends_def keeps(2,3))
next
  case False
  note keeps = call_prepare_keeps [OF assms(1), unfolded if_not_P [OF False]]
  have "join_heap (he_stitch env) H P u" by (rule heap_ok_same [OF assms(2)]) (simp_all add: keeps(1,2))
  then show thesis by (rule that [rotated]) (simp_all add: keeps(2,3))
qed

lemma call_method_join:
  assumes env: "stitch_env_ok net (he_stitch env)" and job: "job_valid env (req, conf, sc, msg)"
    and heap: "join_heap (he_stitch env) H P s"
    and run: "call_method env fc (req, conf, sc, msg) s = (Ok (resp, ep, ps), t)"
  obtains H' where "extends s H H'" "join_heap (he_stitch env) H' (P \<union> pend (set ps)) t"
    "\<And>p. p \<in> set ps \<Longrightarrow> patch_ready (he_stitch env) H' p" "slot_ready env fc H' req conf resp ep"
    "st_next_struct s \<le> st_next_struct t"
proof -
  let ?lib = "he_lib env" and ?pool = "he_pool env" and ?g = "he_gateway env" and ?out = "outbound_rpc env conf msg"
  let ?t = "log_rpc ?out s"
  note sel = he_lib_def he_pool_def he_gateway_def
  have lib: "library_typed ?lib ?pool" and g: "gateway_ok ?lib net ?pool ?g"
    using env by (simp_all add: stitch_env_ok_def sel)
  have conf: "gw_methods ?g (rq_method req) = Some conf" "mask_ok ?pool ?g (mth_output (mc_descriptor conf)) (rq_mask req)"
    "parse_body env req conf = Ok msg"
    using job by (simp_all add: job_valid_def)
  have heap0: "join_heap (he_stitch env) H P ?t" by (rule heap_ok_same [OF heap]) (simp_all add: store_simps)
  show thesis
  proof (cases "he_net env (st_rpcs s) ?out")
    case (Inl e)
    with run have "ps = []" "ep = None" "t = ?t" "is_error_value ?lib (rs_body resp)" "catches fc req"
      by (auto simp: call_method_def Let_def split: if_splits)
    with heap0 that [of H] show thesis by (simp add: slot_ready_def body_ready_def store_simps)
  next
    case (Inr dm)
    with run obtain m where m: "deferred_unmarshal ?lib dm (new_message (mc_response_type conf)) = Ok m"
      by (auto simp: call_method_def Let_def split: outcome.splits)
    have typed: "typed_msg ?pool m" "pm_desc m = mth_output (mc_descriptor conf)"
      using deferred_unmarshal_typed [OF lib typed_new_message m] response_type_desc [OF lib g conf(1)] by auto
    obtain fenv path err u where prep: "call_prepare env fc req conf ?t = (fenv, path, err, u)" by (metis prod.collapse)
    note fe = call_prepare_keeps(4-7) [OF prep]
    note fm = call_formats(1) [OF Inr m prep run] and ep = call_formats(2) [OF Inr m prep run]
    obtain H1 where H1: "extends ?t H H1" "join_heap (he_stitch env) H1 P u" "st_next_struct ?t \<le> st_next_struct u"
      "\<And>e. err = Some e \<Longrightarrow> H1 (ep_target e) = Some ErrorHolder"
      by (rule call_prepare_join [OF prep heap0]) blast
    have "leaves fenv ?g H1 P u t (set ps) (\<lambda>H'. represents fenv H' (rq_mask req) m (rs_body resp))"
      by (rule format_leaves(1) [OF _ refl fm]) (use lib typed conf(2) H1(2) in \<open>simp_all add: fe sel\<close>)
    then obtain H' where H': "extends u H1 H'" "join_heap (he_stitch env) H' (P \<union> pend (set ps)) t"
      "\<And>p. p \<in> set ps \<Longrightarrow> patch_rep ?pool H' p"
      "rep_msg ?lib ?pool H' (mc_type_resolver conf) (rq_mask req) m (rs_body resp)"
      by (rule leavesE) (simp add: fe sel)
    have holder: "H' (ep_target e) = Some ErrorHolder" if "err = Some e" for e
      by (rule extends_Some [OF H1(2) H'(1) H1(4) [OF that]])
    have ready: "patch_ready (he_stitch env) H' p" if p: "p \<in> set ps" for p
    proof -
      from format_makes(1) [of fenv "rq_mask req" u m path] fm p obtain n where
        "patch_made fenv {} n u t p" by (auto simp: makes_def ret_patches_def)
      from made_ready [OF this H'(3) [OF p]] holder H'(3) [OF p]
      show ?thesis by (simp add: patch_ready_def sel fe err_rep_def)
    qed
    have "call_answer env req conf m" unfolding call_answer_def using conf(3) Inr m by blast
    with holder H'(4) have slot: "slot_ready env fc H' req conf resp ep"
      by (auto simp: slot_ready_def body_ready_def ep call_prepare_keeps(3) [OF prep] split: if_splits)
    have "extends s H H'"
      using extends_trans [OF H1(1) H'(1) H1(3)] by (simp add: extends_def store_simps)
    moreover have "st_next_struct s \<le> st_next_struct t"
      using H1(3) format_next(1) [OF fm] by (simp add: store_simps)
    ultimately show thesis using H'(2) ready slot that by blast
  qed
qed

text \<open>All calls, in the order in which they run.\<close>

definition result_ready ::
  "handler_env \<Rightarrow> bool \<Rightarrow> heap_typing \<Rightarrow> (nat \<times> request \<times> method_config \<times> schema \<times> pmsg) list
   \<Rightarrow> nat \<times> response \<times> error_patch option \<times> patch list \<Rightarrow> bool" where
  "result_ready env fc H jobs r \<longleftrightarrow> (case r of (i, resp, ep, ps) \<Rightarrow>
     (\<exists>req conf sc msg. (i, req, conf, sc, msg) \<in> set jobs \<and> slot_ready env fc H req conf resp ep)
     \<and> (\<forall>p \<in> set ps. patch_ready (he_stitch env) H p))"

abbreviation result_patches :: "(nat \<times> response \<times> error_patch option \<times> patch list) list \<Rightarrow> patch list" where
  "result_patches rs \<equiv> concat (map (\<lambda>(i, resp, ep, ps). ps) rs)"

lemma slot_ready_extends:
  assumes "join_heap (he_stitch env) H P s" "extends s H H'" "slot_ready env fc H req conf resp ep"
  shows "slot_ready env fc H' req conf resp ep"
  using assms(3) extends_Some [OF assms(1,2)] rep_msg_extends [OF assms(1,2)]
  unfolding slot_ready_def body_ready_def he_lib_def he_pool_def by blast

lemma result_ready_extends:
  assumes "join_heap (he_stitch env) H P s" "extends s H H'" "result_ready env fc H jobs r"
  shows "result_ready env fc H' jobs r"
  using assms(3) slot_ready_extends [OF assms(1,2)] patch_ready_extends [OF assms(1,2)]
  unfolding result_ready_def by (auto split: prod.splits) blast

lemma call_methods_join:
  assumes env: "stitch_env_ok net (he_stitch env)"
  shows "call_methods env fc jobs s = (Ok rs, t) \<Longrightarrow> \<forall>ij \<in> set jobs. job_valid env (snd ij)
    \<Longrightarrow> join_heap (he_stitch env) H P s
    \<Longrightarrow> \<exists>H'. extends s H H' \<and> join_heap (he_stitch env) H' (P \<union> pend (set (result_patches rs))) t
      \<and> (\<forall>r \<in> set rs. result_ready env fc H' jobs r) \<and> st_next_struct s \<le> st_next_struct t"
proof (induction jobs arbitrary: s H P rs)
  case Nil
  then show ?case by (auto intro!: exI [of _ H])
next
  case (Cons ij jobs)
  obtain i req conf sc msg where ij: "ij = (i, req, conf, sc, msg)" by (metis prod.collapse)
  from Cons.prems(1) obtain resp ep ps s1 rs' where
    one: "call_method env fc (req, conf, sc, msg) s = (Ok (resp, ep, ps), s1)"
    and rest: "call_methods env fc jobs s1 = (Ok rs', t)" and rs: "rs = (i, resp, ep, ps) # rs'"
    by (auto simp: ij sbind_eq_Ok_iff)
  have job: "job_valid env (req, conf, sc, msg)" using Cons.prems(2) by (simp add: ij)
  obtain H1 where H1: "extends s H H1" "join_heap (he_stitch env) H1 (P \<union> pend (set ps)) s1"
    "\<And>p. p \<in> set ps \<Longrightarrow> patch_ready (he_stitch env) H1 p" "slot_ready env fc H1 req conf resp ep"
    "st_next_struct s \<le> st_next_struct s1"
    by (rule call_method_join [OF env job Cons.prems(3) one]) blast
  have jobs: "\<forall>ij \<in> set jobs. job_valid env (snd ij)" using Cons.prems(2) by simp
  from Cons.IH [OF rest jobs H1(2)] obtain H2 where H2: "extends s1 H1 H2"
    "join_heap (he_stitch env) H2 (P \<union> pend (set ps) \<union> pend (set (result_patches rs'))) t"
    "\<forall>r \<in> set rs'. result_ready env fc H2 jobs r" "st_next_struct s1 \<le> st_next_struct t"
    by blast
  have "result_ready env fc H1 (ij # jobs) (i, resp, ep, ps)"
    using H1(3,4) by (auto simp: result_ready_def ij)
  from result_ready_extends [OF H1(2) H2(1) this]
  have "\<forall>r \<in> set rs. result_ready env fc H2 (ij # jobs) r"
    using H2(3) by (fastforce simp: rs result_ready_def)
  moreover have "extends s H H2" by (rule extends_trans [OF H1(1) H2(1) H1(5)])
  moreover have "join_heap (he_stitch env) H2 (P \<union> pend (set (result_patches rs))) t"
    using H2(2) by (simp add: rs Un_assoc)
  ultimately show ?case using H1(5) H2(4) by (intro exI [of _ H2]) simp
qed


section \<open>What Fetch and Do answer\<close>

lemma request_job_valid:
  assumes c: "computeResponseSchemas (he_lib env) (he_pool env) (he_gateway env) requests for_fetch RpcKindUnary = Ok (confs, scs)"
    and m: "omap (\<lambda>(req, conf). parse_body env req conf) (zip requests confs) = Ok msgs"
    and i: "i < length requests"
  shows "job_valid env (zip requests (zip confs (zip scs msgs)) ! i)"
    and "fst (zip requests (zip confs (zip scs msgs)) ! i) = requests ! i"
    and "fst (snd (zip requests (zip confs (zip scs msgs)) ! i))
      = the (gw_methods (he_gateway env) (rq_method (requests ! i)))"
proof -
  have l: "length confs = length requests" "length scs = length requests" "length msgs = length requests"
    using c omap_length [OF m] by (auto simp: computeResponseSchemas_Ok_iff)
  have nth: "zip requests (zip confs (zip scs msgs)) ! i = (requests ! i, confs ! i, scs ! i, msgs ! i)"
    using i l by simp
  have ok: "request_ok (he_lib env) (he_pool env) (he_gateway env) for_fetch RpcKindUnary (requests ! i)"
    using c i by (simp add: computeResponseSchemas_Ok_iff)
  have conf: "confs ! i = the (gw_methods (he_gateway env) (rq_method (requests ! i)))"
    using c i by (simp add: computeResponseSchemas_Ok_iff)
  have "parse_body env (requests ! i) (confs ! i) = Ok (msgs ! i)"
    using omap_nth [OF m, of i] i l by simp
  with ok conf show "job_valid env (zip requests (zip confs (zip scs msgs)) ! i)"
    unfolding nth by (auto simp: job_valid_def request_ok_def split: option.splits)
  show "fst (zip requests (zip confs (zip scs msgs)) ! i) = requests ! i"
    "fst (snd (zip requests (zip confs (zip scs msgs)) ! i)) = the (gw_methods (he_gateway env) (rq_method (requests ! i)))"
    using conf by (simp_all add: nth)
qed

lemma final_body_ready:
  assumes "join_heap (he_stitch env) H P t" "slot_ready env fc H req conf resp ep"
  shows "body_ready env fc H req conf (rs_body (final_body t resp ep))"
proof (cases ep)
  case None
  with assms(2) show ?thesis by (simp add: final_body_def slot_ready_def)
next
  case (Some e)
  show ?thesis
  proof (cases "st_structs t (ep_target e) (ep_name e)")
    case None
    with Some assms(2) show ?thesis by (simp add: final_body_def slot_ready_def)
  next
    case (Some w)
    from assms(2) \<open>ep = Some e\<close> have "H (ep_target e) = Some ErrorHolder" by (simp add: slot_ready_def)
    from heap_okD(3) [OF assms(1) this, of w] Some have "is_error_value (he_lib env) w"
      by (auto simp: ran_def he_lib_def)
    with Some \<open>ep = Some e\<close> assms(2) show ?thesis by (simp add: final_body_def body_ready_def slot_ready_def)
  qed
qed

lemma heap_ok_empty [simp]: "heap_ok lib pool g Map.empty P s"
  by (rule heap_okI) simp_all

text \<open>The results of the calls by the index of their request: each once, whatever the order.\<close>

lemma results_indexed:
  assumes order: "call_order_ok env"
    and keys: "map fst results = filter (\<lambda>i. i < n) (he_call_order env n)"
  shows "i < n \<Longrightarrow> (i, the (map_of results i)) \<in> set results"
    and "set (concat (map (\<lambda>i. snd (snd (the (map_of results i)))) [0..<n])) = set (result_patches results)"
proof -
  have m: "mset (he_call_order env n) = mset [0..<n]" using order by (simp add: call_order_ok_def)
  have set: "set (map fst results) = {0..<n}" using mset_eq_setD [OF m] by (auto simp: keys)
  have "distinct (he_call_order env n)" using mset_eq_imp_distinct_iff [OF m] by simp
  then have distinct: "distinct (map fst results)" unfolding keys by simp
  show slot: "(i, the (map_of results i)) \<in> set results" if "i < n" for i
  proof -
    have "i \<in> set (map fst results)" using that set by simp
    then obtain x where "map_of results i = Some x"
      by (cases "map_of results i") (auto simp: map_of_eq_None_iff)
    then show ?thesis using map_of_SomeD by fastforce
  qed
  show "set (concat (map (\<lambda>i. snd (snd (the (map_of results i)))) [0..<n])) = set (result_patches results)"
  proof (intro equalityI subsetI)
    fix p assume "p \<in> set (concat (map (\<lambda>i. snd (snd (the (map_of results i)))) [0..<n]))"
    then obtain i where i: "i < n" "p \<in> set (snd (snd (the (map_of results i))))" by auto
    from slot [OF i(1)] i(2) show "p \<in> set (result_patches results)"
      by (cases "the (map_of results i)") force
  next
    fix p assume "p \<in> set (result_patches results)"
    then obtain i resp ep ps where x: "(i, resp, ep, ps) \<in> set results" "p \<in> set ps" by auto
    from map_of_is_SomeI [OF distinct x(1)] have "map_of results i = Some (resp, ep, ps)" .
    moreover have "i \<in> set (map fst results)" using x(1) by force
    ultimately show "p \<in> set (concat (map (\<lambda>i. snd (snd (the (map_of results i)))) [0..<n]))"
      using x(2) set by force
  qed
qed

lemma handler_do_join:
  assumes env: "stitch_env_ok net (he_stitch env)" "orders_ok (he_stitch env)" "call_order_ok env"
    and run: "handler_do env requests for_fetch s = (Ok resps, t)"
  obtains H where "join_heap (he_stitch env) H {} t"
    "\<And>i. i < length requests \<Longrightarrow> body_ready env (\<not> for_fetch) H (requests ! i)
       (the (gw_methods (he_gateway env) (rq_method (requests ! i)))) (rs_body (resps ! i))"
proof -
  from run obtain confs scs msgs results t1 where
    c: "computeResponseSchemas (he_lib env) (he_pool env) (he_gateway env) requests for_fetch RpcKindUnary = Ok (confs, scs)"
    and m: "omap (\<lambda>(req, conf). parse_body env req conf) (zip requests confs) = Ok msgs"
    and r: "call_methods env (\<not> for_fetch) (map (\<lambda>i. (i, zip requests (zip confs (zip scs msgs)) ! i))
       (filter (\<lambda>i. i < length requests) (he_call_order env (length requests)))) s = (Ok results, t1)"
    and st: "stitch ((he_stitch env)\<lparr>se_fallback_catch := \<not> for_fetch\<rparr>)
       (map (\<lambda>i. snd (snd (the (map_of results i)))) [0..<length requests]) t1 = (Ok (), t)"
    and resps: "resps = map (\<lambda>i. final_body t (fst (the (map_of results i))) (fst (snd (the (map_of results i)))))
       [0..<length requests]"
    by (rule handler_do_Ok)
  let ?jobs = "map (\<lambda>i. (i, zip requests (zip confs (zip scs msgs)) ! i))
       (filter (\<lambda>i. i < length requests) (he_call_order env (length requests)))"
  let ?senv = "(he_stitch env)\<lparr>se_fallback_catch := \<not> for_fetch\<rparr>"
  have jobs: "\<forall>ij \<in> set ?jobs. job_valid env (snd ij)"
    using request_job_valid(1) [OF c m] by auto
  obtain H1 where H1: "join_heap (he_stitch env) H1 ({} \<union> pend (set (result_patches results))) t1"
    "\<forall>r \<in> set results. result_ready env (\<not> for_fetch) H1 ?jobs r"
    using call_methods_join [OF env(1) r jobs heap_ok_empty] by blast
  have "map fst results = filter (\<lambda>i. i < length requests) (he_call_order env (length requests))"
    using call_methods_Ok(1) [OF r] by (simp add: comp_def)
  note slot = results_indexed(1) [OF env(3) this] and all = results_indexed(2) [OF env(3) this]
  have ready: "patch_ready ?senv H1 p" if "p \<in> set (result_patches results)" for p
  proof -
    from that obtain i resp ep ps where "(i, resp, ep, ps) \<in> set results" "p \<in> set ps" by auto
    with H1(2) show ?thesis by (fastforce simp: result_ready_def patch_ready_def)
  qed
  have senv: "stitch_env_ok net ?senv" "orders_ok ?senv"
    using env(1,2) by (simp_all add: stitch_env_ok_def orders_ok_def)
  have "joins ?senv H1 ({} \<union> pend (set (result_patches results))) t1 t (set (result_patches results)) {}"
    using stitch_from_join [OF senv st [unfolded stitch_def]] ready H1(1) unfolding all by simp
  then obtain H where H: "extends t1 H1 H" "join_heap (he_stitch env) H {} t"
    by (rule joinsE) simp
  have "body_ready env (\<not> for_fetch) H (requests ! i) (the (gw_methods (he_gateway env) (rq_method (requests ! i)))) (rs_body (resps ! i))"
    if i: "i < length requests" for i
  proof -
    obtain resp ep ps where x: "the (map_of results i) = (resp, ep, ps)" by (metis prod.collapse)
    from slot [OF i] x H1(2) have "result_ready env (\<not> for_fetch) H1 ?jobs (i, resp, ep, ps)" by fastforce
    then obtain req conf sc msg where j: "(i, req, conf, sc, msg) \<in> set ?jobs"
      "slot_ready env (\<not> for_fetch) H1 req conf resp ep"
      unfolding result_ready_def prod.case by blast
    from j(1) have "zip requests (zip confs (zip scs msgs)) ! i = (req, conf, sc, msg)" by auto
    with request_job_valid(2,3) [OF c m i] have
      eq: "req = requests ! i" "conf = the (gw_methods (he_gateway env) (rq_method (requests ! i)))" by simp_all
    have "slot_ready env (\<not> for_fetch) H req conf resp ep" by (rule slot_ready_extends [OF H1(1) H(1) j(2)])
    from final_body_ready [OF H(2) this] show ?thesis using i x by (simp add: resps eq)
  qed
  with H(2) that show thesis by blast
qed


section \<open>The value a message is shown as\<close>

lemma entry_shows_relation:
  assumes "entry_shows lib pool g R p res m f x" "\<And>res m w. R res (mf_mask f) m w \<Longrightarrow> R' res (mf_mask f) m w"
  shows "entry_shows lib pool g R' p res m f x"
  using assms(1) rep_value_mono [of lib _ "R res (mf_mask f)" _ _ "R' res (mf_mask f)", OF _ assms(2)]
    rep_value_mono [of lib _ "R (gw_type_resolver g) (mf_mask f)" _ _ "R' (gw_type_resolver g) (mf_mask f)", OF _ assms(2)]
  by (auto simp: entry_shows_def split: option.splits)

function shows_message ::
  "protolib \<Rightarrow> desc_pool \<Rightarrow> gateway \<Rightarrow> store \<Rightarrow> resolver \<Rightarrow> mask_field list \<Rightarrow> pmsg \<Rightarrow> gvalue \<Rightarrow> bool" where
  "shows_message lib pool g s res msk m w \<longleftrightarrow>
     (if well_known pool m then wkt_value lib pool res m w
      else \<exists>a. w = VStruct a \<and> dom (st_structs s a) \<subseteq> mf_name ` set msk
        \<and> (\<forall>f \<in> set msk. entry_shows lib pool g (\<lambda>res' _ m' w'. shows_message lib pool g s res' (mf_mask f) m' w')
              False res m f (st_structs s a (mf_name f))))"
  by pat_completeness auto

termination
  by (relation "measure (\<lambda>(lib, pool, g, s, res, msk, m, w). size_list size msk)")
    (auto intro: order_less_trans [OF mf_mask_smaller size_mem_list])

declare shows_message.simps [simp del]

text \<open>Under a typing with nothing left to settle, a represented message is shown.\<close>

lemma heap_shows:
  assumes h: "heap_ok lib pool g H {} s"
  shows "rep_msg lib pool H res msk m w \<Longrightarrow> shows_message lib pool g s res msk m w"
proof (induction "size_list size msk" arbitrary: res msk m w rule: less_induct)
  case less
  show ?case
  proof (cases "well_known pool m")
    case True
    with less.prems show ?thesis by (simp add: rep_msg_def shows_message.simps [of lib pool])
  next
    case False
    with less.prems obtain a where a: "w = VStruct a" "H a = Some (Formatted res m msk)"
      by (auto simp: rep_msg_def)
    from heap_okD(2) [OF h a(2)] have
      c: "struct_shows lib pool g (rep_msg lib pool H) (\<lambda>f. (a, f) \<in> {}) res msk m (st_structs s a)" by simp
    have "entry_shows lib pool g (\<lambda>res' _ m' w'. shows_message lib pool g s res' (mf_mask f) m' w')
              False res m f (st_structs s a (mf_name f))" if f: "f \<in> set msk" for f
    proof (rule entry_shows_relation)
      show "entry_shows lib pool g (rep_msg lib pool H) False res m f (st_structs s a (mf_name f))"
        using c f by (simp add: struct_shows_def)
      fix res' m' w' assume "rep_msg lib pool H res' (mf_mask f) m' w'"
      with less.hyps [of "mf_mask f"] f show "shows_message lib pool g s res' (mf_mask f) m' w'"
        using order_less_trans [OF mf_mask_smaller size_mem_list [OF f]] by blast
    qed
    with a(1) c False show ?thesis
      by (subst shows_message.simps) (simp add: struct_shows_def)
  qed
qed

end
