(* ===== verification/Knit_Conform.thy ===== *)
theory Knit_Conform
  imports Knit_Answer
begin

text \<open>
  The schema that \<^verbatim>\<open>schema.go\<close> computes before anything is called describes the bodies that
  \<^verbatim>\<open>format.go\<close> and \<^verbatim>\<open>stitcher.go\<close> make later: a value that shows a conforming message under a
  valid mask conforms to the schema of that mask (\<open>shows_message_conforms\<close>).
\<close>

section \<open>Values of a scalar type\<close>

definition is_text :: "gvalue \<Rightarrow> bool" where
  "is_text w = (case w of VString t \<Rightarrow> True | _ \<Rightarrow> False)"

definition is_number :: "gvalue \<Rightarrow> bool" where
  "is_number w = (case w of VNumber f \<Rightarrow> True | _ \<Rightarrow> False)"

definition is_float :: "gvalue \<Rightarrow> bool" where
  "is_float w \<longleftrightarrow> is_number w \<or> w \<in> VString ` {''NaN'', ''Infinity'', ''-Infinity''}"

definition scalar_value :: "scalar_type \<Rightarrow> gvalue \<Rightarrow> bool" where
  "scalar_value st w \<longleftrightarrow> (case st of
     ST_BOOL \<Rightarrow> w \<in> range VBool
   | ST_INT32 \<Rightarrow> is_number w
   | ST_UINT32 \<Rightarrow> is_number w
   | ST_INT64 \<Rightarrow> (\<exists>i. w = VString (format_int i))
   | ST_UINT64 \<Rightarrow> (\<exists>i. w = VString (format_uint i))
   | ST_FLOAT \<Rightarrow> is_float w
   | ST_DOUBLE \<Rightarrow> is_float w
   | ST_STRING \<Rightarrow> is_text w
   | ST_BYTES \<Rightarrow> (\<exists>bs. w = VString (base64_encode True bs))
   | ST_NULL \<Rightarrow> w = VNull
   | ST_ENUM \<Rightarrow> is_text w \<or> is_number w
   | _ \<Rightarrow> False)"

definition key_value :: "scalar_type \<Rightarrow> string \<Rightarrow> bool" where
  "key_value st k \<longleftrightarrow>
     (if st \<in> {ST_INT32, ST_INT64} then \<exists>i. k = format_int i
      else if st \<in> {ST_UINT32, ST_UINT64} then \<exists>i. k = format_uint i
      else if st = ST_BOOL then k \<in> range format_bool
      else st = ST_STRING)"

text \<open>The shape that the rendering of a well-known type has.\<close>

definition wkt_shape :: "string \<Rightarrow> gvalue \<Rightarrow> bool" where
  "wkt_shape name w \<longleftrightarrow>
     (if name = anyName \<or> name = structName then w \<in> range VObject
      else if name = listValueName then w \<in> range VList
      else if name = boolValueName then scalar_value ST_BOOL w
      else if name = int32ValueName then scalar_value ST_INT32 w
      else if name = int64ValueName then scalar_value ST_INT64 w
      else if name = uint32ValueName then scalar_value ST_UINT32 w
      else if name = uint64ValueName then scalar_value ST_UINT64 w
      else if name = floatValueName then scalar_value ST_FLOAT w
      else if name = doubleValueName then scalar_value ST_DOUBLE w
      else if name = bytesValueName then scalar_value ST_BYTES w
      else name = valueName \<or> is_text w)"

lemma formatFloat_shape: "is_float (formatFloat f)"
  by (cases f) (simp_all add: formatFloat_def is_float_def is_number_def)

lemma format_scalar_shape:
  assumes "format_scalar lib fd v path = Ok w" "scalar_of fd = Some st"
  shows "scalar_value st w"
  using assms
  by (cases "fd_kind fd"; cases v)
    (auto simp: format_scalar_def scalar_of_def Let_def scalar_value_def formatFloat_shape is_number_def is_text_def
      split: if_splits option.splits)

lemma formatMapKeyValue_shape:
  assumes "formatMapKeyValue lib (fd_kind k) key path = Ok t" "scalar_of k = Some st"
    "st \<in> set allowedMapKeyTypes"
  shows "key_value st t"
  using assms
  by (cases "fd_kind k"; cases key)
    (auto simp: formatMapKeyValue_def scalar_of_def Let_def key_value_def allowedMapKeyTypes_def split: if_splits)

text \<open>
  A generated type's struct is of the type asked for (\<^verbatim>\<open>as[T]\<close> returns a \<^verbatim>\<open>T\<close>).
\<close>

definition as_struct_named :: "protolib \<Rightarrow> bool" where
  "as_struct_named lib \<longleftrightarrow> (\<forall>name bs g. pl_as_struct lib name bs = Inr g \<longrightarrow> go_struct_name g = name)"

lemma as_type_name:
  assumes "as_struct_named lib" "as_type lib pool name m = Ok g"
  shows "go_struct_name g = name"
  using assms by (auto simp: as_type_def as_struct_named_def Let_def obind_iffs of_sum_def
      split: go_type.splits if_splits sum.splits)

lemma formatAny_shape: "formatAny lib u b res = Ok w \<Longrightarrow> w \<in> range VObject"
  by (cases "json_value_of lib res u b") (auto simp: formatAny_def split: gvalue.splits)

lemma format_go_struct_shape:
  assumes "format_go_struct lib res g = Ok w"
  shows "wkt_shape (go_struct_name g) w"
  using assms
  by (cases g) (auto simp: format_go_struct_def wkt_shape_def type_name_defs scalar_value_def is_number_def is_text_def
      formatFloat_shape formatFieldMask_def formatAny_shape split: prod.splits)

lemma wkt_value_shape:
  "as_struct_named lib \<Longrightarrow> wkt_value lib pool res m w \<Longrightarrow> wkt_shape (md_full_name (pool (pm_desc m))) w"
  unfolding wkt_value_def using as_type_name format_go_struct_shape by metis


section \<open>Values of a schema\<close>

lemma sf_type_smaller: "f \<in> set fs \<Longrightarrow> size (sf_type f) < size (Schema name fs)"
proof (induction fs)
  case (Cons g fs)
  then show ?case by (cases g) auto
qed simp

text \<open>
  A value conforms to a schema: every key of a struct is the mask's name of a field of the
  schema, and its value is an error or of the field's type. The schema spells a name in its
  JSON form, the struct as the mask spells it.
\<close>

function (sequential) conforms :: "protolib \<Rightarrow> store \<Rightarrow> schema \<Rightarrow> gvalue \<Rightarrow> bool"
  and conforms_type :: "protolib \<Rightarrow> store \<Rightarrow> field_type \<Rightarrow> gvalue \<Rightarrow> bool"
  and conforms_elem :: "protolib \<Rightarrow> store \<Rightarrow> element_type \<Rightarrow> gvalue \<Rightarrow> bool"
where
  "conforms lib s (Schema name fs) w =
     (if name \<in> set wellKnownTypes then wkt_shape name w
      else \<exists>a. w = VStruct a \<and> (\<forall>k x. st_structs s a k = Some x \<longrightarrow>
         is_error_value lib x \<or> (\<exists>f \<in> set fs. sf_name f = camelCase k \<and> conforms_type lib s (sf_type f) x)))"
| "conforms_type lib s (TScalar st) w = scalar_value st w"
| "conforms_type lib s (TMessage sc) w = conforms lib s sc w"
| "conforms_type lib s (TRepeated el) w = (\<exists>ws. w = VList ws \<and> (\<forall>x \<in> set ws. conforms_elem lib s el x))"
| "conforms_type lib s (TMap key el) w =
     (\<exists>kvs. w = VObject kvs \<and> (\<forall>(k, x) \<in> set kvs. key_value key k \<and> conforms_elem lib s el x))"
| "conforms_elem lib s (EScalar st) w = scalar_value st w"
| "conforms_elem lib s (EMessage sc) w = conforms lib s sc w"
  by pat_completeness auto

termination
  by (relation "measure (\<lambda>x. case x of Inl (_, _, sc, _) \<Rightarrow> size sc | Inr (Inl (_, _, ft, _)) \<Rightarrow> size ft
        | Inr (Inr (_, _, el, _)) \<Rightarrow> size el)")
    (auto dest: sf_type_smaller)


declare conforms.simps [simp del]

abbreviation element_schema :: "desc_pool \<Rightarrow> gateway \<Rightarrow> field_desc \<Rightarrow> mask_field list \<Rightarrow> element_type" where
  "element_schema pool g fd msk \<equiv>
     (if isMessage (fd_kind fd) then EMessage (schema_of pool g (fd_message fd) msk)
      else EScalar (case scalar_of fd of Some sc \<Rightarrow> sc | None \<Rightarrow> ST_UNSPECIFIED))"

lemma rep_elem_conforms:
  assumes "rep_elem lib fd R v w" "typed_elem pool fd v" "isMessage (fd_kind fd) \<or> scalar_of fd \<noteq> None"
    "\<And>m w. R m w \<Longrightarrow> typed_msg pool m \<Longrightarrow> isMessage (fd_kind fd) \<Longrightarrow> pm_desc m = fd_message fd
      \<Longrightarrow> conforms lib s (schema_of pool g (fd_message fd) msk) w"
  shows "conforms_elem lib s (element_schema pool g fd msk) w"
proof (cases "isMessage (fd_kind fd)")
  case True
  with assms(1,2) assms(4) show ?thesis by (auto simp: rep_elem_def typed_elem_message)
next
  case False
  with assms(1,3) format_scalar_shape show ?thesis by (auto simp: rep_elem_def)
qed

lemma list_all2_right: "list_all2 P xs ys \<Longrightarrow> y \<in> set ys \<Longrightarrow> \<exists>x \<in> set xs. P x y"
  by (induction rule: list_all2_induct) auto

lemma set_update_fold: "set (fold (\<lambda>(k, v). AList.update k v) es kvs) \<subseteq> set es \<union> set kvs"
proof (induction es arbitrary: kvs)
  case (Cons e es)
  have "set (AList.update (fst e) (snd e) kvs) \<subseteq> insert e (set kvs)"
    by (induction kvs) auto
  with Cons [of "AList.update (fst e) (snd e) kvs"] show ?case by (auto simp: case_prod_beta)
qed simp

lemma rep_value_conforms:
  assumes "rep_value lib fd R v w" "typed_value pool fd v" "entry_field pool g d f = Some fd" "entry_ok pool g d f"
    "\<And>m w. R m w \<Longrightarrow> typed_msg pool m \<Longrightarrow> mask_ok pool g (pm_desc m) (mf_mask f)
      \<Longrightarrow> conforms lib s (schema_of pool g (pm_desc m) (mf_mask f)) w"
  shows "conforms_type lib s (sf_type (field_schema pool g d f)) w"
proof -
  have ok: "map_key_ok fd" "isMessage (fd_kind (elem_desc fd)) \<Longrightarrow> mask_ok pool g (fd_message (elem_desc fd)) (mf_mask f)"
    "isMessage (fd_kind (elem_desc fd)) \<or> scalar_of (elem_desc fd) \<noteq> None"
    using assms(3,4) by (auto simp: entry_ok.simps split: if_splits)
  have elem: "conforms_elem lib s (element_schema pool g (elem_desc fd) (mf_mask f)) y"
    if "rep_elem lib (elem_desc fd) R x y" "typed_elem pool (elem_desc fd) x" for x y
    by (rule rep_elem_conforms [OF that ok(3)]) (use assms(5) ok(2) in metis)
  show ?thesis
  proof (cases "fd_shape fd")
    case Singular
    then have el: "elem_desc fd = fd" by (simp add: elem_desc_def)
    from assms(1,2) Singular have "conforms_elem lib s (element_schema pool g fd (mf_mask f)) w"
      using elem [unfolded el] by (simp add: rep_value_def typed_value.simps)
    with assms(3) Singular el show ?thesis by (auto simp: field_schema.simps Let_def split: if_splits)
  next
    case Repeated
    then have el: "elem_desc fd = fd" by (simp add: elem_desc_def)
    from assms(1) Repeated obtain xs ws where v: "v = PList xs" "list_all2 (rep_elem lib fd R) xs ws" "w = VList ws"
      by (auto simp: rep_value_def)
    from assms(2) Repeated v(1) have xs: "\<forall>x \<in> set xs. typed_elem pool fd x" by (simp add: typed_value_list)
    have "conforms_elem lib s (element_schema pool g fd (mf_mask f)) y" if y: "y \<in> set ws" for y
    proof -
      obtain x where "x \<in> set xs" "rep_elem lib fd R x y"
        using list_all2_right [OF v(2) y] by blast
      with elem [unfolded el] xs show ?thesis by blast
    qed
    with assms(3) Repeated el v(3) show ?thesis by (auto simp: field_schema.simps Let_def)
  next
    case (MapOf k mv)
    then have el: "elem_desc fd = mv" by (simp add: elem_desc_def)
    from ok(1) MapOf obtain st where st: "scalar_of k = Some st" "st \<in> set allowedMapKeyTypes"
      by (auto simp: map_key_ok_def split: option.splits)
    from assms(1) MapOf obtain kvs es where v: "v = PMap kvs" "list_all2 (rep_entry lib (fd_kind k) mv R) kvs es"
      "w = VObject (fold (\<lambda>(k, v). AList.update k v) es [])"
      by (auto simp: rep_value_def)
    from assms(2) MapOf v(1) have kvs: "\<forall>(key, x) \<in> set kvs. typed_elem pool mv x"
      by (fastforce simp: typed_value_map)
    have entry: "key_value st (fst e) \<and> conforms_elem lib s (element_schema pool g mv (mf_mask f)) (snd e)"
      if e: "e \<in> set es" for e
    proof -
      obtain kx where kx: "kx \<in> set kvs" "rep_entry lib (fd_kind k) mv R kx e"
        using list_all2_right [OF v(2) e] by blast
      with elem [unfolded el, of "snd kx" "snd e"] kvs formatMapKeyValue_shape [OF _ st]
      show ?thesis by (auto simp: rep_entry_def)
    qed
    have "set (fold (\<lambda>(k, v). AList.update k v) es []) \<subseteq> set es"
      using set_update_fold [of es "[]"] by simp
    with entry have "\<forall>(t, x) \<in> set (fold (\<lambda>(k, v). AList.update k v) es []).
        key_value st t \<and> conforms_elem lib s (element_schema pool g mv (mf_mask f)) x" by fastforce
    with assms(3) MapOf el v(3) st show ?thesis by (auto simp: field_schema.simps Let_def)
  qed
qed

lemma answered_typed:
  assumes "library_typed lib pool" "gateway_ok lib net pool g" "relation_named pool g m f = Some cfg"
    "answered lib g cfg f m (Some v)"
  shows "typed_value pool (rc_descriptor cfg) v"
proof -
  from assms(2,3) obtain client where "getRelationConfig lib net pool (rc_method cfg) (rc_name cfg) client = Ok cfg"
    unfolding gateway_ok_def relation_ok_def by blast
  note ens = newRemoteResolver_ensures [OF assms(1) this]
  from assms(4) obtain params meta bases s vals t i where
    run: "rc_resolver cfg meta bases params s = (Ok vals, t)" and i: "length vals = length bases" "i < length bases" "vals ! i = Some v"
    by (auto simp: answered_def)
  from ens [of meta bases params s] run have "values_ok pool (rc_descriptor cfg) bases vals"
    by (simp add: ensures_def)
  with i show ?thesis using nth_mem [of i vals] by (simp add: values_ok_def)
qed

lemma shows_message_conforms:
  assumes lib: "library_typed lib pool" "as_struct_named lib" and g: "gateway_ok lib net pool g"
  shows "shows_message lib pool g s res msk m w \<Longrightarrow> typed_msg pool m \<Longrightarrow> mask_ok pool g (pm_desc m) msk
    \<Longrightarrow> conforms lib s (schema_of pool g (pm_desc m) msk) w"
proof (induction "size_list size msk" arbitrary: res msk m w rule: less_induct)
  case less
  show ?case
  proof (cases "well_known pool m")
    case True
    with less.prems(1) wkt_value_shape [OF lib(2)] show ?thesis
      by (simp add: shows_message.simps [of lib] schema_of.simps conforms.simps)
  next
    case False
    with less.prems(1) obtain a where a: "w = VStruct a" "dom (st_structs s a) \<subseteq> mf_name ` set msk"
      and e: "\<And>f. f \<in> set msk \<Longrightarrow> entry_shows lib pool g (\<lambda>res' _ m' w'. shows_message lib pool g s res' (mf_mask f) m' w')
              False res m f (st_structs s a (mf_name f))"
      by (subst (asm) shows_message.simps) auto
    have "is_error_value lib x \<or> (\<exists>sf \<in> set (map (field_schema pool g (pm_desc m)) msk).
        sf_name sf = camelCase k \<and> conforms_type lib s (sf_type sf) x)" if k: "st_structs s a k = Some x" for k x
    proof -
      from k a(2) obtain f where f: "f \<in> set msk" "k = mf_name f" by blast
      from less.prems(3) False f(1) have ok: "entry_ok pool g (pm_desc m) f" by (simp add: mask_ok.simps)
      have sub: "conforms lib s (schema_of pool g (pm_desc m') (mf_mask f)) w'"
        if "shows_message lib pool g s res' (mf_mask f) m' w'" "typed_msg pool m'" "mask_ok pool g (pm_desc m') (mf_mask f)"
        for res' m' w'
        using less.hyps [OF order_less_trans [OF mf_mask_smaller size_mem_list [OF f(1)]] that] .
      have name: "sf_name (field_schema pool g (pm_desc m) f) = camelCase k"
        by (auto simp: field_schema.simps f(2) Let_def split: option.split)
      have "is_error_value lib x \<or> conforms_type lib s (sf_type (field_schema pool g (pm_desc m) f)) x"
      proof (cases "field_named pool m f")
        case (Some fd)
        with e [OF f(1)] k f(2) have rep: "rep_value lib fd (shows_message lib pool g s res (mf_mask f)) (pm_get lib m fd) x"
          by (simp add: entry_shows_def)
        have field: "entry_field pool g (pm_desc m) f = Some fd" using Some by (simp add: entry_field_def)
        note value_typed = pm_get_typed [OF lib(1) less.prems(2) fieldWithCamelCaseName_in_set [OF Some]]
        show ?thesis by (intro disjI2 rep_value_conforms [OF rep value_typed field ok]) (rule sub)
      next
        case None
        with e [OF f(1)] obtain cfg where cfg: "relation_named pool g m f = Some cfg"
          by (auto simp: entry_shows_def split: option.splits)
        have field: "entry_field pool g (pm_desc m) f = Some (rc_descriptor cfg)"
          using ok None cfg by (auto simp: entry_field_def entry_ok.simps split: option.splits if_splits)
        show ?thesis
        proof (cases "is_error_value lib x")
          case False
          with e [OF f(1)] None cfg k f(2) obtain v where v: "answered lib g cfg f m (Some v)"
            "rep_value lib (rc_descriptor cfg) (shows_message lib pool g s (gw_type_resolver g) (mf_mask f)) v x"
            by (auto simp: entry_shows_def)
          show ?thesis
            by (intro disjI2 rep_value_conforms [OF v(2) answered_typed [OF lib(1) g cfg v(1)] field ok]) (rule sub)
        qed simp
      qed
      with name f(1) show ?thesis by auto
    qed
    with a(1) False show ?thesis by (simp add: schema_of.simps conforms.simps)
  qed
qed

section \<open>The responses\<close>

lemma call_answer_typed:
  assumes "stitch_env_ok net (he_stitch env)" "gw_methods (he_gateway env) k = Some conf" "call_answer env req conf m"
  shows "typed_msg (he_pool env) m" "pm_desc m = mth_output (mc_descriptor conf)"
proof -
  have env: "library_typed (he_lib env) (he_pool env)" "gateway_ok (he_lib env) net (he_pool env) (he_gateway env)"
    using assms(1) by (simp_all add: stitch_env_ok_def he_lib_def he_pool_def he_gateway_def)
  from assms(3) obtain dm where "deferred_unmarshal (he_lib env) dm (new_message (mc_response_type conf)) = Ok m"
    by (auto simp: call_answer_def)
  from deferred_unmarshal_typed [OF env(1) typed_new_message this] response_type_desc [OF env assms(2)]
  show "typed_msg (he_pool env) m" "pm_desc m = mth_output (mc_descriptor conf)" by auto
qed

abbreviation request_config :: "handler_env \<Rightarrow> request \<Rightarrow> method_config" where
  "request_config env req \<equiv> the (gw_methods (he_gateway env) (rq_method req))"

lemma handler_do_shows:
  assumes "stitch_env_ok net (he_stitch env)" "orders_ok (he_stitch env)" "call_order_ok env"
    "handler_do env requests for_fetch s = (Ok resps, t)" "i < length requests"
  shows "catches (\<not> for_fetch) (requests ! i) \<and> is_error_value (he_lib env) (rs_body (resps ! i))
    \<or> (\<exists>m. call_answer env (requests ! i) (request_config env (requests ! i)) m
        \<and> shows_message (he_lib env) (he_pool env) (he_gateway env) t
            (mc_type_resolver (request_config env (requests ! i))) (rq_mask (requests ! i)) m (rs_body (resps ! i)))"
proof -
  obtain H where H: "join_heap (he_stitch env) H {} t"
    "body_ready env (\<not> for_fetch) H (requests ! i) (request_config env (requests ! i)) (rs_body (resps ! i))"
    by (rule handler_do_join [OF assms(1-4)]) (use assms(5) in blast)
  from heap_shows [OF H(1)] H(2) show ?thesis
    unfolding body_ready_def he_lib_def he_pool_def he_gateway_def by blast
qed

lemma handler_do_conforms:
  assumes env: "stitch_env_ok net (he_stitch env)" "orders_ok (he_stitch env)" "call_order_ok env"
    and named: "as_struct_named (he_lib env)"
    and run: "handler_do env requests for_fetch s = (Ok resps, t)" "i < length requests"
  shows "\<exists>sc. rs_schema (resps ! i) = Some sc
    \<and> (catches (\<not> for_fetch) (requests ! i) \<and> is_error_value (he_lib env) (rs_body (resps ! i))
       \<or> conforms (he_lib env) t sc (rs_body (resps ! i)))"
proof -
  let ?conf = "request_config env (requests ! i)"
  have sc: "rs_schema (resps ! i) = Some (schema_of (he_pool env) (he_gateway env) (mth_output (mc_descriptor ?conf)) (rq_mask (requests ! i)))"
    and ok: "request_ok (he_lib env) (he_pool env) (he_gateway env) for_fetch RpcKindUnary (requests ! i)"
    using handler_do_responses [OF env(3) run(1)] run(2) by auto
  from ok have conf: "gw_methods (he_gateway env) (rq_method (requests ! i)) = Some ?conf"
    "mask_ok (he_pool env) (he_gateway env) (mth_output (mc_descriptor ?conf)) (rq_mask (requests ! i))"
    by (auto simp: request_ok_def split: option.splits)
  have lib: "library_typed (he_lib env) (he_pool env)" "gateway_ok (he_lib env) net (he_pool env) (he_gateway env)"
    using env(1) by (simp_all add: stitch_env_ok_def he_lib_def he_pool_def he_gateway_def)
  have "conforms (he_lib env) t (schema_of (he_pool env) (he_gateway env) (mth_output (mc_descriptor ?conf)) (rq_mask (requests ! i)))
      (rs_body (resps ! i))"
    if "call_answer env (requests ! i) ?conf m" "shows_message (he_lib env) (he_pool env) (he_gateway env) t
            (mc_type_resolver ?conf) (rq_mask (requests ! i)) m (rs_body (resps ! i))" for m
    using shows_message_conforms [OF lib(1) named lib(2) that(2)] call_answer_typed [OF env(1) conf(1) that(1)] conf(2)
    by simp
  with handler_do_shows [OF env run] sc show ?thesis by blast
qed

end
