(* ===== verification/Knit_Example.thy ===== *)
theory Knit_Example
  imports Knit_Handler
begin

text \<open>
  A small concrete gateway: a user service with the method \<^verbatim>\<open>GetUser\<close> and the resolver
  \<^verbatim>\<open>GetPosts\<close> of the relation \<^verbatim>\<open>posts\<close> of a user, its descriptors, a backend and instances of
  the library functions that are enough for it. The properties of the development are
  instantiated on it, so that their hypotheses are seen to hold of something.
\<close>

section \<open>Descriptors\<close>

definition demo_enum :: enum_desc where
  "demo_enum = \<lparr>en_full_name = ''demo.Color'', en_values = [(0, ''RED''), (1, ''GREEN'')]\<rparr>"

definition demo_field :: "string \<Rightarrow> int \<Rightarrow> kind \<Rightarrow> desc_id \<Rightarrow> bool \<Rightarrow> field_shape \<Rightarrow> field_desc" where
  "demo_field name num k d presence shape =
     FieldDesc name num (camelCase name) k d demo_enum presence shape"

definition demo_message :: "string \<Rightarrow> field_desc list \<Rightarrow> message_desc" where
  "demo_message name fds = \<lparr>md_full_name = ''demo.'' @ name, md_name = name, md_fields = fds\<rparr>"

definition demo_pool :: desc_pool where
  "demo_pool d =
     (if d = 0 then demo_message ''GetUserRequest'' [demo_field ''id'' 1 StringKind 0 False Singular]
      else if d = 1 then demo_message ''GetUserResponse'' [demo_field ''user'' 1 MessageKind 2 True Singular]
      else if d = 2 then demo_message ''User''
        [demo_field ''full_name'' 1 StringKind 0 False Singular,
         demo_field ''scores'' 2 Int64Kind 0 False Repeated]
      else if d = 3 then demo_message ''GetPostsRequest''
        [demo_field ''bases'' 1 MessageKind 2 False Repeated, demo_field ''limit'' 2 Int32Kind 0 False Singular]
      else if d = 4 then demo_message ''GetPostsResponse'' [demo_field ''values'' 1 MessageKind 5 False Repeated]
      else if d = 5 then demo_message ''PostsValue'' [demo_field ''posts'' 1 MessageKind 6 False Repeated]
      else if d = 6 then demo_message ''Post'' [demo_field ''title'' 1 StringKind 0 False Singular]
      else demo_message ''Empty'' [])"

definition demo_method :: "string \<Rightarrow> desc_id \<Rightarrow> desc_id \<Rightarrow> string option \<Rightarrow> method_desc" where
  "demo_method name i out rel =
     \<lparr>mth_full_name = ''demo.Users.'' @ name, mth_name = name, mth_parent = ''demo.Users'',
      mth_input = i, mth_output = out, mth_streaming_client = False, mth_streaming_server = False,
      mth_options_ok = True, mth_idempotency = NoSideEffects, mth_relation = rel\<rparr>"

definition demo_service :: service_desc where
  "demo_service = \<lparr>sv_full_name = ''demo.Users'', sv_name = ''Users'',
     sv_methods = [demo_method ''GetUser'' 0 1 None, demo_method ''GetPosts'' 3 4 (Some ''posts''),
       (demo_method ''WatchUser'' 0 1 None)\<lparr>mth_streaming_server := True\<rparr>],
     sv_parent_file = ''demo.proto''\<rparr>"

section \<open>Library and backend\<close>

definition demo_post :: "string \<Rightarrow> pmsg" where
  "demo_post title = ProtoMsg 6 [(1, PString title)] DynamicType"

definition demo_user :: pmsg where
  "demo_user = ProtoMsg 2 [(1, PString ''Ada''), (2, PList [PInt64 7, PInt64 (- 1)])] DynamicType"

definition demo_default :: "field_desc \<Rightarrow> pval" where
  "demo_default fd = (case fd_shape fd of Repeated \<Rightarrow> PList [] | MapOf k v \<Rightarrow> PMap []
     | Singular \<Rightarrow> (if fd_kind fd = StringKind then PString []
         else if fd_kind fd = MessageKind then PMsg (ProtoMsg (fd_message fd) [] DynamicType) else PInt32 0))"

text \<open>Responses on the wire: byte 1 is a user, byte 2 the posts of one user, anything else is malformed.\<close>

definition demo_unmarshal :: "bytes \<Rightarrow> pmsg \<Rightarrow> go_error + pmsg" where
  "demo_unmarshal bs m =
     (if bs = [1] \<and> pm_desc m = 1 then Inr (ProtoMsg (pm_desc m) [(1, PMsg demo_user)] (pm_go m))
      else if bs = [2] \<and> pm_desc m = 4 then Inr (ProtoMsg (pm_desc m)
        [(1, PList [PMsg (ProtoMsg 5 [(1, PList [PMsg (demo_post ''Notes'')])] DynamicType)])] (pm_go m))
      else Inl (ExternalError ''proto: cannot parse''))"

definition demo_lib :: protolib where
  "demo_lib = \<lparr>pl_default = demo_default,
     pl_marshal = (\<lambda>m. Inr []), pl_as_struct = (\<lambda>n bs. Inl (ExternalError n)),
     pl_unmarshal = demo_unmarshal,
     pl_json_of_value = (\<lambda>r v. Inr []), pl_json_of_msg = (\<lambda>r m. Inr []),
     pl_msg_of_json = (\<lambda>r bs m. Inr m), pl_value_of_json = (\<lambda>r bs. Inr VNull),
     pl_any_unmarshal_new = (\<lambda>r u bs. Inl (ExternalError ''not found'')),
     pl_code_text = (\<lambda>c. ''code''), pl_error_code_name = (\<lambda>c. ''CODE''),
     pl_kind_text = (\<lambda>k. ''kind''), pl_scalar_text = (\<lambda>s. ''scalar''), pl_value_text = (\<lambda>v. ''value''),
     pl_valid_full_name = (\<lambda>n. n \<noteq> []), pl_go_type = (\<lambda>a. ''type''),
     pl_custom_name = (\<lambda>k. ''custom''), pl_custom_marshal = (\<lambda>k a. Inr []),
     pl_custom_unmarshal = (\<lambda>k bs a. Inr a),
     pl_find_message = (\<lambda>n. Inl (ExternalError ''not found'')),
     pl_procedure = (\<lambda>u. u), pl_as_time = (\<lambda>s n. (s, nat n)), pl_as_duration = (\<lambda>s n. s * 1000000000 + n)\<rparr>"

definition demo_answer :: "byte \<Rightarrow> deferred_message" where
  "demo_answer b = \<lparr>dm_bytes = [b], dm_codec = Some ProtoCodec\<rparr>"

definition demo_net :: network where
  "demo_net history r =
     (if pm_desc (rpc_message r) = 0 then Inr (demo_answer 1)
      else if pm_desc (rpc_message r) = 3 then Inr (demo_answer 2)
      else Inl (ExternalError ''unreachable''))"

definition demo_url :: url where
  "demo_url = \<lparr>url_scheme = ''http'', url_text = ''http://demo''\<rparr>"

definition demo_empty_gateway :: gateway where
  "demo_empty_gateway = \<lparr>gw_client = None, gw_route = Some demo_url, gw_client_options = [],
     gw_type_resolver = None, gw_max_parallelism = 0, gw_methods = Map.empty, gw_relations = Map.empty\<rparr>"

text \<open>The gateway that registering the service makes.\<close>

definition demo_client :: "string \<Rightarrow> connect_client" where
  "demo_client name = \<lparr>cc_http = 0, cc_url = ''http://demo/demo.Users/'' @ name, cc_opts = [OptCodec ProtoCodec]\<rparr>"

definition demo_config :: "string \<Rightarrow> method_desc \<Rightarrow> method_config" where
  "demo_config name m = \<lparr>mc_descriptor = m, mc_response_type = dynamic_message_type (mth_output m),
     mc_client = demo_client name, mc_type_resolver = None\<rparr>"

definition demo_posts :: relation_config where
  "demo_posts =
     \<lparr>rc_name = ''posts'', rc_method = demo_method ''GetPosts'' 3 4 (Some ''posts''),
      rc_descriptor = demo_field ''posts'' 1 MessageKind 6 False Repeated,
      rc_request_type = Some (dynamic_message_type 3),
      rc_base_field = demo_field ''bases'' 1 MessageKind 2 False Repeated,
      rc_resolver = newRemoteResolver demo_lib demo_net demo_pool ''posts''
        (demo_field ''bases'' 1 MessageKind 2 False Repeated)
        (demo_field ''posts'' 1 MessageKind 6 False Repeated)
        (demo_field ''values'' 1 MessageKind 5 False Repeated) (dynamic_message_type 4)
        (demo_client ''GetPosts'')\<rparr>"

definition demo_gateway :: gateway where
  "demo_gateway = demo_empty_gateway
     \<lparr>gw_methods :=
        [''demo.Users.GetUser'' \<mapsto> demo_config ''GetUser'' (demo_method ''GetUser'' 0 1 None),
         ''demo.Users.GetPosts'' \<mapsto> demo_config ''GetPosts'' (demo_method ''GetPosts'' 3 4 (Some ''posts'')),
         ''demo.Users.WatchUser'' \<mapsto> demo_config ''WatchUser''
           ((demo_method ''WatchUser'' 0 1 None)\<lparr>mth_streaming_server := True\<rparr>)],
      gw_relations := [''demo.User'' \<mapsto> [''posts'' \<mapsto> demo_posts]]\<rparr>"

lemma demo_pool_simps:
  "md_fields (demo_pool 2) = [demo_field ''full_name'' 1 StringKind 0 False Singular,
     demo_field ''scores'' 2 Int64Kind 0 False Repeated]"
  "md_fields (demo_pool 3) = [demo_field ''bases'' 1 MessageKind 2 False Repeated,
     demo_field ''limit'' 2 Int32Kind 0 False Singular]"
  "md_fields (demo_pool 4) = [demo_field ''values'' 1 MessageKind 5 False Repeated]"
  "md_fields (demo_pool 5) = [demo_field ''posts'' 1 MessageKind 6 False Repeated]"
  "md_full_name (demo_pool 2) = ''demo.User''"
  by (simp_all add: demo_pool_def demo_message_def)

lemma demo_field_simps:
  "fd_name (demo_field n i k d pr sh) = n" "fd_number (demo_field n i k d pr sh) = i"
  "fd_kind (demo_field n i k d pr sh) = k" "fd_message (demo_field n i k d pr sh) = d"
  "fd_is_list (demo_field n i k d pr sh) = (sh = Repeated)"
  by (simp_all add: demo_field_def fd_is_list_def split: field_shape.split)

lemma demo_method_simps:
  "mth_full_name (demo_method n i out rel) = ''demo.Users.'' @ n" "mth_name (demo_method n i out rel) = n"
  "mth_parent (demo_method n i out rel) = ''demo.Users''"
  "mth_input (demo_method n i out rel) = i" "mth_output (demo_method n i out rel) = out"
  "mth_streaming_client (demo_method n i out rel) = False"
  "mth_streaming_server (demo_method n i out rel) = False"
  "mth_options_ok (demo_method n i out rel)" "mth_idempotency (demo_method n i out rel) = NoSideEffects"
  "mth_relation (demo_method n i out rel) = rel"
  by (simp_all add: demo_method_def)

lemma demo_getRelationConfig:
  "getRelationConfig demo_lib demo_net demo_pool (demo_method ''GetPosts'' 3 4 (Some ''posts'')) ''posts''
     (demo_client ''GetPosts'') = Ok demo_posts"
  by (simp add: getRelationConfig_def Let_def demo_pool_simps demo_field_simps demo_method_simps
      field_by_number_def demo_posts_def)

lemma demo_addRelation:
  "gw_relations g = Map.empty \<Longrightarrow> addRelation demo_pool g demo_posts =
     (g\<lparr>gw_relations := [''demo.User'' \<mapsto> [''posts'' \<mapsto> demo_posts]]\<rparr>, Ok ())"
  by (simp add: addRelation_def Let_def demo_posts_def demo_field_simps demo_pool_simps
      fieldWithCamelCaseName_def field_by_name_def camelCase_def isASCIIUpper_def
      isASCIILower_def to_upper_def)

lemma demo_so:
  "getSvcOpts demo_empty_gateway None [] = Ok \<lparr>so_base_url = Some demo_url, so_client = Some 0,
     so_opts = [OptCodec ProtoCodec], so_type_resolver = None\<rparr>"
  by (simp add: getSvcOpts_def demo_empty_gateway_def Let_def defaultCodec_def http_DefaultClient_def)

lemma demo_endpointURL:
  "endpointURL demo_url (demo_method n i out rel) = ''http://demo/demo.Users/'' @ n"
  "endpointURL demo_url ((demo_method n i out rel)\<lparr>mth_streaming_server := b\<rparr>) = ''http://demo/demo.Users/'' @ n"
  by (simp_all add: endpointURL_def demo_url_def demo_method_simps has_suffix_def suffix_def)

lemma demo_AddService:
  "AddService demo_lib demo_net demo_pool demo_empty_gateway demo_service [] = (demo_gateway, Ok ())"
proof -
  let ?so = "\<lparr>so_base_url = Some demo_url, so_client = Some 0,
     so_opts = [OptCodec ProtoCodec], so_type_resolver = None\<rparr>"
  let ?add = "add_method demo_lib demo_net demo_pool False ?so 0 demo_url"
  have add: "?add g m = (register_method g (mth_full_name m)
      \<lparr>mc_descriptor = m, mc_response_type = dynamic_message_type (mth_output m),
       mc_client = \<lparr>cc_http = 0, cc_url = endpointURL demo_url m, cc_opts = [OptCodec ProtoCodec]\<rparr>,
       mc_type_resolver = None\<rparr>, Ok ())"
    if "gw_methods g (mth_full_name m) = None" "mth_relation m = None" for g m
    using that by (simp add: add_method_def Let_def)
  have posts: "?add g (demo_method ''GetPosts'' 3 4 (Some ''posts'')) =
      addRelation demo_pool (register_method g ''demo.Users.GetPosts''
        (demo_config ''GetPosts'' (demo_method ''GetPosts'' 3 4 (Some ''posts'')))) demo_posts"
    if "gw_methods g ''demo.Users.GetPosts'' = None" for g
    using that demo_getRelationConfig
    by (simp add: add_method_def Let_def demo_method_simps demo_endpointURL demo_config_def demo_client_def)
  have e: "gw_methods demo_empty_gateway = Map.empty" "gw_relations demo_empty_gateway = Map.empty"
    by (simp_all add: demo_empty_gateway_def)
  show ?thesis
    by (simp add: AddService_def addService_def demo_so demo_service_def add posts demo_method_simps
        register_method_def demo_addRelation demo_endpointURL e)
      (simp add: demo_gateway_def demo_config_def demo_client_def demo_empty_gateway_def
        demo_method_simps)
qed

section \<open>Requests\<close>

definition demo_env :: handler_env where
  "demo_env = \<lparr>he_stitch = \<lparr>se_lib = demo_lib, se_pool = demo_pool, se_gateway = demo_gateway,
       se_grow = (\<lambda>n. 2 * n), se_deterministic = True, se_fallback_catch = False,
       se_parse_order = (\<lambda>n k. [0..<k]), se_run_order = (\<lambda>n k. [0..<k])\<rparr>,
     he_net = demo_net, he_stream = (\<lambda>h r. Inr ([demo_answer 1, demo_answer 1], None)),
     he_call_order = (\<lambda>k. [0..<k]), he_headers = [(''Authorization'', [''token'']), (''Host'', [''knit''])],
     he_procedure = ''/buf.knit.gateway.v1alpha1.KnitService/Fetch'', he_send = (\<lambda>n. None)\<rparr>"

definition demo_mask :: "mask_field list" where
  "demo_mask = [MaskField ''user'' None
     [MaskField ''fullName'' None [] NoOnError, MaskField ''scores'' None [] NoOnError,
      MaskField ''posts'' None [MaskField ''title'' None [] NoOnError] NoOnError] NoOnError]"

definition demo_request :: request where
  "demo_request = \<lparr>rq_method = ''demo.Users.GetUser'', rq_body = None, rq_mask = demo_mask,
     rq_on_error = NoOnError\<rparr>"

definition demo_listen :: request where
  "demo_listen = demo_request\<lparr>rq_method := ''demo.Users.WatchUser''\<rparr>"

section \<open>A resolver without a backend\<close>

text \<open>A round of stitching on its own: two users whose posts a local resolver knows.\<close>

definition local_resolver :: relation_resolver where
  "local_resolver meta bases params s =
     (Ok (map (\<lambda>b. Some (PList [PMsg (demo_post ''Notes'')])) bases), s)"

definition local_env :: stitch_env where
  "local_env = (he_stitch demo_env)\<lparr>se_gateway := demo_empty_gateway
     \<lparr>gw_relations := [''demo.User'' \<mapsto> [''posts'' \<mapsto> demo_posts\<lparr>rc_resolver := local_resolver\<rparr>]]\<rparr>\<rparr>"

definition local_patch :: "error_patch option \<Rightarrow> patch" where
  "local_patch ep = \<lparr>pt_path = \<lparr>sl_array = 0, sl_len = 0\<rparr>, pt_target = demo_user,
     pt_mask = MaskField ''posts'' None [] NoOnError, pt_format_target = 0, pt_meta = 0, pt_err = ep\<rparr>"

end
