(* ===== verification/Knit_Joined.thy ===== *)
theory Knit_Joined
  imports Knit_Conform Knit_Example
begin

text \<open>
  The concrete gateway of \<^verbatim>\<open>Knit_Example\<close> satisfies what the properties ask for: its library
  treats descriptors as protobuf-go does, its gateway was set up by registration, its orders
  are orders. And a whole \<^verbatim>\<open>Fetch\<close> on it succeeds, with a mask that joins the relation
  \<^verbatim>\<open>posts\<close> into the user that the backend answers.
\<close>

section \<open>The hypotheses hold\<close>

lemma demo_lib_typed: "library_typed demo_lib demo_pool"
proof -
  have default: "typed_value demo_pool fd (pl_default demo_lib fd)" if "fd \<in> set (md_fields (demo_pool d))" for d fd
    using that by (auto simp: demo_pool_def demo_message_def demo_lib_def demo_default_def demo_field_def
        typed_value.simps typed_elem.simps typed_msg.simps scalar_typed.simps isMessage_def split: if_splits)
  have numbers: "distinct (map fd_number (md_fields (demo_pool d)))" for d
    by (simp add: demo_pool_def demo_message_def demo_field_def)
  have "typed_msg demo_pool m' \<and> pm_desc m' = pm_desc m" if "demo_unmarshal bs m = Inr m'" for bs m m'
    using that by (auto simp: demo_unmarshal_def demo_user_def demo_post_def typed_msg.simps typed_value.simps
        typed_elem.simps scalar_typed.simps demo_pool_def demo_message_def demo_field_def field_by_number_def
        isMessage_def split: if_splits)
  with default numbers show ?thesis
    by (auto simp: library_typed_def demo_lib_def)
qed

lemma demo_empty_gateway_ok: "gateway_ok demo_lib demo_net demo_pool demo_empty_gateway"
  by (simp add: gateway_ok_def demo_empty_gateway_def lookup_relation_def)

lemma demo_stitch_env_ok: "stitch_env_ok demo_net (he_stitch demo_env)"
  using addService_facts(2) [OF demo_AddService [unfolded AddService_def]] demo_empty_gateway_ok demo_lib_typed
  by (simp add: stitch_env_ok_def demo_env_def)

lemma demo_as_struct_named: "as_struct_named demo_lib"
  by (simp add: as_struct_named_def demo_lib_def)

lemma demo_user_typed: "typed_msg demo_pool demo_user"
  by (auto simp: demo_user_def typed_msg.simps typed_value.simps typed_elem.simps scalar_typed.simps demo_pool_simps
      demo_field_def field_by_number_def isMessage_def)

section \<open>Lookups in the example\<close>

definition plain_env :: handler_env where
  "plain_env = demo_env\<lparr>he_headers := []\<rparr>"

lemma demo_names:
  "fieldWithCamelCaseName (md_fields (demo_pool 2)) ''posts'' = None"
  "fieldWithCamelCaseName (md_fields (demo_pool 1)) ''user'' = Some (demo_field ''user'' 1 MessageKind 2 True Singular)"
  "fieldWithCamelCaseName (md_fields (demo_pool 6)) ''title'' = Some (demo_field ''title'' 1 StringKind 0 False Singular)"
  "md_full_name (demo_pool 1) = ''demo.GetUserResponse''" "md_full_name (demo_pool 2) = ''demo.User''"
  "md_full_name (demo_pool 6) = ''demo.Post''"
  by code_simp+

lemma demo_not_well_known:
  "''demo.User'' \<notin> set wellKnownTypes" "''demo.GetUserResponse'' \<notin> set wellKnownTypes"
  "''demo.Post'' \<notin> set wellKnownTypes"
  by code_simp+

lemma demo_field_shapes: "fd_shape (demo_field n i k d pr sh) = sh" "fd_presence (demo_field n i k d pr sh) = pr"
  by (simp_all add: demo_field_def)

lemma demo_lookups:
  "gw_type_resolver demo_gateway = None" "pl_unmarshal demo_lib = demo_unmarshal"
  "gw_methods demo_gateway ''demo.Users.GetUser'' = Some (demo_config ''GetUser'' (demo_method ''GetUser'' 0 1 None))"
  "lookup_relation demo_gateway ''demo.User'' ''posts'' = Some demo_posts"
  by (simp_all add: demo_gateway_def demo_empty_gateway_def demo_lib_def lookup_relation_def)

lemma plain_env_simps:
  "he_lib plain_env = demo_lib" "he_pool plain_env = demo_pool" "he_gateway plain_env = demo_gateway"
  "he_net plain_env = demo_net" "he_headers plain_env = []" "he_call_order plain_env = (\<lambda>k. [0..<k])"
  "se_lib (he_stitch plain_env) = demo_lib" "se_pool (he_stitch plain_env) = demo_pool"
  "se_gateway (he_stitch plain_env) = demo_gateway" "se_grow (he_stitch plain_env) = (\<lambda>n. 2 * n)"
  "se_fallback_catch (he_stitch plain_env) = False" "se_deterministic (he_stitch plain_env) = True"
  "se_parse_order (he_stitch plain_env) = (\<lambda>n k. [0..<k])" "se_run_order (he_stitch plain_env) = (\<lambda>n k. [0..<k])"
  by (simp_all add: plain_env_def demo_env_def he_lib_def he_pool_def he_gateway_def)

lemma plain_env_ok: "stitch_env_ok demo_net (he_stitch plain_env)" "orders_ok (he_stitch plain_env)" "call_order_ok plain_env"
proof -
  show "stitch_env_ok demo_net (he_stitch plain_env)" using demo_stitch_env_ok by (simp add: plain_env_def)
qed (simp_all add: orders_ok_def order_ok_def call_order_ok_def plain_env_simps)

lemmas runs = sbind_def slift_def sdo_def

lemmas format_simps = formatMessage.simps formatNormalMessage.simps format_fields.simps formatValue.simps
  format_elements.simps formatSingularValue.simps new_struct_def new_slice_def set_field_def append_slice_def Let_def
  demo_names demo_not_well_known format_env_of_def demo_field_shapes demo_field_simps pm_has_def pm_get_def
  isMessage_def pv_message_def pv_list_def plain_env_simps format_scalar_def of_sum_def

section \<open>A Fetch with a relation\<close>

definition posts_mask :: mask_field where
  "posts_mask = MaskField ''posts'' None [MaskField ''title'' None [] NoOnError] NoOnError"

definition joined_request :: request where
  "joined_request = \<lparr>rq_method = ''demo.Users.GetUser'', rq_body = None,
     rq_mask = [MaskField ''user'' None [posts_mask] NoOnError], rq_on_error = NoOnError\<rparr>"

abbreviation get_user :: method_config where
  "get_user \<equiv> demo_config ''GetUser'' (demo_method ''GetUser'' 0 1 None)"

lemma joined_mask_ok: "mask_ok demo_pool demo_gateway 1 (rq_mask joined_request)"
  by code_simp

lemma joined_schemas:
  "computeResponseSchemas demo_lib demo_pool demo_gateway [joined_request] True RpcKindUnary
     = Ok ([get_user], [schema_of demo_pool demo_gateway 1 (rq_mask joined_request)])"
  using joined_mask_ok
  by (simp add: computeResponseSchemas_def computeResponseSchema_def computeSchema_Ok_iff demo_lookups joined_request_def
      demo_config_def demo_method_simps kindOf_def Let_def obind_iffs demo_lib_def del: One_nat_def)

lemma joined_body: "parse_body plain_env joined_request get_user = Ok (new_message (dynamic_message_type 0))"
  by (simp add: parse_body_def joined_request_def demo_config_def demo_method_simps plain_env_simps Let_def
      parseMessage_def demo_lib_def of_sum_def)

lemma joined_call:
  "\<exists>resp p t. call_method plain_env False (joined_request, get_user, sc, new_message (dynamic_message_type 0)) s
      = (Ok (resp, None, [p]), t) \<and> pt_target p = demo_user \<and> pt_mask p = posts_mask"
  by (simp del: One_nat_def add: call_method_def joined_request_def demo_config_def new_message_def
      dynamic_message_type_def demo_net_def outbound_rpc_def demo_answer_def catches_def demo_unmarshal_def
      demo_method_simps demo_lookups new_meta_def log_rpc_def demo_user_def deferred_unmarshal_def
      relation_patch_def posts_mask_def runs format_simps)

lemma joined_resolver:
  "\<exists>t. rc_resolver demo_posts meta [demo_user] (new_message (dynamic_message_type 3)) s =
    (Ok [Some (PList [PMsg (demo_post ''Notes'')])], t)"
  by (simp del: One_nat_def add: demo_posts_def newRemoteResolver_def Let_def new_message_def dynamic_message_type_def
      demo_net_def pm_set_def demo_answer_def deferred_unmarshal_def demo_unmarshal_def demo_lookups of_sum_def
      pm_get_def pv_list_def pv_message_def demo_field_simps)

lemma joined_delivery:
  "pt_mask p = posts_mask \<Longrightarrow> \<exists>t. deliver_values (he_stitch plain_env) (rc_descriptor demo_posts) meta
      [(p, Some (PList [PMsg (demo_post ''Notes'')]))] s = (Ok [], t)"
  by (simp del: One_nat_def add: posts_mask_def runs demo_post_def demo_posts_def format_simps)

lemma joined_round:
  assumes "pt_target p = demo_user" "pt_mask p = posts_mask"
  shows "\<exists>t. stitch_round (he_stitch plain_env) n [[p]] s = (Ok (Some []), t)"
proof -
  let ?env = "he_stitch plain_env"
  let ?key = "patch_key ?env p"
  have "pm_desc demo_user = 2" by (simp add: demo_user_def)
  with assms have conf: "patch_config ?env p = Some demo_posts"
    by (simp add: patch_config_def patch_type_name_def plain_env_simps demo_names demo_lookups posts_mask_def)
  have params: "parse_params ?env (?key, demo_posts, [p]) = Ok (new_message (dynamic_message_type 3))"
    using assms(2) by (simp add: parse_params_def demo_posts_def patch_key_def posts_mask_def Let_def)
  obtain t1 where t1: "rc_resolver demo_posts (st_metas s (gk_meta ?key)) [demo_user]
      (new_message (dynamic_message_type 3)) s = (Ok [Some (PList [PMsg (demo_post ''Notes'')])], t1)"
    using joined_resolver by blast
  obtain meta u where u: "new_meta (batch_meta demo_posts (st_metas t1 (gk_meta ?key))) t1 = (meta, u)" by fastforce
  obtain t2 where t2: "deliver_values ?env (rc_descriptor demo_posts) meta
      [(p, Some (PList [PMsg (demo_post ''Notes'')]))] u = (Ok [], t2)"
    using joined_delivery [OF assms(2)] by blast
  have "run_batch ?env (?key, demo_posts, [p]) (new_message (dynamic_message_type 3)) s = (Ok [], t2)"
    using t1 u t2 assms(1) by (simp add: run_batch_def batch_result_def)
  then show ?thesis
    by (simp add: stitch_round_def conf visit_def params runs plain_env_simps)
qed

lemma joined_run:
  obtains resps t where "handler_do plain_env [joined_request] True empty_store = (Ok resps, t)"
proof -
  let ?sc = "schema_of demo_pool demo_gateway 1 (rq_mask joined_request)"
  obtain resp p s where call: "call_method plain_env False (joined_request, get_user, ?sc, new_message (dynamic_message_type 0))
      empty_store = (Ok (resp, None, [p]), s)" and p: "pt_target p = demo_user" "pt_mask p = posts_mask"
    using joined_call by blast
  obtain t where round: "stitch_round (he_stitch plain_env) 0 [[p]] s = (Ok (Some []), t)"
    using joined_round [OF p] by blast
  have same: "(he_stitch plain_env)\<lparr>se_fallback_catch := False\<rparr> = he_stitch plain_env"
    by (simp add: plain_env_def demo_env_def)
  have "is_ok (fst (handler_do plain_env [joined_request] True empty_store))"
    using call round
    by (simp del: One_nat_def add: handler_do_def plain_env_simps joined_schemas joined_body runs Let_def stitch_def
        stitch_from.simps same)
  then show thesis using that
    by (cases "handler_do plain_env [joined_request] True empty_store") (auto simp: is_ok_iff)
qed

end
