(* ===== verification/Knit_Sema.thy ===== *)
theory Knit_Sema
  imports Knit_Stitcher
begin

text \<open>
  The goroutines of a round of stitching (\<^verbatim>\<open>stitcher.go\<close>, \<^verbatim>\<open>newSema\<close> and \<^verbatim>\<open>Acquire\<close>/\<^verbatim>\<open>Release\<close>)
  as steps on a semaphore: a goroutine starts its resolver when it can acquire, and releases
  when it is done. What a round needs of a semaphore is an interface, which the bounded and
  the unbounded one provide; the facts are proved once for it.
\<close>

section \<open>The interface\<close>

text \<open>\<open>held\<close> counts the acquisitions that have not been released; \<open>room\<close> says how many there can be
  at most, \<^const>\<open>None\<close> for any number.\<close>

locale semaphore =
  fixes acquire :: "'s \<Rightarrow> 's option"
    and release :: "'s \<Rightarrow> 's"
    and held :: "'s \<Rightarrow> nat option"
    and room :: "'s \<Rightarrow> nat option"
    and valid :: "'s \<Rightarrow> bool"
  assumes acquire_blocks: "valid s \<Longrightarrow> acquire s = None \<Longrightarrow> held s \<noteq> None \<and> held s = room s \<and> room s \<noteq> Some 0"
    and acquire_valid: "valid s \<Longrightarrow> acquire s = Some t \<Longrightarrow>
      valid t \<and> room t = room s \<and> held t = map_option Suc (held s)"
    and release_valid: "valid s \<Longrightarrow> held s \<noteq> Some 0 \<Longrightarrow>
      valid (release s) \<and> room (release s) = room s \<and> held (release s) = map_option (\<lambda>n. n - 1) (held s)"
    and held_room: "valid s \<Longrightarrow> room s = Some r \<Longrightarrow> \<exists>h. held s = Some h \<and> h \<le> r"
begin

text \<open>With nobody holding it, a semaphore can be acquired.\<close>

lemma acquire_free: "valid s \<Longrightarrow> held s = Some 0 \<or> held s = None \<Longrightarrow> \<exists>t. acquire s = Some t"
  using acquire_blocks [of s] by (cases "acquire s") auto

end

fun sema_held :: "sema \<Rightarrow> nat option" where
  "sema_held (BoundedSema limit used) = Some used"
| "sema_held UnboundedSema = None"

fun sema_room :: "sema \<Rightarrow> nat option" where
  "sema_room (BoundedSema limit used) = Some limit"
| "sema_room UnboundedSema = None"

fun sema_valid :: "sema \<Rightarrow> bool" where
  "sema_valid (BoundedSema limit used) \<longleftrightarrow> 0 < limit \<and> used \<le> limit"
| "sema_valid UnboundedSema \<longleftrightarrow> True"

interpretation round_sema: semaphore sema_acquire sema_release sema_held sema_room sema_valid
proof (unfold_locales, goal_cases)
  case (1 s) then show ?case by (cases s) (auto split: if_splits)
next
  case (2 s t) then show ?case by (cases s) (auto split: if_splits)
next
  case (3 s) then show ?case by (cases s) auto
next
  case (4 s r) then show ?case by (cases s) auto
qed

lemma newSema_valid: "sema_valid (newSema limit)" "sema_held (newSema limit) = (if limit > 0 then Some 0 else None)"
  "sema_room (newSema limit) = (if limit > 0 then Some (nat limit) else None)"
  by (simp_all add: newSema_def)

section \<open>The goroutines of a round\<close>

record round_state =
  rn_sema :: sema
  rn_waiting :: nat
  rn_running :: nat
  rn_finished :: nat

inductive round_step :: "round_state \<Rightarrow> round_state \<Rightarrow> bool" where
  start: "rn_waiting s = Suc n \<Longrightarrow> sema_acquire (rn_sema s) = Some sema \<Longrightarrow>
    round_step s (s\<lparr>rn_sema := sema, rn_waiting := n, rn_running := Suc (rn_running s)\<rparr>)"
| finish: "rn_running s = Suc n \<Longrightarrow>
    round_step s (s\<lparr>rn_sema := sema_release (rn_sema s), rn_running := n, rn_finished := Suc (rn_finished s)\<rparr>)"

definition round_start :: "int \<Rightarrow> nat \<Rightarrow> round_state" where
  "round_start limit n = \<lparr>rn_sema = newSema limit, rn_waiting = n, rn_running = 0, rn_finished = 0\<rparr>"

definition round_inv :: "int \<Rightarrow> nat \<Rightarrow> round_state \<Rightarrow> bool" where
  "round_inv limit n s \<longleftrightarrow> sema_valid (rn_sema s) \<and> sema_room (rn_sema s) = sema_room (newSema limit)
     \<and> sema_held (rn_sema s) = (if limit > 0 then Some (rn_running s) else None)
     \<and> rn_waiting s + rn_running s + rn_finished s = n"

lemma round_inv_start: "round_inv limit n (round_start limit n)"
  by (simp add: round_inv_def round_start_def newSema_valid)

lemma round_inv_step:
  assumes "round_step s t" "round_inv limit n s"
  shows "round_inv limit n t"
  using assms
proof (cases rule: round_step.cases)
  case (start k sema)
  with assms(2) round_sema.acquire_valid [of "rn_sema s" sema] show ?thesis
    by (auto simp: round_inv_def split: if_splits)
next
  case (finish k)
  with assms(2) round_sema.release_valid [of "rn_sema s"] show ?thesis
    by (auto simp: round_inv_def split: if_splits)
qed

lemma round_inv_steps: "round_step\<^sup>*\<^sup>* s t \<Longrightarrow> round_inv limit n s \<Longrightarrow> round_inv limit n t"
  by (induction rule: rtranclp_induct) (auto intro: round_inv_step)

lemma round_inv_bound:
  assumes "round_inv limit n s" "limit > 0"
  shows "int (rn_running s) \<le> limit"
  using assms round_sema.held_room [of "rn_sema s" "nat limit"] by (auto simp: round_inv_def newSema_valid)

text \<open>Until every goroutine has finished, one can start or finish, and there are two steps for each.\<close>

lemma round_progress:
  assumes "round_inv limit n s" "rn_finished s < n"
  shows "\<exists>t. round_step s t"
proof (cases "rn_running s")
  case (Suc k)
  from round_step.finish [OF this] show ?thesis by blast
next
  case 0
  with assms obtain k where k: "rn_waiting s = Suc k" by (cases "rn_waiting s") (auto simp: round_inv_def)
  from assms(1) 0 have "sema_held (rn_sema s) = Some 0 \<or> sema_held (rn_sema s) = None" "sema_valid (rn_sema s)"
    by (auto simp: round_inv_def)
  with round_sema.acquire_free obtain sema where "sema_acquire (rn_sema s) = Some sema" by blast
  from round_step.start [OF k this] show ?thesis by blast
qed

definition round_rank :: "round_state \<Rightarrow> nat" where
  "round_rank s = 2 * rn_waiting s + rn_running s"

lemma round_rank_step: "round_step s t \<Longrightarrow> round_rank s = Suc (round_rank t)"
  by (induction rule: round_step.induct) (auto simp: round_rank_def)

lemma round_rank_steps: "(round_step ^^ k) s t \<Longrightarrow> round_rank s = k + round_rank t"
  by (induction k arbitrary: t) (auto dest!: round_rank_step)

lemma round_inv_relpow:
  assumes "(round_step ^^ k) (round_start limit n) s"
  shows "round_inv limit n s"
  using round_inv_steps [OF relpowp_imp_rtranclp [OF assms] round_inv_start] .

end
