(* ===== verification/App_Base.thy ===== *)
theory App_Base
  imports Knit_Gateway Knit_Time
begin

text \<open>
  What the theories of the gateway process (\<^verbatim>\<open>internal/app/knitgateway\<close> and \<^verbatim>\<open>cmd/knitgateway\<close>)
  share: Go's \<^verbatim>\<open>int\<close>, \<^verbatim>\<open>float64\<close> and \<^verbatim>\<open>time.Duration\<close>, the operating system and the parsers of
  the standard library that the source calls as a record of functions (an \<^verbatim>\<open>os_env\<close>), and
  the wrapping of errors. A configuration file that was decoded is a record; a Go pointer
  that may be nil is an option.
\<close>

section \<open>Numbers\<close>

text \<open>\<^verbatim>\<open>int\<close> and \<^verbatim>\<open>time.Duration\<close> have 64 bits: arithmetic wraps around, comparisons are signed.\<close>

type_synonym go_int = "64 word"
type_synonym duration = "64 word"

definition second :: duration where
  "second = 1000000000"

text \<open>\<^verbatim>\<open>time.Second * time.Duration(n)\<close>.\<close>

definition seconds :: "go_int \<Rightarrow> duration" where
  "seconds n = second * n"

definition int_text :: "go_int \<Rightarrow> fmt_arg" where
  "int_text n = AInt (sint n)"

text \<open>No wrap-around below about 292 years.\<close>

lemma sint_seconds:
  assumes "0 \<le> sint n" "sint n \<le> 9223372036"
  shows "sint (seconds n) = 1000000000 * sint n"
proof -
  have "sint (seconds n) = signed_take_bit 63 (1000000000 * sint n)"
    by (simp add: seconds_def second_def sint_word_ariths)
  also have "\<dots> = 1000000000 * sint n"
    using assms by (intro signed_take_bit_int_eq_self) simp_all
  finally show ?thesis .
qed

text \<open>\<^verbatim>\<open>x < y\<close> on \<^verbatim>\<open>float64\<close>: every comparison with a NaN is false.\<close>

fun f64_rat :: "float64 \<Rightarrow> rat" where
  "f64_rat (F_Num q) = q"
| "f64_rat _ = 0"

fun f64_less :: "float64 \<Rightarrow> float64 \<Rightarrow> bool" where
  "f64_less F_NaN y = False"
| "f64_less x F_NaN = False"
| "f64_less x F_NegInf = False"
| "f64_less F_NegInf y = True"
| "f64_less F_Inf y = False"
| "f64_less x F_Inf = True"
| "f64_less x y = (f64_rat x < f64_rat y)"

section \<open>Errors\<close>

definition map_err :: "('e \<Rightarrow> 'e) \<Rightarrow> ('e, 'a) outcome \<Rightarrow> ('e, 'a) outcome" where
  "map_err f r = (case r of Ok x \<Rightarrow> Ok x | Err e \<Rightarrow> Err (f e) | Panic s \<Rightarrow> Panic s)"

lemma map_err_iffs [simp]:
  "map_err f r = Ok x \<longleftrightarrow> r = Ok x"
  "map_err f r = Err e \<longleftrightarrow> (\<exists>e'. r = Err e' \<and> e = f e')"
  "map_err f r = Panic s \<longleftrightarrow> r = Panic s"
  by (cases r; auto simp: map_err_def)+

lemma map_err_simps [simp]:
  "map_err f (Ok x) = Ok x" "map_err f (Err e) = Err (f e)" "map_err f (Panic s) = Panic s"
  by (simp_all add: map_err_def)

text \<open>\<^verbatim>\<open>fmt.Errorf(text + "%w", args..., err)\<close> around the error of a call.\<close>

definition wrapf :: "string \<Rightarrow> fmt_arg list \<Rightarrow> 'a result \<Rightarrow> 'a result" where
  "wrapf text args r = map_err (\<lambda>e. Errorf text (args @ [AErr e])) r"

lemma wrapf_Ok_iff [simp]: "wrapf text args r = Ok x \<longleftrightarrow> r = Ok x"
  by (simp add: wrapf_def)

lemma wrapf_Err_iff: "wrapf text args r = Err e \<longleftrightarrow> (\<exists>e'. r = Err e' \<and> e = Errorf text (args @ [AErr e']))"
  by (simp add: wrapf_def)

lemma wrapf_Panic_iff [simp]: "wrapf text args r = Panic s \<longleftrightarrow> r = Panic s"
  by (simp add: wrapf_def)

lemma wrapf_simps [simp]: "wrapf text args (Ok x) = Ok x"
  "wrapf text args (Err e) = Err (Errorf text (args @ [AErr e]))"
  by (simp_all add: wrapf_def)

text \<open>\<^verbatim>\<open>strings.Contains\<close>.\<close>

definition string_contains :: "string \<Rightarrow> string \<Rightarrow> bool" where
  "string_contains s sub = sublist sub s"

section \<open>The operating system and the parsers of the standard library\<close>

text \<open>
  An X.509 certificate is its DER encoding. \<open>os_key_pair\<close> is \<^verbatim>\<open>tls.X509KeyPair\<close> (the chain of
  certificates), \<open>os_check_certificate\<close> is the error of \<^verbatim>\<open>x509.ParseCertificate\<close>, \<open>os_pem_certs\<close>
  gives the certificates that \<^verbatim>\<open>AppendCertsFromPEM\<close> finds, \<open>os_dial_unix\<close> is the error of dialing
  a unix socket and closing the connection, \<open>os_is_dir\<close> is \<^verbatim>\<open>os.Stat\<close>, \<open>os_parse_url\<close> is
  \<^verbatim>\<open>url.Parse\<close> (of the result the source reads the scheme; the rest is passed on),
  \<open>os_unmarshal_files\<close> is \<^verbatim>\<open>proto.Unmarshal\<close> into a \<^verbatim>\<open>FileDescriptorSet\<close> and \<open>os_buf_token\<close> is
  \<^verbatim>\<open>prototransform.BufTokenFromEnvironment\<close>.
\<close>

datatype certificate = DER bytes

text \<open>A \<^verbatim>\<open>FileDescriptorProto\<close>: its name, the names of its dependencies, and the rest of it.\<close>

record file_proto =
  fp_name :: string
  fp_dependency :: "string list"
  fp_content :: bytes

record os_env =
  os_read_file :: "string \<Rightarrow> go_error + bytes"
  os_is_dir :: "string \<Rightarrow> go_error + bool"
  os_getenv :: "string \<Rightarrow> string"
  os_dial_unix :: "string \<Rightarrow> go_error option"
  os_key_pair :: "bytes \<Rightarrow> bytes \<Rightarrow> go_error + certificate list"
  os_check_certificate :: "certificate \<Rightarrow> go_error option"
  os_pem_certs :: "bytes \<Rightarrow> certificate list"
  os_parse_url :: "string \<Rightarrow> go_error + url"
  os_unmarshal_files :: "bytes \<Rightarrow> go_error + file_proto list"
  os_buf_token :: "string \<Rightarrow> go_error + string"
  os_code_text :: "connect_code \<Rightarrow> string"

end
