(* ===== verification/App_TLS.thy ===== *)
theory App_TLS
  imports App_Base
begin

text \<open>
  TLS settings (\<^verbatim>\<open>internal/app/knitgateway/tls.go\<close>): the cipher suites and versions, the
  configuration of the listener and of the clients, and the merge of a backend's TLS stanza
  with the defaults. The main facts: what a configuration that was accepted can contain
  (\<open>server_tls_ok\<close>, \<open>client_tls_ok\<close>), the two ways to name cipher suites, and that the merge
  is left-biased.
\<close>

section \<open>Versions and cipher suites\<close>

type_synonym tls_version = "16 word"
type_synonym cipher_suite = "16 word"

definition VersionTLS10 :: tls_version where "VersionTLS10 = 0x0301"
definition VersionTLS11 :: tls_version where "VersionTLS11 = 0x0302"
definition VersionTLS12 :: tls_version where "VersionTLS12 = 0x0303"
definition VersionTLS13 :: tls_version where "VersionTLS13 = 0x0304"

lemmas tls_versions = VersionTLS10_def VersionTLS11_def VersionTLS12_def VersionTLS13_def

definition defaultServerMinTLSVersion :: tls_version where
  "defaultServerMinTLSVersion = VersionTLS10"

definition defaultClientMinTLSVersion :: tls_version where
  "defaultClientMinTLSVersion = VersionTLS12"

text \<open>The suites that \<^verbatim>\<open>defaultCipherSuites\<close> lists, with the numbers of \<^verbatim>\<open>crypto/tls\<close>.\<close>

definition default_suite_names :: "(string \<times> cipher_suite) list" where
  "default_suite_names =
    [(''TLS_RSA_WITH_AES_128_CBC_SHA'', 0x002f),
     (''TLS_RSA_WITH_AES_256_CBC_SHA'', 0x0035),
     (''TLS_RSA_WITH_AES_128_GCM_SHA256'', 0x009c),
     (''TLS_RSA_WITH_AES_256_GCM_SHA384'', 0x009d),
     (''TLS_ECDHE_ECDSA_WITH_AES_128_CBC_SHA'', 0xc009),
     (''TLS_ECDHE_ECDSA_WITH_AES_256_CBC_SHA'', 0xc00a),
     (''TLS_ECDHE_RSA_WITH_AES_128_CBC_SHA'', 0xc013),
     (''TLS_ECDHE_RSA_WITH_AES_256_CBC_SHA'', 0xc014),
     (''TLS_ECDHE_ECDSA_WITH_AES_128_GCM_SHA256'', 0xc02b),
     (''TLS_ECDHE_ECDSA_WITH_AES_256_GCM_SHA384'', 0xc02c),
     (''TLS_ECDHE_RSA_WITH_AES_128_GCM_SHA256'', 0xc02f),
     (''TLS_ECDHE_RSA_WITH_AES_256_GCM_SHA384'', 0xc030),
     (''TLS_ECDHE_RSA_WITH_CHACHA20_POLY1305_SHA256'', 0xcca8),
     (''TLS_ECDHE_ECDSA_WITH_CHACHA20_POLY1305_SHA256'', 0xcca9)]"

definition defaultCipherSuites :: "cipher_suite list" where
  "defaultCipherSuites = map snd default_suite_names"

definition allCipherSuites :: "(string \<times> cipher_suite) list" where
  "allCipherSuites = default_suite_names @
    [(''TLS_RSA_WITH_RC4_128_SHA'', 0x0005),
     (''TLS_RSA_WITH_3DES_EDE_CBC_SHA'', 0x000a),
     (''TLS_RSA_WITH_AES_128_CBC_SHA256'', 0x003c),
     (''TLS_ECDHE_ECDSA_WITH_RC4_128_SHA'', 0xc007),
     (''TLS_ECDHE_RSA_WITH_RC4_128_SHA'', 0xc011),
     (''TLS_ECDHE_RSA_WITH_3DES_EDE_CBC_SHA'', 0xc012),
     (''TLS_ECDHE_ECDSA_WITH_AES_128_CBC_SHA256'', 0xc023),
     (''TLS_ECDHE_RSA_WITH_AES_128_CBC_SHA256'', 0xc027)]"

definition parseTLSVersion :: "string \<Rightarrow> tls_version result" where
  "parseTLSVersion version =
     (if version = ''1.0'' then Ok VersionTLS10
      else if version = ''1.1'' then Ok VersionTLS11
      else if version = ''1.2'' then Ok VersionTLS12
      else if version = ''1.3'' then Ok VersionTLS13
      else Err (Errorf ''%q is not a valid TLS version; instead use %q, %q, %q, or %q''
        [AStr version, AStr ''1.0'', AStr ''1.1'', AStr ''1.2'', AStr ''1.3'']))"

text \<open>\<^verbatim>\<open>externalCiphersConfig\<close>: a nil slice is \<^const>\<open>None\<close>, an empty one is not.\<close>

record externalCiphersConfig =
  cc_allow :: "string list option"
  cc_disallow :: "string list option"

definition lookup_suite :: "string \<Rightarrow> string \<Rightarrow> cipher_suite result" where
  "lookup_suite text cipher = (case map_of allCipherSuites cipher of
     Some i \<Rightarrow> Ok i
   | None \<Rightarrow> Err (Errorf (text @ '' cipher %q is not a valid cipher suite name'') [AStr cipher]))"

text \<open>The loop that deletes the disallowed suites from the set of all of them.\<close>

fun delete_suites :: "string list \<Rightarrow> cipher_suite list \<Rightarrow> cipher_suite list result" where
  "delete_suites [] cipherSet = Ok cipherSet"
| "delete_suites (cipher # rest) cipherSet =
     obind (lookup_suite ''disallowed'' cipher) (\<lambda>cipherID.
     delete_suites rest (removeAll cipherID cipherSet))"

text \<open>The set of suites is a list without duplicates; its order is the iteration order of a Go
  map, which the final sort makes irrelevant.\<close>

definition parseCipherSuites :: "externalCiphersConfig \<Rightarrow> cipher_suite list result" where
  "parseCipherSuites conf = (case (cc_allow conf, cc_disallow conf) of
     (Some _, Some _) \<Rightarrow>
       Err (errors_New ''ciphers config must specify either allow or disallow, but not both'')
   | (Some allow, None) \<Rightarrow> omap (lookup_suite ''allowed'') allow
   | (None, Some disallow) \<Rightarrow>
       obind (delete_suites disallow (remdups (map snd allCipherSuites))) (\<lambda>ciphers. Ok (sort ciphers))
   | (None, None) \<Rightarrow>
       Err (errors_New ''ciphers config must specify either allow or disallow; neither was present''))"

section \<open>Certificates\<close>

definition errorHasFilename :: "os_env \<Rightarrow> go_error \<Rightarrow> string \<Rightarrow> go_error" where
  "errorHasFilename os err filename =
     (if string_contains (error_string (os_code_text os) err) filename then err
      else Errorf ''%s: %w'' [AStr filename, AErr err])"

definition read_named_file :: "os_env \<Rightarrow> string \<Rightarrow> bytes result" where
  "read_named_file os filename =
     map_err (\<lambda>err. errorHasFilename os err filename) (of_sum (os_read_file os filename))"

text \<open>\<^verbatim>\<open>tls.Certificate\<close>: a chain and its parsed leaf.\<close>

record tls_certificate =
  crt_chain :: "certificate list"
  crt_leaf :: "certificate option"

definition loadCertificateAndKey :: "os_env \<Rightarrow> string \<Rightarrow> string \<Rightarrow> tls_certificate list result" where
  "loadCertificateAndKey os cert key =
     obind (guard_err (cert = []) (errors_New ''cert filename is empty'')) (\<lambda>_.
     obind (guard_err (key = []) (errors_New ''key filename is empty'')) (\<lambda>_.
     obind (read_named_file os cert) (\<lambda>certData.
     obind (read_named_file os key) (\<lambda>keyData.
     obind (of_sum (os_key_pair os certData keyData)) (\<lambda>chain.
     (case chain of
        [] \<Rightarrow> Panic ''index out of range''
      | c # _ \<Rightarrow> (case os_check_certificate os c of
          Some err \<Rightarrow> Err err
        | None \<Rightarrow> Ok [\<lparr>crt_chain = chain, crt_leaf = Some c\<rparr>])))))))"

definition loadCertificatePool :: "os_env \<Rightarrow> string \<Rightarrow> certificate list result" where
  "loadCertificatePool os cacert =
     obind (guard_err (cacert = []) (errors_New ''filename is empty'')) (\<lambda>_.
     obind (read_named_file os cacert) (\<lambda>data.
     obind (guard_err (os_pem_certs os data = [])
       (Errorf ''no certificates could be successfully parsed from file %s'' [AStr cacert])) (\<lambda>_.
     Ok (os_pem_certs os data))))"

section \<open>The listener\<close>

record externalClientCertsConfig =
  ec_require :: bool
  ec_cacert :: string

record externalServerTLSConfig =
  es_cert :: string
  es_key :: string
  es_min_version :: string
  es_ciphers :: "externalCiphersConfig option"
  es_client_certs :: "externalClientCertsConfig option"

datatype client_auth = NoClientCert | VerifyClientCertIfGiven | RequireAndVerifyClientCert

text \<open>\<^verbatim>\<open>tls.Config\<close>, the fields that the source sets; a nil pool is \<^const>\<open>None\<close>.\<close>

record tls_config =
  tc_certificates :: "tls_certificate list"
  tc_min_version :: tls_version
  tc_ciphers :: "cipher_suite list"
  tc_client_auth :: client_auth
  tc_client_cas :: "certificate list option"
  tc_skip_verify :: bool
  tc_root_cas :: "certificate list option"
  tc_server_name :: string

definition zero_tls_config :: tls_config where
  "zero_tls_config = \<lparr>tc_certificates = [], tc_min_version = 0, tc_ciphers = [],
     tc_client_auth = NoClientCert, tc_client_cas = None, tc_skip_verify = False,
     tc_root_cas = None, tc_server_name = []\<rparr>"

definition configureServerTLS :: "os_env \<Rightarrow> externalServerTLSConfig option \<Rightarrow> tls_config option result" where
  "configureServerTLS os conf_opt = (case conf_opt of
     None \<Rightarrow> Ok None
   | Some conf \<Rightarrow>
       obind (guard_err (es_cert conf = [] \<or> es_key conf = [])
         (errors_New (''both '' @ quoted ''cert'' @ '' and '' @ quoted ''key'' @ '' properties must be specified''))) (\<lambda>_.
       obind (loadCertificateAndKey os (es_cert conf) (es_key conf)) (\<lambda>certs.
       obind (if es_min_version conf = [] then Ok defaultServerMinTLSVersion
              else parseTLSVersion (es_min_version conf)) (\<lambda>version.
       obind (case es_ciphers conf of None \<Rightarrow> Ok defaultCipherSuites
              | Some ciphers \<Rightarrow> parseCipherSuites ciphers) (\<lambda>ciphers.
       let tlsConf = zero_tls_config\<lparr>tc_certificates := certs, tc_min_version := version, tc_ciphers := ciphers\<rparr>
       in (case es_client_certs conf of
         None \<Rightarrow> Ok (Some tlsConf)
       | Some cc \<Rightarrow>
           obind (guard_err (ec_cacert cc = [])
             (errors_New (quoted ''client_certs'' @ '' config is enabled but '' @ quoted ''ca_cert'' @ '' property is missing''))) (\<lambda>_.
           obind (wrapf (quoted ''client_certs.cacert'' @ '' config: %w'') []
             (loadCertificatePool os (ec_cacert cc))) (\<lambda>cas.
           Ok (Some (tlsConf\<lparr>
             tc_client_auth := (if ec_require cc then RequireAndVerifyClientCert else VerifyClientCertIfGiven),
             tc_client_cas := Some cas\<rparr>))))))))))"

section \<open>The clients of the backends\<close>

record externalClientTLSConfig =
  et_min_version :: "string option"
  et_ciphers :: "externalCiphersConfig option"
  et_cacert :: "string option"
  et_skip_verify :: "bool option"
  et_cert :: "string option"
  et_key :: "string option"
  et_server_name :: string

definition configureClientTLS :: "os_env \<Rightarrow> externalClientTLSConfig option \<Rightarrow> tls_config result" where
  "configureClientTLS os conf_opt = (case conf_opt of
     None \<Rightarrow> Ok (zero_tls_config\<lparr>tc_min_version := defaultClientMinTLSVersion, tc_ciphers := defaultCipherSuites\<rparr>)
   | Some conf \<Rightarrow>
       obind (guard_err ((et_cert conf = None) \<noteq> (et_key conf = None))
         (errors_New (''if either '' @ quoted ''cert'' @ '' and '' @ quoted ''key''
            @ '' is specified then both must be specified''))) (\<lambda>_.
       obind (case et_cert conf of None \<Rightarrow> Ok []
              | Some cert \<Rightarrow> loadCertificateAndKey os cert (the (et_key conf))) (\<lambda>certs.
       obind (case et_min_version conf of None \<Rightarrow> Ok defaultClientMinTLSVersion
              | Some version \<Rightarrow> parseTLSVersion version) (\<lambda>version.
       obind (case et_ciphers conf of None \<Rightarrow> Ok defaultCipherSuites
              | Some ciphers \<Rightarrow> parseCipherSuites ciphers) (\<lambda>ciphers.
       let tlsConf = zero_tls_config\<lparr>tc_certificates := certs, tc_min_version := version, tc_ciphers := ciphers\<rparr>
       in if et_skip_verify conf = Some True then Ok (tlsConf\<lparr>tc_skip_verify := True\<rparr>)
          else (case et_cacert conf of
            None \<Rightarrow> Ok tlsConf
          | Some cacert \<Rightarrow>
              obind (wrapf (quoted ''cacert'' @ '' config: %w'') [] (loadCertificatePool os cacert))
                (\<lambda>cas. Ok (tlsConf\<lparr>tc_root_cas := Some cas\<rparr>))))))))"

text \<open>\<^verbatim>\<open>if merged.F == nil { merged.F = defaults.F }\<close>.\<close>

definition or_default :: "'a option \<Rightarrow> 'a option \<Rightarrow> 'a option" where
  "or_default x y = (case x of None \<Rightarrow> y | Some _ \<Rightarrow> x)"

definition mergeClientTLSConfig ::
    "externalClientTLSConfig option \<Rightarrow> externalClientTLSConfig option \<Rightarrow> externalClientTLSConfig option" where
  "mergeClientTLSConfig conf_opt defaults_opt = (case (conf_opt, defaults_opt) of
     (None, _) \<Rightarrow> defaults_opt
   | (Some conf, None) \<Rightarrow> Some conf
   | (Some conf, Some defaults) \<Rightarrow> Some (conf\<lparr>
       et_min_version := or_default (et_min_version conf) (et_min_version defaults),
       et_ciphers := or_default (et_ciphers conf) (et_ciphers defaults),
       et_cacert := or_default (et_cacert conf) (et_cacert defaults),
       et_skip_verify := or_default (et_skip_verify conf) (et_skip_verify defaults),
       et_cert := or_default (et_cert conf) (et_cert defaults),
       et_key := or_default (et_key conf) (et_key defaults)\<rparr>))"

section \<open>Which suites a configuration can name\<close>

lemma allCipherSuites_distinct: "distinct (map fst allCipherSuites)" "distinct (map snd allCipherSuites)"
  by code_simp+

lemma default_suites_known: "set defaultCipherSuites \<subseteq> set (map snd allCipherSuites)"
  by (auto simp: defaultCipherSuites_def allCipherSuites_def)

lemma lookup_suite_Ok_iff [simp]:
  "lookup_suite text cipher = Ok i \<longleftrightarrow> map_of allCipherSuites cipher = Some i"
  by (simp add: lookup_suite_def split: option.split)

lemma lookup_suite_not_Panic [simp]: "lookup_suite text cipher \<noteq> Panic s"
  by (simp add: lookup_suite_def split: option.split)

lemma delete_suites_Ok_iff:
  "delete_suites ds cs = Ok out \<longleftrightarrow>
     (\<forall>d \<in> set ds. map_of allCipherSuites d \<noteq> None)
     \<and> out = filter (\<lambda>i. \<forall>d \<in> set ds. map_of allCipherSuites d \<noteq> Some i) cs"
proof (induction ds arbitrary: cs)
  case (Cons d ds)
  then show ?case
    by (cases "map_of allCipherSuites d")
      (auto simp: obind_iffs removeAll_filter_not_eq conj_commute filter_filter intro!: filter_cong)
qed auto

lemma delete_suites_not_Panic [simp]: "delete_suites ds cs \<noteq> Panic s"
  by (induction ds arbitrary: cs) (auto simp: obind_iffs)

lemma parseCipherSuites_not_Panic [simp]: "parseCipherSuites conf \<noteq> Panic s"
  by (auto simp: parseCipherSuites_def obind_iffs omap_not_Panic split: option.splits)

text \<open>The allow list keeps its order; the disallow list gives the complement, sorted.\<close>

lemma parseCipherSuites_allow:
  "parseCipherSuites \<lparr>cc_allow = Some names, cc_disallow = None\<rparr> = Ok ids \<longleftrightarrow>
     map (map_of allCipherSuites) names = map Some ids"
  by (auto simp: parseCipherSuites_def omap_eq_Ok_iff list_all2_conv_all_nth list_eq_iff_nth_eq)

lemma parseCipherSuites_disallow:
  "parseCipherSuites \<lparr>cc_allow = None, cc_disallow = Some names\<rparr> = Ok ids \<longleftrightarrow>
     set names \<subseteq> dom (map_of allCipherSuites)
     \<and> sorted ids \<and> distinct ids
     \<and> set ids = ran (map_of allCipherSuites) - {i. \<exists>n \<in> set names. map_of allCipherSuites n = Some i}"
    (is "?lhs \<longleftrightarrow> ?rhs")
proof -
  let ?out = "filter (\<lambda>i. \<forall>d \<in> set names. map_of allCipherSuites d \<noteq> Some i) (remdups (map snd allCipherSuites))"
  have ran: "ran (map_of allCipherSuites) = set (map snd allCipherSuites)"
    using ran_distinct [OF allCipherSuites_distinct(1)] by simp
  have set: "set (sort ?out) = ran (map_of allCipherSuites) - {i. \<exists>n \<in> set names. map_of allCipherSuites n = Some i}"
    unfolding ran by auto
  have eq: "?lhs \<longleftrightarrow> set names \<subseteq> dom (map_of allCipherSuites) \<and> ids = sort ?out"
    by (auto simp: parseCipherSuites_def obind_iffs delete_suites_Ok_iff)
  have sd: "sorted (sort ?out)" "distinct (sort ?out)" by simp_all
  show ?thesis
    unfolding eq using set sd sorted_distinct_set_unique [of ids "sort ?out"] by auto
qed

lemma parseCipherSuites_known:
  assumes "parseCipherSuites conf = Ok ids"
  shows "set ids \<subseteq> set (map snd allCipherSuites)"
proof -
  have "i \<in> set (map snd allCipherSuites)" if "map_of allCipherSuites n = Some i" for n i
    using map_of_SomeD [OF that] by force
  then have "set ids \<subseteq> set (map snd allCipherSuites)"
    if "omap (lookup_suite t) names = Ok ids" for t names
    using that by (fastforce simp: omap_eq_Ok_iff list_all2_conv_all_nth in_set_conv_nth [of _ ids])
  then show ?thesis
    using assms by (auto simp: parseCipherSuites_def obind_iffs delete_suites_Ok_iff split: option.splits)
qed

lemma parseTLSVersion_range:
  "parseTLSVersion v = Ok n \<Longrightarrow> VersionTLS10 \<le> n \<and> n \<le> VersionTLS13"
  by (auto simp: parseTLSVersion_def tls_versions split: if_splits)

lemma parseTLSVersion_not_Panic [simp]: "parseTLSVersion v \<noteq> Panic s"
  by (simp add: parseTLSVersion_def)

section \<open>What an accepted configuration contains\<close>

definition tls_config_ok :: "tls_config \<Rightarrow> bool" where
  "tls_config_ok c \<longleftrightarrow> VersionTLS10 \<le> tc_min_version c \<and> tc_min_version c \<le> VersionTLS13
     \<and> set (tc_ciphers c) \<subseteq> set (map snd allCipherSuites)
     \<and> (\<forall>crt \<in> set (tc_certificates c). crt_chain crt \<noteq> [] \<and> crt_leaf crt = Some (hd (crt_chain crt)))
     \<and> tc_client_cas c \<noteq> Some [] \<and> tc_root_cas c \<noteq> Some []
     \<and> (tc_client_auth c \<noteq> NoClientCert \<longleftrightarrow> tc_client_cas c \<noteq> None)
     \<and> (tc_skip_verify c \<longrightarrow> tc_root_cas c = None)"

lemma default_versions_range:
  "VersionTLS10 \<le> defaultServerMinTLSVersion" "defaultServerMinTLSVersion \<le> VersionTLS13"
  "VersionTLS10 \<le> defaultClientMinTLSVersion" "defaultClientMinTLSVersion \<le> VersionTLS13"
  by (simp_all add: defaultServerMinTLSVersion_def defaultClientMinTLSVersion_def tls_versions)

lemma loadCertificateAndKey_Ok:
  "loadCertificateAndKey os cert key = Ok certs \<Longrightarrow>
     cert \<noteq> [] \<and> key \<noteq> [] \<and>
     (\<exists>crt. certs = [crt] \<and> crt_chain crt \<noteq> [] \<and> crt_leaf crt = Some (hd (crt_chain crt)))"
  by (auto simp: loadCertificateAndKey_def obind_iffs neq_Nil_conv split: list.split_asm option.split_asm)

lemma loadCertificatePool_Ok:
  "loadCertificatePool os cacert = Ok cas \<Longrightarrow> cacert \<noteq> [] \<and> cas \<noteq> []"
  by (auto simp: loadCertificatePool_def obind_iffs)

lemmas tls_parts = loadCertificateAndKey_Ok loadCertificatePool_Ok parseCipherSuites_known
  parseTLSVersion_range default_suites_known default_versions_range

lemma version_or_default_range:
  assumes "(if v = [] then Ok d else parseTLSVersion v) = Ok n" "VersionTLS10 \<le> d" "d \<le> VersionTLS13"
  shows "VersionTLS10 \<le> n \<and> n \<le> VersionTLS13"
  using assms parseTLSVersion_range by (auto split: if_splits)

lemma ciphers_or_default_known:
  assumes "(case c of None \<Rightarrow> Ok defaultCipherSuites | Some x \<Rightarrow> parseCipherSuites x) = Ok ids"
  shows "set ids \<subseteq> set (map snd allCipherSuites)"
  using assms parseCipherSuites_known default_suites_known by (auto split: option.splits)

lemma server_tls_ok:
  assumes "configureServerTLS os (Some conf) = Ok out"
  obtains c where "out = Some c" "tls_config_ok c" "tc_certificates c \<noteq> []"
    "\<not> tc_skip_verify c" "tc_root_cas c = None"
    "tc_client_auth c = (case es_client_certs conf of None \<Rightarrow> NoClientCert
       | Some cc \<Rightarrow> if ec_require cc then RequireAndVerifyClientCert else VerifyClientCertIfGiven)"
    "es_cert conf \<noteq> []" "es_key conf \<noteq> []"
proof -
  from assms obtain certs version ciphers where p: "es_cert conf \<noteq> []" "es_key conf \<noteq> []"
    "loadCertificateAndKey os (es_cert conf) (es_key conf) = Ok certs"
    "(if es_min_version conf = [] then Ok defaultServerMinTLSVersion
      else parseTLSVersion (es_min_version conf)) = Ok version"
    "(case es_ciphers conf of None \<Rightarrow> Ok defaultCipherSuites | Some x \<Rightarrow> parseCipherSuites x) = Ok ciphers"
    by (auto simp: configureServerTLS_def obind_iffs)
  from version_or_default_range [OF p(4)] default_versions_range
  have "VersionTLS10 \<le> version" "version \<le> VersionTLS13" by simp_all
  with p ciphers_or_default_known [OF p(5)] loadCertificateAndKey_Ok [OF p(3)] assms show thesis
    by (cases "es_client_certs conf")
      (auto simp: configureServerTLS_def obind_iffs tls_config_ok_def zero_tls_config_def Let_def
        dest: loadCertificatePool_Ok intro!: that)
qed

lemma client_tls_default:
  "configureClientTLS os None = Ok c \<Longrightarrow> tls_config_ok c \<and> tc_min_version c = VersionTLS12"
  using default_versions_range default_suites_known
  by (auto simp: configureClientTLS_def tls_config_ok_def zero_tls_config_def defaultClientMinTLSVersion_def)

lemma client_tls_ok:
  assumes "configureClientTLS os conf_opt = Ok c"
  shows "tls_config_ok c \<and> tc_client_auth c = NoClientCert \<and> tc_server_name c = []"
proof (cases conf_opt)
  case None
  with assms client_tls_default [of os c] show ?thesis
    by (auto simp: configureClientTLS_def zero_tls_config_def)
next
  case (Some conf)
  with assms obtain certs version ciphers where p:
    "(case et_cert conf of None \<Rightarrow> Ok [] | Some cert \<Rightarrow> loadCertificateAndKey os cert (the (et_key conf))) = Ok certs"
    "(case et_min_version conf of None \<Rightarrow> Ok defaultClientMinTLSVersion
      | Some version \<Rightarrow> parseTLSVersion version) = Ok version"
    "(case et_ciphers conf of None \<Rightarrow> Ok defaultCipherSuites | Some x \<Rightarrow> parseCipherSuites x) = Ok ciphers"
    by (auto simp: configureClientTLS_def obind_iffs)
  from p(2) default_versions_range have "VersionTLS10 \<le> version" "version \<le> VersionTLS13"
    by (auto split: option.splits dest: parseTLSVersion_range)
  moreover from p(1) have "\<forall>crt \<in> set certs. crt_chain crt \<noteq> [] \<and> crt_leaf crt = Some (hd (crt_chain crt))"
    by (auto split: option.splits dest: loadCertificateAndKey_Ok)
  ultimately show ?thesis
    using assms p ciphers_or_default_known [OF p(3)] Some
    by (cases "et_cacert conf")
      (auto simp: configureClientTLS_def obind_iffs tls_config_ok_def zero_tls_config_def Let_def
        dest: loadCertificatePool_Ok split: if_splits)
qed

text \<open>A client configuration never panics: a key is only read when the certificate is there too,
  and \<^verbatim>\<open>tls.X509KeyPair\<close> never returns an empty chain.\<close>

definition key_pair_nonempty :: "os_env \<Rightarrow> bool" where
  "key_pair_nonempty os \<longleftrightarrow> (\<forall>cert key. os_key_pair os cert key \<noteq> Inr [])"

lemma loadCertificateAndKey_not_Panic:
  "key_pair_nonempty os \<Longrightarrow> loadCertificateAndKey os cert key \<noteq> Panic s"
  by (auto simp: loadCertificateAndKey_def obind_iffs read_named_file_def key_pair_nonempty_def
    split: list.split_asm option.split_asm)

lemma loadCertificatePool_not_Panic [simp]: "loadCertificatePool os cacert \<noteq> Panic s"
  by (auto simp: loadCertificatePool_def obind_iffs read_named_file_def)

lemma configureServerTLS_not_Panic:
  "key_pair_nonempty os \<Longrightarrow> configureServerTLS os conf_opt \<noteq> Panic s"
  by (auto simp: configureServerTLS_def obind_iffs loadCertificateAndKey_not_Panic Let_def
    split: option.split_asm if_split_asm)

lemma configureClientTLS_not_Panic:
  "key_pair_nonempty os \<Longrightarrow> configureClientTLS os conf_opt \<noteq> Panic s"
  by (auto simp: configureClientTLS_def obind_iffs loadCertificateAndKey_not_Panic Let_def
    split: option.split_asm if_split_asm)

section \<open>The merge with the defaults\<close>

lemma or_default_simps [simp]:
  "or_default None y = y" "or_default (Some v) y = Some v" "or_default x None = x" "or_default x x = x"
  "or_default (or_default x y) z = or_default x (or_default y z)"
  by (cases x; simp add: or_default_def)+

lemma mergeClientTLSConfig_units [simp]:
  "mergeClientTLSConfig None d = d" "mergeClientTLSConfig c None = c"
  by (cases c; simp add: mergeClientTLSConfig_def)+

lemma mergeClientTLSConfig_idem: "mergeClientTLSConfig c c = c"
  by (cases c) (auto simp: mergeClientTLSConfig_def)

lemma mergeClientTLSConfig_assoc:
  "mergeClientTLSConfig (mergeClientTLSConfig a b) c = mergeClientTLSConfig a (mergeClientTLSConfig b c)"
  by (cases a; cases b; cases c) (simp_all add: mergeClientTLSConfig_def)

end
