(* ===== verification/App_Client.thy ===== *)
theory App_Client
  imports App_TLS
begin

text \<open>
  The HTTP clients of the backends and what they do to every request: \<^verbatim>\<open>makeHTTPClient\<close> and
  \<^verbatim>\<open>checkUnixSocket\<close> of \<^verbatim>\<open>config.go\<close>, the interceptors of \<^verbatim>\<open>version.go\<close> and \<^verbatim>\<open>gateway.go\<close>, and the
  client certificate that \<^verbatim>\<open>tls.go\<close> keeps in a request's context.
\<close>

section \<open>Clients\<close>

text \<open>How connections are made: to the address of the URL, or always to one unix socket.\<close>

datatype dialer = DialAddress | DialUnix string

text \<open>\<open>DefaultClient\<close> is \<^verbatim>\<open>http.DefaultClient\<close>, \<open>DefaultH2CClient\<close> the \<^verbatim>\<open>defaultH2CClient\<close> of \<^verbatim>\<open>gateway.go\<close>;
  the others have a transport of their own.\<close>

datatype http_client =
    DefaultClient | DefaultH2CClient
  | H2CClient dialer "tls_config option"
  | HTTPClient dialer "tls_config option"

definition checkUnixSocket :: "os_env \<Rightarrow> string \<Rightarrow> unit result" where
  "checkUnixSocket os socketPath =
     (case os_dial_unix os socketPath of Some err \<Rightarrow> Err err | None \<Rightarrow> Ok ())"

definition makeHTTPClient :: "os_env \<Rightarrow> tls_config option \<Rightarrow> string \<Rightarrow> bool \<Rightarrow> http_client result" where
  "makeHTTPClient os tlsConfig unixSocket h2c =
     (if tlsConfig = None \<and> unixSocket = [] then
        Ok (if h2c then DefaultH2CClient else DefaultClient)
      else
        obind (if unixSocket \<noteq> []
               then map_err (\<lambda>err. errorHasFilename os err unixSocket)
                      (obind (checkUnixSocket os unixSocket) (\<lambda>_. Ok (DialUnix unixSocket)))
               else Ok DialAddress) (\<lambda>dial.
        Ok (if h2c then H2CClient dial tlsConfig else HTTPClient dial tlsConfig)))"

text \<open>What a client is: whether it speaks plaintext HTTP/2, how it dials, its TLS configuration.\<close>

fun client_h2c :: "http_client \<Rightarrow> bool" where
  "client_h2c DefaultH2CClient = True"
| "client_h2c (H2CClient d t) = True"
| "client_h2c _ = False"

fun client_dial :: "http_client \<Rightarrow> dialer" where
  "client_dial (H2CClient d t) = d"
| "client_dial (HTTPClient d t) = d"
| "client_dial _ = DialAddress"

fun client_tls :: "http_client \<Rightarrow> tls_config option" where
  "client_tls (H2CClient d t) = t"
| "client_tls (HTTPClient d t) = t"
| "client_tls _ = None"

lemma makeHTTPClient_Ok:
  assumes "makeHTTPClient os tlsConfig unixSocket h2c = Ok c"
  shows "client_h2c c = h2c \<and> client_tls c = tlsConfig
    \<and> client_dial c = (if unixSocket = [] then DialAddress else DialUnix unixSocket)
    \<and> (unixSocket \<noteq> [] \<longrightarrow> os_dial_unix os unixSocket = None)"
  using assms
  by (auto simp: makeHTTPClient_def checkUnixSocket_def obind_iffs split: if_splits option.splits)

lemma makeHTTPClient_not_Panic [simp]: "makeHTTPClient os tlsConfig unixSocket h2c \<noteq> Panic s"
  by (auto simp: makeHTTPClient_def checkUnixSocket_def obind_iffs split: if_splits option.splits)

section \<open>Request headers\<close>

text \<open>\<^verbatim>\<open>http.Header\<close>: \<open>Get\<close> is the first value or the empty string, \<open>Set\<close> replaces all values. The names
  used here are in canonical form.\<close>

definition header_Get :: "header \<Rightarrow> string \<Rightarrow> string" where
  "header_Get h name = (case map_of h name of Some (v # _) \<Rightarrow> v | _ \<Rightarrow> [])"

definition header_Set :: "header \<Rightarrow> string \<Rightarrow> string \<Rightarrow> header" where
  "header_Set h name v = AList.update name [v] h"

lemma header_Get_Set [simp]: "header_Get (header_Set h n v) m = (if m = n then v else header_Get h m)"
  by (simp add: header_Get_def header_Set_def)

definition Version :: string where
  "Version = ''v0.2.0-dev'' @ []"

text \<open>\<^verbatim>\<open>UserAgentInterceptor\<close>: what it does to the headers of a unary request.\<close>

definition UserAgentInterceptor :: "header \<Rightarrow> header" where
  "UserAgentInterceptor h =
     header_Set h ''User-Agent'' (header_Get h ''User-Agent'' @ '' knitgateway/'' @ Version)"

text \<open>The request context: the client certificate, if the request came over TLS with one. The
  subject of a certificate is \<^verbatim>\<open>cert.Subject.String()\<close>.\<close>

record request_context =
  ctx_client_cert :: "string option"

definition ContextWithClientCert :: "request_context \<Rightarrow> string \<Rightarrow> request_context" where
  "ContextWithClientCert ctx subject = ctx\<lparr>ctx_client_cert := Some subject\<rparr>"

definition clientCertFromContext :: "request_context \<Rightarrow> string option" where
  "clientCertFromContext ctx = ctx_client_cert ctx"

text \<open>The handler that \<^verbatim>\<open>main\<close> puts before the gateway's: \<open>tls\<close> are the subjects of the connection's
  peer certificates, \<^const>\<open>None\<close> without TLS.\<close>

definition capture_cert :: "string list option \<Rightarrow> request_context \<Rightarrow> request_context" where
  "capture_cert tls ctx = (case tls of
     Some (subject # _) \<Rightarrow> ContextWithClientCert ctx subject | _ \<Rightarrow> ctx)"

definition clientIdentityHeader :: string where
  "clientIdentityHeader = ''Knit-Client-Subject''"

text \<open>\<^verbatim>\<open>WrapUnary\<close> and \<^verbatim>\<open>WrapStreamingClient\<close> of the \<^verbatim>\<open>certForwardingInterceptor\<close> set the same header;
  \<^verbatim>\<open>WrapStreamingHandler\<close> does nothing.\<close>

definition cert_forward :: "request_context \<Rightarrow> header \<Rightarrow> header" where
  "cert_forward ctx h = (case clientCertFromContext ctx of
     Some subject \<Rightarrow> header_Set h clientIdentityHeader subject | None \<Rightarrow> h)"

text \<open>With a client certificate the identity header is the certificate's subject, whatever the client
  sent; without one, it is what the request's headers already had.\<close>

lemma cert_forward_identity:
  "header_Get (cert_forward ctx h) clientIdentityHeader =
     (case ctx_client_cert ctx of Some subject \<Rightarrow> subject | None \<Rightarrow> header_Get h clientIdentityHeader)"
  by (simp add: cert_forward_def clientCertFromContext_def split: option.split)

end
