(* ===== verification/App_Cache.thy ===== *)
theory App_Cache
  imports App_Client
begin

text \<open>
  The descriptor cache (\<^verbatim>\<open>internal/app/knitgateway/cache.go\<close>): the choice of one of three kinds,
  how each is opened, and the cache that logs. The cache libraries of prototransform are
  a parameter: \<open>new_cache\<close> is the error of \<^verbatim>\<open>filecache.New\<close>, \<^verbatim>\<open>rediscache.New\<close>, \<^verbatim>\<open>memcache.New\<close>.
\<close>

section \<open>strconv.ParseInt\<close>

text \<open>\<^verbatim>\<open>strconv.ParseInt(s, base, bits)\<close> for a base from 2 to 10: an optional sign, then digits of the
  base; a text that is not of this form or a value out of range is an error.\<close>

datatype num_error = ErrSyntax | ErrRange

fun parse_digits :: "nat \<Rightarrow> nat \<Rightarrow> nat \<Rightarrow> string \<Rightarrow> num_error + nat" where
  "parse_digits base limit acc [] = Inr acc"
| "parse_digits base limit acc (c # cs) =
     (if \<not> (CHR ''0'' \<le> c \<and> c \<le> CHR ''9'') \<or> base \<le> digit_val c then Inl ErrSyntax
      else if limit \<le> base * acc + digit_val c then Inl ErrRange
      else parse_digits base limit (base * acc + digit_val c) cs)"

definition ParseInt :: "string \<Rightarrow> nat \<Rightarrow> nat \<Rightarrow> num_error + int" where
  "ParseInt s base bits =
     (let neg = (s \<noteq> [] \<and> hd s = CHR ''-'');
          digits = (if s \<noteq> [] \<and> (hd s = CHR ''-'' \<or> hd s = CHR ''+'') then tl s else s)
      in if digits = [] then Inl ErrSyntax
         else (case parse_digits base (2 ^ bits) 0 digits of
           Inl e \<Rightarrow> Inl e
         | Inr n \<Rightarrow>
             if \<not> neg \<and> 2 ^ (bits - 1) \<le> n \<or> neg \<and> 2 ^ (bits - 1) < n then Inl ErrRange
             else Inr (if neg then - int n else int n)))"

definition num_error_text :: "string \<Rightarrow> num_error \<Rightarrow> go_error" where
  "num_error_text s e = Errorf ''strconv.ParseInt: parsing %q: %s''
     [AStr s, AStr (case e of ErrSyntax \<Rightarrow> ''invalid syntax'' | ErrRange \<Rightarrow> ''value out of range'')]"

lemma ParseInt_range:
  assumes "ParseInt s base bits = Inr i"
  shows "- (2 ^ (bits - 1)) \<le> i \<and> i < 2 ^ (bits - 1)"
proof -
  define neg where "neg = (s \<noteq> [] \<and> hd s = CHR ''-'')"
  from assms obtain n where n: "\<not> (\<not> neg \<and> 2 ^ (bits - 1) \<le> n \<or> neg \<and> 2 ^ (bits - 1) < n)"
    "i = (if neg then - int n else int n)"
    unfolding ParseInt_def Let_def neg_def [symmetric] by (auto split: sum.splits if_split_asm)
  define limit where "limit = (2::nat) ^ (bits - 1)"
  have limit: "(2::int) ^ (bits - 1) = int limit" "0 < limit"
    by (simp_all add: limit_def)
  from n(1) have "neg \<and> n \<le> limit \<or> \<not> neg \<and> n < limit"
    unfolding limit_def [symmetric] by linarith
  then show ?thesis
    unfolding limit(1) n(2) using limit(2) by (cases neg) simp_all
qed

section \<open>Configuration\<close>

record externalFileSystemCacheConfig =
  fs_directory :: string
  fs_file_name_prefix :: string
  fs_file_extension :: string
  fs_file_mode :: string

record externalRedisCacheConfig =
  rd_host :: string
  rd_require_auth :: bool
  rd_idle_timeout_seconds :: go_int
  rd_database :: go_int
  rd_key_prefix :: string
  rd_expiry_seconds :: go_int

record externalMemcacheConfig =
  mc_hosts :: "string list"
  mc_key_prefix :: string
  mc_expiry_seconds :: "32 word"

record externalDescriptorCacheConfig =
  dc_file_system :: "externalFileSystemCacheConfig option"
  dc_redis :: "externalRedisCacheConfig option"
  dc_memcached :: "externalMemcacheConfig option"

datatype cache_config =
    FileSystemCache externalFileSystemCacheConfig
  | RedisCache externalRedisCacheConfig
  | MemcachedCache externalMemcacheConfig

definition configured_caches :: "externalDescriptorCacheConfig \<Rightarrow> string list" where
  "configured_caches conf =
     (if dc_file_system conf \<noteq> None then [''file_system''] else [])
     @ (if dc_redis conf \<noteq> None then [''redis''] else [])
     @ (if dc_memcached conf \<noteq> None then [''memcached''] else [])"

definition newCacheConfig :: "externalDescriptorCacheConfig \<Rightarrow> nat \<Rightarrow> cache_config option result" where
  "newCacheConfig conf numCacheableSources =
     (let caches = configured_caches conf
      in if length caches = 0 then Ok None
         else if length caches > 1 then
           Err (Errorf ''only one kind of cache should be configured, file_system, redis, or memcache; instead found %d: %s''
             [AInt (int (length caches)), AStr (string_join caches '', '')])
         else if numCacheableSources = 0 then
           Err (Errorf ''caching configured via %s, but no descriptor sources to cache (descriptor_set_file is not cached)''
             [AStr (hd caches)])
         else (case dc_file_system conf of
           Some c \<Rightarrow> Ok (Some (FileSystemCache c))
         | None \<Rightarrow> (case dc_redis conf of
             Some c \<Rightarrow> Ok (Some (RedisCache c))
           | None \<Rightarrow> (case dc_memcached conf of
               Some c \<Rightarrow> Ok (Some (MemcachedCache c))
             | None \<Rightarrow> Panic ''nil dereference''))))"

section \<open>Opening a cache\<close>

datatype redis_arg = RStr string | RInt go_int

text \<open>A \<^verbatim>\<open>redis.Pool\<close>: the commands its \<^verbatim>\<open>DialContext\<close> sends on a new connection, and its limits.\<close>

record redis_pool =
  rp_host :: string
  rp_require_auth :: bool
  rp_user :: string
  rp_password :: string
  rp_database :: go_int
  rp_max_idle :: nat
  rp_idle_timeout :: duration

datatype descriptor_cache =
    FileCache string string string "32 word"
  | RedisDescCache redis_pool string duration
  | MemcacheCache "string list" string "32 word"

datatype closer = CloseRedis redis_pool | CloseMemcache "string list" | StopWatcher nat

text \<open>\<open>redis_dial\<close> is the function \<^verbatim>\<open>DialContext\<close>: \<open>dial\<close> opens the connection, \<open>redis_do\<close> answers the
  next command given those sent before it.\<close>

type_synonym redis_command = "string \<times> redis_arg list"

definition auth_command :: "redis_pool \<Rightarrow> redis_command" where
  "auth_command p = (''auth'',
     if rp_user p \<noteq> [] then [RStr (rp_user p), RStr (rp_password p)] else [RStr (rp_password p)])"

definition redis_dial ::
    "(string \<Rightarrow> go_error option) \<Rightarrow> (redis_command list \<Rightarrow> redis_command \<Rightarrow> go_error option)
     \<Rightarrow> redis_pool \<Rightarrow> redis_command list \<times> unit result" where
  "redis_dial dial redis_do p = (case dial (rp_host p) of
     Some err \<Rightarrow> ([], Err err)
   | None \<Rightarrow>
       (let auth = (if rp_require_auth p then [auth_command p] else []);
            select = (''select'', [RInt (rp_database p)])
        in case (if rp_require_auth p then redis_do [] (auth_command p) else None) of
          Some err \<Rightarrow> (auth, Err (Errorf ''failed to auth with redis server: %w'' [AErr err]))
        | None \<Rightarrow>
            if rp_database p \<noteq> 0 then
              (case redis_do auth select of
                Some err \<Rightarrow> (auth @ [select], Err (Errorf ''failed to select db %d with redis server: %w''
                                              [int_text (rp_database p), AErr err]))
              | None \<Rightarrow> (auth @ [select], Ok ()))
            else (auth, Ok ())))"

text \<open>\<^verbatim>\<open>toCache\<close> returns a cache, a closer and an error; on the paths where the library is called the
  first two are there even if it fails.\<close>

type_synonym opened_cache = "descriptor_cache option \<times> closer option \<times> go_error option"

definition open_cache :: "(descriptor_cache \<Rightarrow> go_error option) \<Rightarrow> descriptor_cache \<Rightarrow> closer option \<Rightarrow> opened_cache" where
  "open_cache new_cache c closer = (Some c, closer, new_cache c)"

definition file_toCache :: "(descriptor_cache \<Rightarrow> go_error option) \<Rightarrow> externalFileSystemCacheConfig \<Rightarrow> opened_cache" where
  "file_toCache new_cache c =
     (let opened = (\<lambda>mode. open_cache new_cache
            (FileCache (fs_directory c) (fs_file_name_prefix c) (fs_file_extension c) mode) None)
      in if fs_file_mode c = [] then opened 0
         else (case ParseInt (fs_file_mode c) 8 32 of
           Inl e \<Rightarrow> (None, None, Some (Errorf ''file_mode attribute %q is not valid: %w''
             [AStr (fs_file_mode c), AErr (num_error_text (fs_file_mode c) e)]))
         | Inr val \<Rightarrow> opened (of_int val)))"

definition redis_toCache ::
    "os_env \<Rightarrow> (descriptor_cache \<Rightarrow> go_error option) \<Rightarrow> externalRedisCacheConfig \<Rightarrow> opened_cache" where
  "redis_toCache os new_cache c =
     (let password = (if rd_require_auth c then os_getenv os ''REDIS_PASSWORD'' else []);
          user = (if rd_require_auth c then os_getenv os ''REDIS_USER'' else [])
      in if rd_require_auth c \<and> password = [] then
           (None, None, Some (errors_New ''redis.require_auth is true but no REDIS_PASSWORD in environment''))
         else
           (let pool = \<lparr>rp_host = rd_host c, rp_require_auth = rd_require_auth c, rp_user = user,
                  rp_password = password, rp_database = rd_database c, rp_max_idle = 1,
                  rp_idle_timeout = seconds (rd_idle_timeout_seconds c)\<rparr>
            in open_cache new_cache (RedisDescCache pool (rd_key_prefix c) (seconds (rd_expiry_seconds c)))
                 (Some (CloseRedis pool))))"

definition memcache_toCache ::
    "(descriptor_cache \<Rightarrow> go_error option) \<Rightarrow> externalMemcacheConfig \<Rightarrow> opened_cache" where
  "memcache_toCache new_cache c =
     open_cache new_cache (MemcacheCache (mc_hosts c) (mc_key_prefix c) (mc_expiry_seconds c))
       (Some (CloseMemcache (mc_hosts c)))"

fun toCache :: "os_env \<Rightarrow> (descriptor_cache \<Rightarrow> go_error option) \<Rightarrow> cache_config \<Rightarrow> opened_cache" where
  "toCache os new_cache (FileSystemCache c) = file_toCache new_cache c"
| "toCache os new_cache (RedisCache c) = redis_toCache os new_cache c"
| "toCache os new_cache (MemcachedCache c) = memcache_toCache new_cache c"

section \<open>The cache that logs\<close>

datatype cache_log = LoadedFromCache string | SaveFailed string go_error

definition loggingCache_Load :: "(string \<Rightarrow> go_error + bytes) \<Rightarrow> string \<Rightarrow> cache_log list \<times> (go_error + bytes)" where
  "loggingCache_Load load key = (case load key of
     Inl e \<Rightarrow> ([], Inl e) | Inr data \<Rightarrow> ([LoadedFromCache key], Inr data))"

definition loggingCache_Save ::
    "(string \<Rightarrow> bytes \<Rightarrow> go_error option) \<Rightarrow> string \<Rightarrow> bytes \<Rightarrow> cache_log list \<times> go_error option" where
  "loggingCache_Save save key data = (case save key data of
     None \<Rightarrow> ([], None) | Some e \<Rightarrow> ([SaveFailed key e], Some e))"

section \<open>Facts\<close>

lemma newCacheConfig_Ok:
  assumes "newCacheConfig conf n = Ok out"
  shows "out = None \<and> configured_caches conf = []
    \<or> 0 < n \<and> length (configured_caches conf) = 1 \<and>
      (case out of Some (FileSystemCache c) \<Rightarrow> dc_file_system conf = Some c
       | Some (RedisCache c) \<Rightarrow> dc_redis conf = Some c
       | Some (MemcachedCache c) \<Rightarrow> dc_memcached conf = Some c
       | None \<Rightarrow> False)"
  using assms
  by (auto simp: newCacheConfig_def configured_caches_def Let_def split: if_splits option.splits)

lemma newCacheConfig_not_Panic [simp]: "newCacheConfig conf n \<noteq> Panic s"
  by (auto simp: newCacheConfig_def configured_caches_def Let_def split: option.splits)

text \<open>The commands of a new redis connection: authenticate first when required, then select.\<close>

lemma redis_dial_commands:
  assumes "redis_dial dial redis_do p = (cmds, Ok ())"
  shows "cmds = (if rp_require_auth p then [auth_command p] else [])
     @ (if rp_database p \<noteq> 0 then [(''select'', [RInt (rp_database p)])] else [])"
  using assms by (auto simp: redis_dial_def Let_def split: option.splits if_splits)

text \<open>A redis pool that must authenticate has a password.\<close>

lemma redis_toCache_password:
  assumes "redis_toCache os new_cache c = (Some (RedisDescCache pool key_prefix expiry), closer, err)"
  shows "rp_require_auth pool = rd_require_auth c \<and> (rp_require_auth pool \<longrightarrow> rp_password pool \<noteq> [])"
  using assms by (auto simp: redis_toCache_def open_cache_def Let_def split: if_splits)

text \<open>Whoever gets a cache that holds connections gets its closer.\<close>

definition cache_closer :: "descriptor_cache \<Rightarrow> closer option" where
  "cache_closer c = (case c of FileCache _ _ _ _ \<Rightarrow> None
     | RedisDescCache pool _ _ \<Rightarrow> Some (CloseRedis pool)
     | MemcacheCache hosts _ _ \<Rightarrow> Some (CloseMemcache hosts))"

lemma toCache_closer:
  assumes "toCache os new_cache conf = (c_opt, closer, err)"
  shows "closer = (case c_opt of None \<Rightarrow> None | Some c \<Rightarrow> cache_closer c)"
    "c_opt = None \<Longrightarrow> err \<noteq> None"
    "c_opt = Some c \<Longrightarrow> err = new_cache c"
  using assms
  by (cases conf; auto simp: file_toCache_def redis_toCache_def memcache_toCache_def open_cache_def
      cache_closer_def Let_def split: sum.splits if_splits)+

end
