(* ===== verification/App_Descriptors.thy ===== *)
theory App_Descriptors
  imports App_Client
begin

text \<open>
  Descriptor sources (\<^verbatim>\<open>internal/app/knitgateway/descriptors.go\<close>): the choice of one of three
  sources, the pollers they make, and how a poller obtains file descriptors: from a file or
  by gRPC server reflection. The facts say which files the reflection poller returns.
\<close>

section \<open>The source of a backend's descriptors\<close>

record externalDescriptorConfig =
  ed_descriptor_set_file :: string
  ed_buf_module :: string
  ed_grpc_reflection :: bool

datatype descriptor_source =
    DescriptorSetFileSource string | BufModuleSource string | GrpcReflectionSource string

definition descriptor_properties :: "externalDescriptorConfig \<Rightarrow> string list" where
  "descriptor_properties config =
     (if ed_descriptor_set_file config \<noteq> [] then [''descriptor_set_file''] else [])
     @ (if ed_grpc_reflection config then [''grpc_reflection''] else [])
     @ (if ed_buf_module config \<noteq> [] then [''buf_module''] else [])"

definition newDescriptorSource :: "externalDescriptorConfig \<Rightarrow> string \<Rightarrow> bool \<Rightarrow> descriptor_source result" where
  "newDescriptorSource config targetURL h2c =
     (let properties = descriptor_properties config
      in if length properties > 1 then
           Err (Errorf ''descriptor config should have exactly one field set, instead got %d [%v]''
             [AInt (int (length properties)), AStrs properties])
         else if ed_descriptor_set_file config \<noteq> [] then
           Ok (DescriptorSetFileSource (ed_descriptor_set_file config))
         else if ed_buf_module config \<noteq> [] then Ok (BufModuleSource (ed_buf_module config))
         else if ed_grpc_reflection config then
           (if \<not> has_prefix targetURL ''https'' \<and> \<not> h2c then
              Err (errors_New ''cannot use grpc reflection with http scheme without H2C'')
            else Ok (GrpcReflectionSource targetURL))
         else Err (errors_New ''descriptor config is empty''))"

fun source_String :: "descriptor_source \<Rightarrow> string" where
  "source_String (DescriptorSetFileSource f) = ''descriptor set file: '' @ go_quote f"
| "source_String (BufModuleSource b) = ''module '' @ b"
| "source_String (GrpcReflectionSource g) = ''gRPC server reflection '' @ g"

fun isCacheable :: "descriptor_source \<Rightarrow> bool" where
  "isCacheable (DescriptorSetFileSource f) = False"
| "isCacheable (BufModuleSource b) = True"
| "isCacheable (GrpcReflectionSource g) = True"

text \<open>A \<^verbatim>\<open>prototransform.SchemaPoller\<close>. The poller of a module asks the registry at its remote, with a
  token; the reflection poller keeps the client it was given.\<close>

record module_poller =
  mp_remote_url :: string
  mp_token :: string
  mp_module :: string
  mp_version :: string

datatype schema_poller =
    FilePoller string
  | ModulePoller module_poller
  | GrpcReflectionPoller string http_client "client_option list"

definition buf_newPoller :: "os_env \<Rightarrow> string \<Rightarrow> schema_poller result" where
  "buf_newPoller os b =
     (let moduleVersionParts = split_first (CHR '':'') b;
          module = moduleVersionParts ! 0;
          version = (if length moduleVersionParts > 1 then moduleVersionParts ! 1 else []);
          remote = split_first (CHR ''/'') module ! 0
      in obind (of_sum (os_buf_token os b)) (\<lambda>token.
         Ok (ModulePoller \<lparr>mp_remote_url = ''https://api.'' @ remote, mp_token = token,
               mp_module = module, mp_version = version\<rparr>)))"

fun newPoller :: "os_env \<Rightarrow> descriptor_source \<Rightarrow> http_client \<Rightarrow> client_option list \<Rightarrow> schema_poller result" where
  "newPoller os (DescriptorSetFileSource f) client opts = (case os_is_dir os f of
     Inl err \<Rightarrow> Err (Errorf ''failed to load descriptor set %q: %w'' [AStr f, AErr err])
   | Inr is_dir \<Rightarrow>
       if is_dir then Err (Errorf ''failed to load descriptor set %q: path is a directory, not a file'' [AStr f])
       else Ok (FilePoller f))"
| "newPoller os (BufModuleSource b) client opts = buf_newPoller os b"
| "newPoller os (GrpcReflectionSource g) client opts = Ok (GrpcReflectionPoller g client opts)"

definition filePoller_GetSchema :: "os_env \<Rightarrow> string \<Rightarrow> file_proto list result" where
  "filePoller_GetSchema os f =
     obind (of_sum (os_read_file os f)) (\<lambda>data. of_sum (os_unmarshal_files os data))"

text \<open>The id of a module poller is the library's, a parameter.\<close>

definition reflection_GetSchemaID :: "string \<Rightarrow> string" where
  "reflection_GetSchemaID baseURL = ''grpc reflection '' @ baseURL"

fun GetSchemaID :: "(module_poller \<Rightarrow> string) \<Rightarrow> schema_poller \<Rightarrow> string" where
  "GetSchemaID module_id (FilePoller f) = ''file:'' @ f"
| "GetSchemaID module_id (ModulePoller m) = module_id m"
| "GetSchemaID module_id (GrpcReflectionPoller g client opts) = reflection_GetSchemaID g"

section \<open>Files by server reflection\<close>

text \<open>The reflection stream of a server, as what it answers to each request.\<close>

datatype reflect_request = ListServices | FileContainingSymbol string | FileByFilename string

record reflect_stream =
  rf_services :: "go_error + string list"
  rf_containing :: "string \<Rightarrow> go_error + file_proto list"
  rf_by_filename :: "string \<Rightarrow> go_error + file_proto list"

text \<open>The local variables of \<^verbatim>\<open>GetSchema\<close>: \<open>seen\<close>, \<open>results\<close>, \<open>queue\<close>, and the requests sent so far.\<close>

record collector =
  co_seen :: "string list"
  co_results :: "file_proto list"
  co_queue :: "string list"
  co_sent :: "reflect_request list"

definition send_request :: "reflect_request \<Rightarrow> collector \<Rightarrow> collector" where
  "send_request r c = c\<lparr>co_sent := co_sent c @ [r]\<rparr>"

text \<open>The two passes of \<^verbatim>\<open>handleFiles\<close>.\<close>

fun add_files :: "file_proto list \<Rightarrow> collector \<Rightarrow> collector" where
  "add_files [] c = c"
| "add_files (file # files) c =
     (if fp_name file \<in> set (co_seen c) then add_files files c
      else add_files files (c\<lparr>co_results := co_results c @ [file], co_seen := fp_name file # co_seen c\<rparr>))"

fun queue_dependencies :: "string list \<Rightarrow> collector \<Rightarrow> collector" where
  "queue_dependencies [] c = c"
| "queue_dependencies (dep # deps) c =
     (if dep \<in> set (co_seen c) then queue_dependencies deps c
      else queue_dependencies deps (c\<lparr>co_seen := dep # co_seen c, co_queue := co_queue c @ [dep]\<rparr>))"

fun queue_files :: "file_proto list \<Rightarrow> collector \<Rightarrow> collector" where
  "queue_files [] c = c"
| "queue_files (file # files) c =
     (if fp_name file \<in> set (co_seen c) then queue_files files c
      else queue_files files (queue_dependencies (fp_dependency file) c))"

definition handleFiles :: "file_proto list \<Rightarrow> collector \<Rightarrow> collector" where
  "handleFiles files c = queue_files files (add_files files c)"

fun request_symbols :: "reflect_stream \<Rightarrow> string list \<Rightarrow> collector \<Rightarrow> collector \<times> unit result" where
  "request_symbols stream [] c = (c, Ok ())"
| "request_symbols stream (symbol # syms) c =
     (let c1 = send_request (FileContainingSymbol symbol) c
      in case rf_containing stream symbol of
        Inl err \<Rightarrow> (c1, Err err)
      | Inr files \<Rightarrow> request_symbols stream syms (handleFiles files c1))"

text \<open>The loop over the queue; \<^const>\<open>None\<close> is a loop that does not end.\<close>

partial_function (option) drain_queue :: "reflect_stream \<Rightarrow> collector \<Rightarrow> (collector \<times> unit result) option" where
  "drain_queue stream c = (case co_queue c of
     [] \<Rightarrow> Some (c, Ok ())
   | name # rest \<Rightarrow>
       (let c1 = send_request (FileByFilename name) c
        in case rf_by_filename stream name of
          Inl err \<Rightarrow> Some (c1, Err err)
        | Inr files \<Rightarrow> drain_queue stream (handleFiles files (c1\<lparr>co_queue := rest\<rparr>))))"

declare drain_queue.simps [code]

definition empty_collector :: collector where
  "empty_collector = \<lparr>co_seen = [], co_results = [], co_queue = [], co_sent = []\<rparr>"

definition reflect_GetSchema ::
    "reflect_stream \<Rightarrow> string list \<Rightarrow> (reflect_request list \<times> file_proto list result) option" where
  "reflect_GetSchema stream symbols =
     (let start = (if symbols = [] then send_request ListServices empty_collector else empty_collector)
      in case (if symbols = [] then rf_services stream else Inr symbols) of
        Inl err \<Rightarrow> Some (co_sent start, Err err)
      | Inr syms \<Rightarrow> (case request_symbols stream syms start of
          (c, Ok _) \<Rightarrow> (case drain_queue stream c of
             None \<Rightarrow> None
           | Some (c', r) \<Rightarrow> Some (co_sent c', obind r (\<lambda>_. Ok (co_results c'))))
        | (c, Err err) \<Rightarrow> Some (co_sent c, Err err)
        | (c, Panic s) \<Rightarrow> Some (co_sent c, Panic s)))"

section \<open>The source: facts\<close>

lemma newDescriptorSource_not_Panic [simp]: "newDescriptorSource config u h2c \<noteq> Panic s"
  by (simp add: newDescriptorSource_def Let_def)

lemma newDescriptorSource_Ok:
  assumes "newDescriptorSource config u h2c = Ok src"
  shows "length (descriptor_properties config) = 1"
    "src = GrpcReflectionSource g \<Longrightarrow> g = u \<and> (has_prefix u ''https'' \<or> h2c)"
    "src = DescriptorSetFileSource f \<Longrightarrow> f = ed_descriptor_set_file config \<and> f \<noteq> []"
    "src = BufModuleSource b \<Longrightarrow> b = ed_buf_module config \<and> b \<noteq> []"
  using assms
  by (auto simp: newDescriptorSource_def descriptor_properties_def Let_def split: if_splits)

lemma split_first_not_Nil [simp]: "split_first sep s \<noteq> []"
  by (simp add: split_first_def Let_def)

lemma newPoller_not_Panic [simp]: "newPoller os src client opts \<noteq> Panic s"
  by (cases src) (auto simp: buf_newPoller_def obind_iffs Let_def split: sum.splits)

text \<open>A source names its poller, except the client of a reflection poller.\<close>

fun poller_of_source :: "descriptor_source \<Rightarrow> schema_poller \<Rightarrow> bool" where
  "poller_of_source (DescriptorSetFileSource f) p = (p = FilePoller f)"
| "poller_of_source (BufModuleSource b) p =
     (\<exists>m. p = ModulePoller m \<and> mp_module m = split_first (CHR '':'') b ! 0)"
| "poller_of_source (GrpcReflectionSource g) p = (\<exists>client opts. p = GrpcReflectionPoller g client opts)"

lemma newPoller_source: "newPoller os src client opts = Ok p \<Longrightarrow> poller_of_source src p"
  by (cases src) (auto simp: buf_newPoller_def obind_iffs Let_def split: sum.splits if_splits)

section \<open>Which files reflection returns\<close>

text \<open>The first file of each name, in the order received.\<close>

fun first_by_name :: "string set \<Rightarrow> file_proto list \<Rightarrow> file_proto list" where
  "first_by_name seen [] = []"
| "first_by_name seen (f # fs) =
     (if fp_name f \<in> seen then first_by_name seen fs
      else f # first_by_name (insert (fp_name f) seen) fs)"

lemma first_by_name_append:
  "first_by_name seen (xs @ ys) = first_by_name seen xs @ first_by_name (seen \<union> fp_name ` set xs) ys"
  by (induction xs arbitrary: seen) (auto simp: insert_absorb)

lemma first_by_name_distinct:
  "distinct (map fp_name (first_by_name seen fs))
    \<and> fp_name ` set (first_by_name seen fs) = fp_name ` set fs - seen"
  by (induction fs arbitrary: seen) (auto simp: image_iff)

lemma add_files_eq:
  "co_results (add_files fs c) = co_results c @ first_by_name (set (co_seen c)) fs"
  "set (co_seen (add_files fs c)) = set (co_seen c) \<union> fp_name ` set fs"
  "co_queue (add_files fs c) = co_queue c"
  "co_sent (add_files fs c) = co_sent c"
  by (induction fs c rule: add_files.induct) (auto simp: insert_absorb)

text \<open>After the first pass every file has been seen, so the second pass queues nothing.\<close>

lemma queue_files_seen: "fp_name ` set fs \<subseteq> set (co_seen c) \<Longrightarrow> queue_files fs c = c"
  by (induction fs) auto

lemma handleFiles_eq_add_files: "handleFiles fs c = add_files fs c"
  by (simp add: handleFiles_def queue_files_seen add_files_eq)

lemma drain_empty_queue: "co_queue c = [] \<Longrightarrow> drain_queue stream c = Some (c, Ok ())"
  by (subst drain_queue.simps) simp

text \<open>The files a run over the symbols receives, up to the first error.\<close>

fun received_files :: "reflect_stream \<Rightarrow> string list \<Rightarrow> file_proto list result" where
  "received_files stream [] = Ok []"
| "received_files stream (symbol # syms) = (case rf_containing stream symbol of
     Inl err \<Rightarrow> Err err
   | Inr files \<Rightarrow> obind (received_files stream syms) (\<lambda>rest. Ok (files @ rest)))"

lemma request_symbols_Ok:
  assumes "received_files stream syms = Ok fs"
  shows "\<exists>c'. request_symbols stream syms c = (c', Ok ()) \<and> co_queue c' = co_queue c
    \<and> co_sent c' = co_sent c @ map FileContainingSymbol syms
    \<and> co_results c' = co_results c @ first_by_name (set (co_seen c)) fs"
  using assms
proof (induction syms arbitrary: c fs)
  case (Cons s syms)
  from Cons.prems obtain files rest where f: "rf_containing stream s = Inr files"
    "received_files stream syms = Ok rest" "fs = files @ rest"
    by (auto simp: obind_iffs split: sum.splits)
  from Cons.IH [OF f(2), of "handleFiles files (send_request (FileContainingSymbol s) c)"] f show ?case
    by (auto simp: handleFiles_eq_add_files add_files_eq send_request_def first_by_name_append)
qed simp

lemma request_symbols_Err:
  assumes "received_files stream syms = Err e"
  shows "\<exists>c' n. request_symbols stream syms c = (c', Err e)
    \<and> co_sent c' = co_sent c @ map FileContainingSymbol (take n syms)"
  using assms
proof (induction syms arbitrary: c)
  case (Cons s syms)
  show ?case
  proof (cases "rf_containing stream s")
    case (Inl err)
    with Cons.prems have "request_symbols stream (s # syms) c = (send_request (FileContainingSymbol s) c, Err e)"
      by simp
    moreover have "co_sent (send_request (FileContainingSymbol s) c)
        = co_sent c @ map FileContainingSymbol (take 1 (s # syms))"
      by (simp add: send_request_def)
    ultimately show ?thesis by blast
  next
    case (Inr files)
    with Cons.prems have "received_files stream syms = Err e"
      by (auto simp: obind_iffs)
    from Cons.IH [OF this, of "handleFiles files (send_request (FileContainingSymbol s) c)"]
    obtain c' n where c': "request_symbols stream (s # syms) c = (c', Err e)"
      "co_sent c' = co_sent (handleFiles files (send_request (FileContainingSymbol s) c))
         @ map FileContainingSymbol (take n syms)"
      using Inr by auto
    then have "co_sent c' = co_sent c @ map FileContainingSymbol (take (Suc n) (s # syms))"
      by (simp add: handleFiles_eq_add_files add_files_eq send_request_def)
    with c'(1) show ?thesis by blast
  qed
qed simp

lemma received_files_not_Panic [simp]: "received_files stream syms \<noteq> Panic s"
  by (induction syms) (auto simp: obind_iffs split: sum.splits)

definition requested_symbols :: "reflect_stream \<Rightarrow> string list \<Rightarrow> go_error + string list" where
  "requested_symbols stream symbols = (if symbols = [] then rf_services stream else Inr symbols)"

text \<open>\<^verbatim>\<open>GetSchema\<close> ends, never asks for a file by name, and returns the first file of each name that the
  server sent for one of the symbols, and no other.\<close>

lemma reflect_GetSchema_eq:
  "\<exists>sent. reflect_GetSchema stream symbols = Some (sent,
      obind (of_sum (requested_symbols stream symbols)) (\<lambda>syms.
      obind (received_files stream syms) (\<lambda>fs. Ok (first_by_name {} fs))))
    \<and> (\<forall>name. FileByFilename name \<notin> set sent)"
proof -
  define start where "start = (if symbols = [] then send_request ListServices empty_collector else empty_collector)"
  have start: "co_queue start = []" "co_results start = []" "co_seen start = []"
    "\<forall>name. FileByFilename name \<notin> set (co_sent start)"
    by (auto simp: start_def empty_collector_def send_request_def)
  have eq: "(if symbols = [] then rf_services stream else Inr symbols) = requested_symbols stream symbols"
    by (simp add: requested_symbols_def)
  show ?thesis
  proof (cases "requested_symbols stream symbols")
    case (Inl e)
    with start show ?thesis
      unfolding reflect_GetSchema_def start_def [symmetric] eq by simp
  next
    case (Inr syms)
    show ?thesis
    proof (cases "received_files stream syms")
      case (Ok fs)
      from request_symbols_Ok [OF Ok, of start] obtain c' where
        "request_symbols stream syms start = (c', Ok ())" "co_queue c' = []"
        "co_sent c' = co_sent start @ map FileContainingSymbol syms" "co_results c' = first_by_name {} fs"
        using start by auto
      with start Inr Ok show ?thesis
        unfolding reflect_GetSchema_def start_def [symmetric] eq by (auto simp: drain_empty_queue)
    next
      case (Err e)
      from request_symbols_Err [OF Err, of start] obtain c' n where
        "request_symbols stream syms start = (c', Err e)"
        "co_sent c' = co_sent start @ map FileContainingSymbol (take n syms)"
        by auto
      with start Inr Err show ?thesis
        unfolding reflect_GetSchema_def start_def [symmetric] eq by auto
    qed simp
  qed
qed

text \<open>So a server that answers with the file of the symbol alone, which the protocol allows, gives a set
  of files without their dependencies.\<close>

definition files_closed :: "file_proto list \<Rightarrow> bool" where
  "files_closed fs \<longleftrightarrow> (\<forall>f \<in> set fs. set (fp_dependency f) \<subseteq> fp_name ` set fs)"

lemma received_files_singletons:
  assumes "\<And>s. s \<in> set syms \<Longrightarrow> rf_containing stream s = Inr [file_of s]"
  shows "received_files stream syms = Ok (map file_of syms)"
  using assms by (induction syms) auto

lemma first_by_name_names: "fp_name ` set (first_by_name {} fs) = fp_name ` set fs"
  using first_by_name_distinct [of "{}" fs] by simp

lemma first_by_name_first:
  "f \<in> set fs \<Longrightarrow> fp_name f \<notin> seen \<Longrightarrow> (\<And>g. g \<in> set fs \<Longrightarrow> fp_name g = fp_name f \<Longrightarrow> g = f)
     \<Longrightarrow> f \<in> set (first_by_name seen fs)"
proof (induction fs arbitrary: seen)
  case (Cons a fs)
  show ?case
  proof (cases "fp_name a = fp_name f")
    case True
    with Cons.prems(3) [of a] have "a = f" by simp
    with Cons.prems(2) show ?thesis by simp
  next
    case False
    with Cons show ?thesis by auto
  qed
qed simp

lemma reflection_not_closed:
  assumes "symbols \<noteq> []" "\<And>s. s \<in> set symbols \<Longrightarrow> rf_containing stream s = Inr [file_of s]"
    "s \<in> set symbols" "dep \<in> set (fp_dependency (file_of s))" "dep \<notin> (fp_name \<circ> file_of) ` set symbols"
    "\<And>s'. s' \<in> set symbols \<Longrightarrow> fp_name (file_of s') = fp_name (file_of s) \<Longrightarrow> file_of s' = file_of s"
  shows "\<exists>sent fs. reflect_GetSchema stream symbols = Some (sent, Ok fs) \<and> \<not> files_closed fs"
proof -
  let ?fs = "first_by_name {} (map file_of symbols)"
  have "received_files stream symbols = Ok (map file_of symbols)"
    by (rule received_files_singletons) (use assms(2) in blast)
  with reflect_GetSchema_eq [of stream symbols] assms(1)
  obtain sent where "reflect_GetSchema stream symbols = Some (sent, Ok ?fs)"
    by (auto simp: requested_symbols_def)
  moreover have "file_of s \<in> set ?fs"
    by (rule first_by_name_first) (use assms(3,6) in auto)
  then have "\<not> files_closed ?fs"
    using assms(4,5) first_by_name_names [of "map file_of symbols"] by (auto simp: files_closed_def image_image)
  ultimately show ?thesis by blast
qed

end
