(* ===== verification/App_Config.thy ===== *)
theory App_Config
  imports App_Cache App_Descriptors
begin

text \<open>
  The configuration (\<^verbatim>\<open>internal/app/knitgateway/config.go\<close>). \<open>decode\<close> stands for the YAML library: it
  gives the \<^verbatim>\<open>externalGatewayConfig\<close> of the file's first document and whether the file has more
  than one. Everything after that, up to the \<^verbatim>\<open>GatewayConfig\<close> that the process runs on, is
  modelled, every check in the order of the code. The loop over the backends keeps its four
  accumulators in a record (\<open>load_state\<close>); \<open>load_ok\<close> is its invariant.
\<close>

section \<open>The file\<close>

record externalListenConfig =
  el_bind_address :: string
  el_port :: "go_int option"
  el_unix_socket :: string
  el_tls :: "externalServerTLSConfig option"

record externalBackendConfig =
  eb_route_to :: string
  eb_unix_socket :: string
  eb_tls :: "externalClientTLSConfig option"
  eb_h2c :: "bool option"
  eb_protocol :: string
  eb_encoding :: string
  eb_descriptors :: externalDescriptorConfig
  eb_services :: "string list"

record externalDescriptorPollingConfig =
  ep_startup_max_wait_seconds :: go_int
  ep_polling_period_seconds :: go_int
  ep_polling_jitter :: "float64 option"
  ep_polling_debounce_seconds :: go_int
  ep_cache :: externalDescriptorCacheConfig

record externalCORSConfig =
  eo_allowed_origins :: "string list"
  eo_allowed_headers :: "string list"
  eo_allow_credentials :: bool
  eo_allow_private_networks :: bool
  eo_max_age_seconds :: go_int

record externalAdminConfig =
  ea_enabled :: "bool option"
  ea_use_main_listeners :: bool
  ea_bind_address :: string
  ea_port :: go_int
  ea_use_tls :: "bool option"

record externalGatewayConfig =
  ex_listen :: externalListenConfig
  ex_backends :: "externalBackendConfig list"
  ex_per_request_parallelism :: go_int
  ex_default_backend_tls :: "externalClientTLSConfig option"
  ex_cors :: externalCORSConfig
  ex_descriptors :: externalDescriptorPollingConfig
  ex_admin :: externalAdminConfig

section \<open>The configuration of the process\<close>

text \<open>
  A poller in the configuration is a Go pointer: two services share a poller when they were
  configured with the same source. \<open>poller_ref\<close> is the poller with the source it was made for.
\<close>

record poller_ref =
  pr_source :: descriptor_source
  pr_poller :: schema_poller

record service_config =
  sc_base_url :: url
  sc_http_client :: http_client
  sc_connect_opts :: "client_option list"
  sc_descriptors :: poller_ref
  sc_cacheable :: bool

record admin_config =
  ac_use_main_listeners :: bool
  ac_listen_address :: string
  ac_use_tls :: bool

record cors_options =
  co_allowed_origins :: "string list"
  co_allowed_headers :: "string list"
  co_allow_credentials :: bool
  co_allow_private_network :: bool
  co_max_age :: go_int
  co_allow_origin_func :: "(string \<Rightarrow> bool) option"

record gateway_config =
  gc_listen_address :: string
  gc_unix_socket :: string
  gc_tls_config :: "tls_config option"
  gc_cors_config :: cors_options
  gc_services :: "(string \<times> service_config) list"
  gc_max_parallelism :: go_int
  gc_startup_max_wait :: duration
  gc_polling_period :: duration
  gc_polling_jitter :: float64
  gc_polling_debounce :: duration
  gc_cache :: "cache_config option"
  gc_admin :: "admin_config option"
  gc_raw_config :: bytes

definition defaultPollingPeriod :: duration where "defaultPollingPeriod = seconds (15 * 60)"
definition defaultStartupMaxWait :: duration where "defaultStartupMaxWait = seconds 15"

section \<open>Admin endpoints\<close>

text \<open>\<^verbatim>\<open>fmt.Sprintf("%s:%d", host, port)\<close>.\<close>

definition host_port :: "string \<Rightarrow> go_int \<Rightarrow> string" where
  "host_port host port = host @ '':'' @ dec_int (sint port)"

definition other_admin_properties :: "externalAdminConfig \<Rightarrow> bool" where
  "other_admin_properties a \<longleftrightarrow> ea_bind_address a \<noteq> [] \<or> ea_port a \<noteq> 0 \<or> ea_use_tls a \<noteq> None"

definition loadAdminConfig :: "externalGatewayConfig \<Rightarrow> admin_config option result" where
  "loadAdminConfig extConf =
     (let a = ex_admin extConf; l = ex_listen extConf
      in if ea_enabled a = Some False then
           (if ea_use_main_listeners a \<or> other_admin_properties a then
              Err (errors_New (''admin '' @ quoted ''enabled''
                @ '' is false, but other properties for configuring admin endpoints also present''))
            else Ok None)
         else if ea_use_main_listeners a then
           (if other_admin_properties a then
              Err (errors_New (''admin '' @ quoted ''use_main_listeners''
                @ '' is true, but other properties for configuring separate listener are also present''))
            else Ok (Some \<lparr>ac_use_main_listeners = True, ac_listen_address = [], ac_use_tls = False\<rparr>))
         else if ea_use_tls a = Some True \<and> el_tls l = None then
           Err (errors_New (''admin config '' @ quoted ''use_tls''
             @ '' is true, but no server TLS configuration present''))
         else if el_port l = Some (ea_port a) then
           Err (errors_New (''admin port cannot be the same as main listen port (did you mean to instead set ''
             @ quoted ''use_main_listeners'' @ '' to true?)''))
         else Ok (Some \<lparr>ac_use_main_listeners = False,
           ac_listen_address = host_port
             (if ea_bind_address a = [] then ''127.0.0.1'' else ea_bind_address a) (ea_port a),
           ac_use_tls = (case ea_use_tls a of Some b \<Rightarrow> b | None \<Rightarrow> el_tls l \<noteq> None)\<rparr>))"

section \<open>Backends\<close>

definition backend_err :: "nat \<Rightarrow> string \<Rightarrow> fmt_arg list \<Rightarrow> go_error" where
  "backend_err i text args = Errorf (''backend config #%d: '' @ text) (AInt (int i + 1) # args)"

definition wrap_backend :: "nat \<Rightarrow> string \<Rightarrow> 'a result \<Rightarrow> 'a result" where
  "wrap_backend i text r = map_err (\<lambda>e. backend_err i (text @ ''%w'') [AErr e]) r"

lemma wrap_backend_iffs [simp]:
  "wrap_backend i text r = Ok x \<longleftrightarrow> r = Ok x" "wrap_backend i text r = Panic s \<longleftrightarrow> r = Panic s"
  by (simp_all add: wrap_backend_def)

definition backend_url :: "os_env \<Rightarrow> nat \<Rightarrow> externalBackendConfig \<Rightarrow> url result" where
  "backend_url os i b =
     obind (guard_err (eb_route_to b = []) (backend_err i (''missing '' @ quoted ''route_to'' @ '' property'') [])) (\<lambda>_.
     obind (guard_err (eb_services b = [])
       (backend_err i (quoted ''services'' @ '' property should not be empty'') [])) (\<lambda>_.
     obind (map_err (\<lambda>e. backend_err i ''%q is not a valid URL: %w'' [AStr (eb_route_to b), AErr e])
       (of_sum (os_parse_url os (eb_route_to b)))) (\<lambda>routeURL.
     obind (guard_err (url_scheme routeURL \<noteq> ''http'' \<and> url_scheme routeURL \<noteq> ''https'')
       (backend_err i (''%q is not a valid URL: schema should be '' @ quoted ''%s'' @ '' or '' @ quoted ''%s'')
          [AStr (eb_route_to b), AStr ''http'', AStr ''https''])) (\<lambda>_.
     Ok routeURL))))"

text \<open>The encoding, the protocol and H2C: the client options and whether to use HTTP/2 in plaintext.\<close>

definition backend_encoding :: "nat \<Rightarrow> externalBackendConfig \<Rightarrow> client_option list result" where
  "backend_encoding i b =
     (if eb_encoding b = [] \<or> eb_encoding b = ''proto'' then Ok []
      else if eb_encoding b = ''json'' then Ok [WithProtoJSON]
      else Err (backend_err i (''%q is not a valid encoding; should be '' @ quoted ''%s'' @ '' or '' @ quoted ''%s'')
        [AStr (eb_encoding b), AStr ''proto'', AStr ''json'']))"

definition backend_protocol ::
    "nat \<Rightarrow> externalBackendConfig \<Rightarrow> url \<Rightarrow> bool \<Rightarrow> (client_option list \<times> bool) result" where
  "backend_protocol i b routeURL h2c =
     (if eb_protocol b = [] \<or> eb_protocol b = ''connect'' then Ok ([], h2c)
      else if eb_protocol b = ''grpc'' then
        (if eb_h2c b = None then Ok ([OptGRPC], url_scheme routeURL = ''http'')
         else if \<not> h2c then
           Err (backend_err i ''cannot use %s protocol with %s schema w/out H2C'' [AStr ''grpc'', AStr ''http''])
         else Ok ([OptGRPC], h2c))
      else if eb_protocol b = ''grpcweb'' then Ok ([OptGRPCWeb], h2c)
      else Err (backend_err i (''%q is not a valid protocol; should be '' @ quoted ''%s'' @ '', '' @ quoted ''%s''
             @ '', or '' @ quoted ''%s'')
        [AStr (eb_protocol b), AStr ''connect'', AStr ''grpc'', AStr ''grpcweb'']))"

definition backend_options ::
    "nat \<Rightarrow> externalBackendConfig \<Rightarrow> url \<Rightarrow> (client_option list \<times> bool) result" where
  "backend_options i b routeURL =
     obind (backend_encoding i b) (\<lambda>enc.
     let h2c = (eb_h2c b = Some True)
     in obind (guard_err (h2c \<and> url_scheme routeURL = ''https'')
          (backend_err i (quoted ''h2c'' @ '' is enabled, but URL scheme is %q; H2C is for plaintext connections'')
            [AStr (url_scheme routeURL)])) (\<lambda>_.
        obind (backend_protocol i b routeURL h2c) (\<lambda>(opts, h2c').
        Ok (OptInterceptor ''UserAgentInterceptor'' # enc @ opts, h2c'))))"

definition backend_tls ::
    "os_env \<Rightarrow> externalClientTLSConfig option \<Rightarrow> nat \<Rightarrow> externalBackendConfig \<Rightarrow> url \<Rightarrow> tls_config option result" where
  "backend_tls os defaults i b routeURL =
     (if url_scheme routeURL \<noteq> ''https'' then
        obind (guard_err (eb_tls b \<noteq> None) (backend_err i ''tls stanza present but URL scheme is not https'' []))
          (\<lambda>_. Ok None)
      else
        obind (wrap_backend i ''tls: invalid configuration: ''
          (configureClientTLS os (mergeClientTLSConfig (eb_tls b) defaults))) (\<lambda>tls.
        Ok (Some (case eb_tls b of
          Some t \<Rightarrow> if et_server_name t \<noteq> [] then tls\<lparr>tc_server_name := et_server_name t\<rparr> else tls
        | None \<Rightarrow> tls))))"

record load_state =
  ls_pollers :: "(descriptor_source \<times> poller_ref) list"
  ls_cacheable :: nat
  ls_index :: "(string \<times> nat) list"
  ls_services :: "(string \<times> service_config) list"

definition empty_load_state :: load_state where
  "empty_load_state = \<lparr>ls_pollers = [], ls_cacheable = 0, ls_index = [], ls_services = []\<rparr>"

definition lookup_poller ::
    "os_env \<Rightarrow> nat \<Rightarrow> descriptor_source \<Rightarrow> http_client \<Rightarrow> client_option list \<Rightarrow> load_state
     \<Rightarrow> (poller_ref \<times> load_state) result" where
  "lookup_poller os i descSrc httpClient options st = (case map_of (ls_pollers st) descSrc of
     Some poller \<Rightarrow> Ok (poller, st)
   | None \<Rightarrow>
       obind (wrap_backend i [] (newPoller os descSrc httpClient options)) (\<lambda>p.
       let poller = \<lparr>pr_source = descSrc, pr_poller = p\<rparr>
       in Ok (poller, st\<lparr>ls_pollers := AList.update descSrc poller (ls_pollers st)\<rparr>)))"

fun add_services :: "nat \<Rightarrow> service_config \<Rightarrow> string list \<Rightarrow> load_state \<Rightarrow> load_state result" where
  "add_services i svcConf [] st = Ok st"
| "add_services i svcConf (svc # svcs) st = (case map_of (ls_index st) svc of
     Some otherIndex \<Rightarrow>
       Err (backend_err i ''service %q is already configured under backend config #%d''
         [AStr svc, AInt (int otherIndex + 1)])
   | None \<Rightarrow> add_services i svcConf svcs (st\<lparr>
       ls_index := AList.update svc i (ls_index st),
       ls_services := AList.update svc svcConf (ls_services st)\<rparr>))"

definition count_source :: "descriptor_source \<Rightarrow> load_state \<Rightarrow> load_state" where
  "count_source descSrc st =
     (if isCacheable descSrc then st\<lparr>ls_cacheable := ls_cacheable st + 1\<rparr> else st)"

text \<open>One turn of the loop over the backends.\<close>

definition add_backend ::
    "os_env \<Rightarrow> externalClientTLSConfig option \<Rightarrow> nat \<Rightarrow> externalBackendConfig \<Rightarrow> load_state \<Rightarrow> load_state result" where
  "add_backend os defaults i b st =
     obind (backend_url os i b) (\<lambda>routeURL.
     obind (backend_options i b routeURL) (\<lambda>(options, h2c).
     obind (backend_tls os defaults i b routeURL) (\<lambda>clientTLS.
     obind (wrap_backend i ''failed to create HTTP client: ''
       (makeHTTPClient os clientTLS (eb_unix_socket b) h2c)) (\<lambda>httpClient.
     obind (wrap_backend i [] (newDescriptorSource (eb_descriptors b) (eb_route_to b) h2c)) (\<lambda>descSrc.
     obind (lookup_poller os i descSrc httpClient options (count_source descSrc st)) (\<lambda>(poller, st1).
     add_services i \<lparr>sc_base_url = routeURL, sc_http_client = httpClient, sc_connect_opts = options,
         sc_descriptors = poller, sc_cacheable = isCacheable descSrc\<rparr> (eb_services b) st1))))))"

fun add_backends ::
    "os_env \<Rightarrow> externalClientTLSConfig option \<Rightarrow> nat \<Rightarrow> externalBackendConfig list \<Rightarrow> load_state \<Rightarrow> load_state result" where
  "add_backends os defaults i [] st = Ok st"
| "add_backends os defaults i (b # bs) st =
     obind (add_backend os defaults i b st) (\<lambda>st1. add_backends os defaults (Suc i) bs st1)"

section \<open>LoadConfig\<close>

text \<open>\<^verbatim>\<open>%f\<close>: six decimals.\<close>

definition format_fixed6 :: "float64 \<Rightarrow> string" where
  "format_fixed6 x = (case x of
     F_NaN \<Rightarrow> ''NaN'' | F_Inf \<Rightarrow> ''+Inf'' | F_NegInf \<Rightarrow> ''-Inf'' | F_NegZero \<Rightarrow> ''-0.000000''
   | F_Num q \<Rightarrow>
       (let n = nat (round_half_even (\<bar>q\<bar> * 1000000))
        in (if q < 0 then ''-'' else []) @ dec_nat (n div 1000000) @ ''.'' @ pad_nat 6 (n mod 1000000)))"

definition not_negative :: "string \<Rightarrow> go_int \<Rightarrow> unit result" where
  "not_negative name n =
     guard_err (n <s 0) (Errorf (''descriptors.'' @ name @ '' may not be negative: %d'') [int_text n])"

text \<open>\<^verbatim>\<open>if n > 0 { x = time.Second * time.Duration(n) }\<close>.\<close>

definition seconds_or :: "duration \<Rightarrow> go_int \<Rightarrow> duration" where
  "seconds_or fallback n = (if 0 <s n then seconds n else fallback)"

definition load_jitter :: "float64 option \<Rightarrow> float64 result" where
  "load_jitter conf = (case conf of
     None \<Rightarrow> Ok (F_Num (1 / 4))
   | Some jitter \<Rightarrow>
       obind (guard_err (f64_less jitter (F_Num 0))
         (Errorf ''descriptors.polling_jitter may not be negative: %f'' [AStr (format_fixed6 jitter)])) (\<lambda>_.
       obind (guard_err (f64_less (F_Num 1) jitter)
         (Errorf ''descriptors.polling_jitter may not be greater than 1.0: %f'' [AStr (format_fixed6 jitter)])) (\<lambda>_.
       Ok jitter)))"

definition load_cors :: "externalCORSConfig \<Rightarrow> cors_options" where
  "load_cors c = \<lparr>co_allowed_origins = eo_allowed_origins c, co_allowed_headers = eo_allowed_headers c,
     co_allow_credentials = eo_allow_credentials c, co_allow_private_network = eo_allow_private_networks c,
     co_max_age = eo_max_age_seconds c,
     co_allow_origin_func = (if eo_allowed_origins c = [] then Some (\<lambda>_. False) else None)\<rparr>"

text \<open>The polling settings: the period, the jitter and the startup wait, in the order of their checks.\<close>

definition load_polling :: "externalDescriptorPollingConfig \<Rightarrow> (duration \<times> float64 \<times> duration) result" where
  "load_polling p =
     obind (not_negative ''polling_period_seconds'' (ep_polling_period_seconds p)) (\<lambda>_.
     obind (load_jitter (ep_polling_jitter p)) (\<lambda>jitter.
     obind (not_negative ''polling_debounce_seconds'' (ep_polling_debounce_seconds p)) (\<lambda>_.
     obind (not_negative ''startup_max_wait_seconds'' (ep_startup_max_wait_seconds p)) (\<lambda>_.
     Ok (seconds_or defaultPollingPeriod (ep_polling_period_seconds p), jitter,
         seconds_or defaultStartupMaxWait (ep_startup_max_wait_seconds p))))))"

text \<open>The rest of \<^verbatim>\<open>LoadConfig\<close> once every part is checked: the cache and the configuration.\<close>

definition make_config ::
    "bytes \<Rightarrow> externalGatewayConfig \<Rightarrow> admin_config option \<Rightarrow> tls_config option \<Rightarrow> load_state
     \<Rightarrow> duration \<times> float64 \<times> duration \<Rightarrow> gateway_config result" where
  "make_config rawConfig extConf adminConf serverTLS st polling =
     (let listen = ex_listen extConf; (pollingPeriod, jitter, startupMaxWait) = polling
      in
     obind (newCacheConfig (ep_cache (ex_descriptors extConf)) (ls_cacheable st)) (\<lambda>cacheConf.
     Ok \<lparr>gc_listen_address = (case el_port listen of
           None \<Rightarrow> []
         | Some port \<Rightarrow> host_port (if el_bind_address listen = [] then ''0.0.0.0'' else el_bind_address listen) port),
        gc_unix_socket = el_unix_socket listen,
        gc_tls_config = serverTLS,
        gc_cors_config = load_cors (ex_cors extConf),
        gc_services = ls_services st,
        gc_max_parallelism = ex_per_request_parallelism extConf,
        gc_startup_max_wait = startupMaxWait,
        gc_polling_period = pollingPeriod,
        gc_polling_jitter = jitter,
        gc_polling_debounce = seconds (ep_polling_debounce_seconds (ex_descriptors extConf)),
        gc_cache = cacheConf,
        gc_admin = adminConf,
        gc_raw_config = rawConfig\<rparr>))"

definition load_external :: "os_env \<Rightarrow> bytes \<Rightarrow> externalGatewayConfig \<Rightarrow> gateway_config result" where
  "load_external os rawConfig extConf =
     (let listen = ex_listen extConf; tls_defaults = ex_default_backend_tls extConf
      in
     obind (guard_err (el_port listen = None \<and> el_unix_socket listen = [])
       (errors_New (''listen config must include at least one of '' @ quoted ''port'' @ '' or '' @ quoted ''unix_socket''))) (\<lambda>_.
     obind (guard_err (ex_backends extConf = []) (errors_New ''backends config is empty'')) (\<lambda>_.
     obind (loadAdminConfig extConf) (\<lambda>adminConf.
     obind (wrapf ''listen.tls: invalid configuration: %w'' [] (configureServerTLS os (el_tls listen))) (\<lambda>serverTLS.
     obind (wrapf ''default_tls: invalid configuration: %w'' [] (configureClientTLS os tls_defaults)) (\<lambda>_.
     obind (guard_err (case tls_defaults of None \<Rightarrow> False | Some d \<Rightarrow> et_server_name d \<noteq> [])
       (errors_New ''default_tls: invalid configuration: server_name property cannot be used in default settings, only in per-backend config'')) (\<lambda>_.
     obind (add_backends os tls_defaults 0 (ex_backends extConf) empty_load_state) (\<lambda>st.
     obind (load_polling (ex_descriptors extConf)) (\<lambda>(pollingPeriod, jitter, startupMaxWait).
     make_config rawConfig extConf adminConf serverTLS st (pollingPeriod, jitter, startupMaxWait))))))))))"

definition LoadConfig ::
    "os_env \<Rightarrow> (bytes \<Rightarrow> go_error + externalGatewayConfig \<times> bool) \<Rightarrow> string \<Rightarrow> gateway_config result" where
  "LoadConfig os decode path =
     obind (of_sum (os_read_file os path)) (\<lambda>rawConfig.
     obind (of_sum (decode rawConfig)) (\<lambda>(extConf, more_documents).
     obind (guard_err more_documents
       (errors_New ''config file contains multiple documents, should only contain one'')) (\<lambda>_.
     load_external os rawConfig extConf)))"

section \<open>What an accepted backend gives its services\<close>

lemma backend_url_Ok:
  "backend_url os i b = Ok u \<Longrightarrow>
     eb_services b \<noteq> [] \<and> os_parse_url os (eb_route_to b) = Inr u \<and> url_scheme u \<in> {''http'', ''https''}"
  by (auto simp: backend_url_def obind_iffs)

lemma backend_encoding_Ok:
  "backend_encoding i b = Ok enc \<Longrightarrow> enc = (if eb_encoding b = ''json'' then [OptCodec JSONCodec] else [])"
  by (auto simp: backend_encoding_def WithProtoJSON_def WithCodec_def split: if_splits)

lemma backend_protocol_Ok:
  "backend_protocol i b u h2c = Ok (opts, h2c') \<Longrightarrow>
     (h2c' \<longrightarrow> h2c \<or> url_scheme u = ''http'') \<and> (h2c' = h2c \<or> eb_h2c b = None)
     \<and> (OptGRPC \<in> set opts \<and> url_scheme u = ''http'' \<longrightarrow> h2c')
     \<and> (\<forall>c. OptCodec c \<notin> set opts)"
  by (auto simp: backend_protocol_def split: if_splits)

lemma backend_options_Ok:
  assumes "backend_options i b u = Ok (opts, h2c)"
  shows "h2c \<Longrightarrow> url_scheme u = ''http'' \<or> url_scheme u \<noteq> ''https''"
    "OptGRPC \<in> set opts \<Longrightarrow> url_scheme u = ''http'' \<Longrightarrow> h2c"
    "OptCodec JSONCodec \<in> set opts \<longleftrightarrow> eb_encoding b = ''json''"
    "hd opts = OptInterceptor ''UserAgentInterceptor''"
proof -
  from assms obtain enc o' where e: "backend_encoding i b = Ok enc" and
    p: "backend_protocol i b u (eb_h2c b = Some True) = Ok (o', h2c)" and
    g: "\<not> ((eb_h2c b = Some True) \<and> url_scheme u = ''https'')" and
    opts: "opts = OptInterceptor ''UserAgentInterceptor'' # enc @ o'"
    by (auto simp: backend_options_def obind_iffs Let_def)
  note f = backend_encoding_Ok [OF e] backend_protocol_Ok [OF p]
  show "h2c \<Longrightarrow> url_scheme u = ''http'' \<or> url_scheme u \<noteq> ''https''" using f(2) g by blast
  show "OptGRPC \<in> set opts \<Longrightarrow> url_scheme u = ''http'' \<Longrightarrow> h2c"
    using f opts by (simp split: if_splits)
  show "OptCodec JSONCodec \<in> set opts \<longleftrightarrow> eb_encoding b = ''json''" using f opts by simp
  show "hd opts = OptInterceptor ''UserAgentInterceptor''" using opts by simp
qed

lemma tls_config_ok_server_name [simp]: "tls_config_ok (c\<lparr>tc_server_name := n\<rparr>) = tls_config_ok c"
  by (simp add: tls_config_ok_def)

lemma backend_tls_Ok:
  assumes "backend_tls os defaults i b u = Ok tls"
  shows "url_scheme u = ''https'' \<longleftrightarrow> tls \<noteq> None"
    "tls = Some c \<Longrightarrow> tls_config_ok c \<and> tc_client_auth c = NoClientCert"
proof -
  show "url_scheme u = ''https'' \<longleftrightarrow> tls \<noteq> None"
    using assms by (auto simp: backend_tls_def obind_iffs split: if_split_asm)
next
  assume "tls = Some c"
  with assms obtain d where d: "configureClientTLS os (mergeClientTLSConfig (eb_tls b) defaults) = Ok d"
    "c = (case eb_tls b of Some t \<Rightarrow> if et_server_name t \<noteq> [] then d\<lparr>tc_server_name := et_server_name t\<rparr> else d
        | None \<Rightarrow> d)"
    by (auto simp: backend_tls_def obind_iffs split: if_splits)
  from client_tls_ok [OF d(1)] show "tls_config_ok c \<and> tc_client_auth c = NoClientCert"
    unfolding d(2) by (simp split: option.split)
qed

definition service_ok :: "service_config \<Rightarrow> bool" where
  "service_ok sc \<longleftrightarrow> url_scheme (sc_base_url sc) \<in> {''http'', ''https''}
     \<and> (url_scheme (sc_base_url sc) = ''https'' \<longleftrightarrow> client_tls (sc_http_client sc) \<noteq> None)
     \<and> (\<forall>c. client_tls (sc_http_client sc) = Some c \<longrightarrow> tls_config_ok c)
     \<and> (client_h2c (sc_http_client sc) \<longrightarrow> url_scheme (sc_base_url sc) = ''http'')
     \<and> (OptGRPC \<in> set (sc_connect_opts sc) \<and> url_scheme (sc_base_url sc) = ''http'' \<longrightarrow> client_h2c (sc_http_client sc))
     \<and> sc_cacheable sc = isCacheable (pr_source (sc_descriptors sc))
     \<and> poller_of_source (pr_source (sc_descriptors sc)) (pr_poller (sc_descriptors sc))"

text \<open>The invariant of the loop over the backends.\<close>

definition pollers_ok :: "(descriptor_source \<times> poller_ref) list \<Rightarrow> bool" where
  "pollers_ok ps \<longleftrightarrow> (\<forall>src p. map_of ps src = Some p \<longrightarrow> pr_source p = src \<and> poller_of_source src (pr_poller p))"

lemma pollers_ok_lookup: "pollers_ok ps \<Longrightarrow> map_of ps src = Some p \<Longrightarrow> pr_source p = src \<and> poller_of_source src (pr_poller p)"
  unfolding pollers_ok_def by blast

lemma pollers_ok_update:
  "pollers_ok ps \<Longrightarrow> pr_source p = src \<Longrightarrow> poller_of_source src (pr_poller p) \<Longrightarrow> pollers_ok (AList.update src p ps)"
  unfolding pollers_ok_def by simp

definition load_ok :: "load_state \<Rightarrow> bool" where
  "load_ok st \<longleftrightarrow> distinct (map fst (ls_services st))
     \<and> map fst (ls_index st) = map fst (ls_services st)
     \<and> pollers_ok (ls_pollers st)
     \<and> (\<forall>sc \<in> snd ` set (ls_services st). service_ok sc
          \<and> map_of (ls_pollers st) (pr_source (sc_descriptors sc)) = Some (sc_descriptors sc)
          \<and> (sc_cacheable sc \<longrightarrow> 0 < ls_cacheable st))"

lemma load_ok_empty: "load_ok empty_load_state"
  by (simp add: load_ok_def empty_load_state_def pollers_ok_def)

lemma load_ok_count: "load_ok st \<Longrightarrow> load_ok (count_source src st)"
  by (fastforce simp: load_ok_def count_source_def)

lemma map_of_None_fst: "map_of xs k = None \<longleftrightarrow> k \<notin> set (map fst xs)"
  by (auto simp: map_of_eq_None_iff)

lemma lookup_poller_Ok:
  assumes "load_ok st" "lookup_poller os i src client options st = Ok (p, st')"
  shows "load_ok st'" "pr_source p = src" "map_of (ls_pollers st') src = Some p" "ls_cacheable st' = ls_cacheable st"
    "ls_services st' = ls_services st" "ls_pollers st \<noteq> ls_pollers st' \<longrightarrow> map_of (ls_pollers st) src = None"
proof -
  have "load_ok st' \<and> pr_source p = src \<and> map_of (ls_pollers st') src = Some p
    \<and> ls_cacheable st' = ls_cacheable st \<and> ls_services st' = ls_services st
    \<and> (ls_pollers st \<noteq> ls_pollers st' \<longrightarrow> map_of (ls_pollers st) src = None)"
  proof (cases "map_of (ls_pollers st) src")
    case (Some q)
    with assms show ?thesis using pollers_ok_lookup [OF _ Some] by (auto simp: lookup_poller_def load_ok_def)
  next
    case None
    with assms(2) obtain r where r: "newPoller os src client options = Ok r"
      "p = \<lparr>pr_source = src, pr_poller = r\<rparr>" "st' = st\<lparr>ls_pollers := AList.update src p (ls_pollers st)\<rparr>"
      by (auto simp: lookup_poller_def obind_iffs Let_def)
    from assms(1) None newPoller_source [OF r(1)] have "load_ok st'"
      unfolding load_ok_def r(3) by (auto simp: r(2) intro!: pollers_ok_update)
    with r None show ?thesis by simp
  qed
  then show "load_ok st'" "pr_source p = src" "map_of (ls_pollers st') src = Some p"
    "ls_cacheable st' = ls_cacheable st" "ls_services st' = ls_services st"
    "ls_pollers st \<noteq> ls_pollers st' \<longrightarrow> map_of (ls_pollers st) src = None" by simp_all
qed

lemma load_ok_lookup:
  "load_ok st \<Longrightarrow> sc \<in> snd ` set (ls_services st) \<Longrightarrow>
     map_of (ls_pollers st) (pr_source (sc_descriptors sc)) = Some (sc_descriptors sc)"
  unfolding load_ok_def by blast

lemma load_ok_services:
  "load_ok st \<Longrightarrow> distinct (map fst (ls_services st))"
  "load_ok st \<Longrightarrow> sc \<in> snd ` set (ls_services st) \<Longrightarrow> service_ok sc"
  unfolding load_ok_def by blast+

lemma load_ok_snoc:
  assumes "load_ok st" "svc \<notin> set (map fst (ls_services st))" "service_ok sc"
    "map_of (ls_pollers st) (pr_source (sc_descriptors sc)) = Some (sc_descriptors sc)"
    "sc_cacheable sc \<longrightarrow> 0 < ls_cacheable st"
  shows "load_ok (st\<lparr>ls_index := ls_index st @ [(svc, i)], ls_services := ls_services st @ [(svc, sc)]\<rparr>)"
  using assms unfolding load_ok_def by simp

lemma add_services_ok:
  assumes "load_ok st" "service_ok sc" "map_of (ls_pollers st) (pr_source (sc_descriptors sc)) = Some (sc_descriptors sc)"
    "sc_cacheable sc \<longrightarrow> 0 < ls_cacheable st" "add_services i sc svcs st = Ok st'"
  shows "load_ok st' \<and> ls_services st' = ls_services st @ map (\<lambda>svc. (svc, sc)) svcs
    \<and> ls_pollers st' = ls_pollers st \<and> ls_cacheable st' = ls_cacheable st"
  using assms
proof (induction svcs arbitrary: st)
  case (Cons svc svcs)
  let ?st = "st\<lparr>ls_index := AList.update svc i (ls_index st), ls_services := AList.update svc sc (ls_services st)\<rparr>"
  from Cons.prems(5) have new: "map_of (ls_index st) svc = None" and rest: "add_services i sc svcs ?st = Ok st'"
    by (auto split: option.splits)
  from new Cons.prems(1) have fresh: "svc \<notin> set (map fst (ls_index st))" "svc \<notin> set (map fst (ls_services st))"
    by (auto simp: load_ok_def map_of_None_fst simp del: set_map)
  then have upd: "AList.update svc i (ls_index st) = ls_index st @ [(svc, i)]"
    "AList.update svc sc (ls_services st) = ls_services st @ [(svc, sc)]"
    by (simp_all add: AList_update_fresh)
  have "load_ok ?st"
    unfolding upd by (rule load_ok_snoc [OF Cons.prems(1) fresh(2) Cons.prems(2-4)])
  from Cons.IH [OF this _ _ _ rest] Cons.prems(2-4) upd show ?case by simp
qed simp

lemma add_backend_ok:
  assumes "load_ok st" "add_backend os defaults i b st = Ok st'"
  shows "load_ok st'"
    "\<exists>sc. ls_services st' = ls_services st @ map (\<lambda>svc. (svc, sc)) (eb_services b)
      \<and> ls_cacheable st' = ls_cacheable st + (if sc_cacheable sc then 1 else 0) \<and> eb_services b \<noteq> []"
proof -
  from assms(2) obtain u oh tls client src pp where s:
    "backend_url os i b = Ok u" "backend_options i b u = Ok oh" "backend_tls os defaults i b u = Ok tls"
    "makeHTTPClient os tls (eb_unix_socket b) (snd oh) = Ok client"
    "newDescriptorSource (eb_descriptors b) (eb_route_to b) (snd oh) = Ok src"
    "lookup_poller os i src client (fst oh) (count_source src st) = Ok pp"
    "add_services i \<lparr>sc_base_url = u, sc_http_client = client, sc_connect_opts = fst oh,
         sc_descriptors = fst pp, sc_cacheable = isCacheable src\<rparr> (eb_services b) (snd pp) = Ok st'"
    unfolding add_backend_def obind_eq_Ok_iff case_prod_unfold wrap_backend_iffs by blast
  have oh: "backend_options i b u = Ok (fst oh, snd oh)"
    and pp: "lookup_poller os i src client (fst oh) (count_source src st) = Ok (fst pp, snd pp)"
    using s by simp_all
  note p = lookup_poller_Ok [OF load_ok_count [OF assms(1)] pp]
  let ?sc = "\<lparr>sc_base_url = u, sc_http_client = client, sc_connect_opts = fst oh,
         sc_descriptors = fst pp, sc_cacheable = isCacheable src\<rparr>"
  have "service_ok ?sc"
    using backend_url_Ok [OF s(1)] backend_options_Ok [OF oh] backend_tls_Ok [OF s(3)]
      makeHTTPClient_Ok [OF s(4)] p(1,2)
      pollers_ok_lookup [OF _ p(3)]
    by (auto simp: service_ok_def load_ok_def)
  then have r: "load_ok st' \<and> ls_services st' = ls_services (snd pp) @ map (\<lambda>svc. (svc, ?sc)) (eb_services b)
    \<and> ls_pollers st' = ls_pollers (snd pp) \<and> ls_cacheable st' = ls_cacheable (snd pp)"
    by (rule add_services_ok [OF p(1) _ _ _ s(7)]) (simp_all add: p(2-4) count_source_def)
  then show "load_ok st'" by simp
  show "\<exists>sc. ls_services st' = ls_services st @ map (\<lambda>svc. (svc, sc)) (eb_services b)
      \<and> ls_cacheable st' = ls_cacheable st + (if sc_cacheable sc then 1 else 0) \<and> eb_services b \<noteq> []"
    using r p(4,5) backend_url_Ok [OF s(1)]
    by (intro exI [of _ ?sc]) (simp add: count_source_def)
qed

lemma add_backends_ok:
  assumes "load_ok st" "add_backends os defaults i bs st = Ok st'"
  shows "load_ok st'
    \<and> map fst (ls_services st') = map fst (ls_services st) @ concat (map eb_services bs)
    \<and> (bs \<noteq> [] \<longrightarrow> ls_services st' \<noteq> []) \<and> set (ls_services st) \<subseteq> set (ls_services st')
    \<and> (ls_cacheable st < ls_cacheable st' \<longrightarrow> (\<exists>sc \<in> snd ` set (ls_services st'). sc_cacheable sc))"
  using assms
proof (induction bs arbitrary: i st)
  case (Cons b bs)
  from Cons.prems(2) obtain st1 where st1: "add_backend os defaults i b st = Ok st1"
    "add_backends os defaults (Suc i) bs st1 = Ok st'"
    unfolding add_backends.simps obind_eq_Ok_iff by blast
  note ok = add_backend_ok [OF Cons.prems(1) st1(1)]
  from ok(2) obtain sc where sc: "ls_services st1 = ls_services st @ map (\<lambda>svc. (svc, sc)) (eb_services b)"
    "ls_cacheable st1 = ls_cacheable st + (if sc_cacheable sc then 1 else 0)" "eb_services b \<noteq> []" by blast
  from sc(1,3) have mem: "sc \<in> snd ` set (ls_services st1)"
    by (cases "eb_services b") (auto simp: image_Un)
  note IH = Cons.IH [OF ok(1) st1(2)]
  from IH mem have mem': "sc \<in> snd ` set (ls_services st')" by blast
  have "\<exists>sc \<in> snd ` set (ls_services st'). sc_cacheable sc" if "ls_cacheable st < ls_cacheable st'"
  proof (cases "sc_cacheable sc")
    case True
    with mem' show ?thesis by blast
  next
    case False
    with that sc(2) IH show ?thesis by simp
  qed
  with IH ok(1) sc mem' show ?case by (auto simp: comp_def)
qed simp

section \<open>What an accepted configuration contains\<close>

definition config_ok :: "gateway_config \<Rightarrow> bool" where
  "config_ok gc \<longleftrightarrow> (gc_listen_address gc \<noteq> [] \<or> gc_unix_socket gc \<noteq> [])
     \<and> gc_services gc \<noteq> [] \<and> distinct (map fst (gc_services gc))
     \<and> (\<forall>sc \<in> snd ` set (gc_services gc). service_ok sc)
     \<and> (\<forall>sc \<in> snd ` set (gc_services gc). \<forall>sc' \<in> snd ` set (gc_services gc).
          pr_source (sc_descriptors sc) = pr_source (sc_descriptors sc') \<longrightarrow> sc_descriptors sc = sc_descriptors sc')
     \<and> (\<forall>c. gc_tls_config gc = Some c \<longrightarrow> tls_config_ok c \<and> tc_certificates c \<noteq> [])
     \<and> \<not> f64_less (gc_polling_jitter gc) (F_Num 0) \<and> \<not> f64_less (F_Num 1) (gc_polling_jitter gc)
     \<and> (co_allowed_origins (gc_cors_config gc) = [] \<longrightarrow> co_allow_origin_func (gc_cors_config gc) = Some (\<lambda>_. False))
     \<and> (\<forall>a. gc_admin gc = Some a \<longrightarrow> (ac_use_main_listeners a \<longrightarrow> \<not> ac_use_tls a)
          \<and> (ac_use_tls a \<longrightarrow> gc_tls_config gc \<noteq> None)
          \<and> (\<not> ac_use_main_listeners a \<longrightarrow> ac_listen_address a \<noteq> []))"

lemma loadAdminConfig_Ok:
  assumes "loadAdminConfig extConf = Ok (Some a)"
  shows "ac_use_main_listeners a \<longrightarrow> \<not> ac_use_tls a"
    "ac_use_tls a \<Longrightarrow> el_tls (ex_listen extConf) \<noteq> None"
    "\<not> ac_use_main_listeners a \<Longrightarrow> ac_listen_address a \<noteq> []"
    "ea_enabled (ex_admin extConf) \<noteq> Some False"
  using assms by (auto simp: loadAdminConfig_def host_port_def Let_def split: if_split_asm option.split_asm)

lemma load_jitter_Ok:
  "load_jitter conf = Ok j \<Longrightarrow> \<not> f64_less j (F_Num 0) \<and> \<not> f64_less (F_Num 1) j"
  by (auto simp: load_jitter_def obind_iffs split: option.split_asm)

lemma load_polling_Ok:
  "load_polling p = Ok (period, jitter, wait) \<Longrightarrow>
     load_jitter (ep_polling_jitter p) = Ok jitter
     \<and> period = seconds_or defaultPollingPeriod (ep_polling_period_seconds p)
     \<and> wait = seconds_or defaultStartupMaxWait (ep_startup_max_wait_seconds p)
     \<and> \<not> ep_polling_period_seconds p <s 0 \<and> \<not> ep_polling_debounce_seconds p <s 0
     \<and> \<not> ep_startup_max_wait_seconds p <s 0"
  by (auto simp: load_polling_def not_negative_def obind_iffs)

text \<open>The parts of a configuration that was accepted.\<close>

lemma load_external_parts:
  assumes "load_external os raw extConf = Ok gc"
  obtains st admin where
    "add_backends os (ex_default_backend_tls extConf) 0 (ex_backends extConf) empty_load_state = Ok st"
    "ex_backends extConf \<noteq> []"
    "configureServerTLS os (el_tls (ex_listen extConf)) = Ok (gc_tls_config gc)"
    "loadAdminConfig extConf = Ok (gc_admin gc)"
    "load_polling (ex_descriptors extConf) = Ok (gc_polling_period gc, gc_polling_jitter gc, gc_startup_max_wait gc)"
    "newCacheConfig (ep_cache (ex_descriptors extConf)) (ls_cacheable st) = Ok (gc_cache gc)"
    "gc_services gc = ls_services st"
    "gc_cors_config gc = load_cors (ex_cors extConf)"
    "gc_listen_address gc \<noteq> [] \<or> gc_unix_socket gc \<noteq> []"
    "gc_polling_debounce gc = seconds (ep_polling_debounce_seconds (ex_descriptors extConf))"
    "gc_raw_config gc = raw"
  using assms
  by (auto simp: load_external_def make_config_def host_port_def obind_iffs Let_def split: option.split_asm)

text \<open>Its services are those of the backends, and services with one source share one poller.\<close>

lemma load_external_services:
  assumes "load_external os raw extConf = Ok gc"
  shows "map fst (gc_services gc) = concat (map eb_services (ex_backends extConf))"
    "gc_services gc \<noteq> []" "distinct (map fst (gc_services gc))"
    "\<forall>sc \<in> snd ` set (gc_services gc). service_ok sc"
    "\<lbrakk>sc \<in> snd ` set (gc_services gc); sc' \<in> snd ` set (gc_services gc);
      pr_source (sc_descriptors sc) = pr_source (sc_descriptors sc')\<rbrakk> \<Longrightarrow> sc_descriptors sc = sc_descriptors sc'"
    "gc_cache gc \<noteq> None \<Longrightarrow> \<exists>sc \<in> snd ` set (gc_services gc). sc_cacheable sc"
proof -
  from assms obtain st where p:
    "add_backends os (ex_default_backend_tls extConf) 0 (ex_backends extConf) empty_load_state = Ok st"
    "ex_backends extConf \<noteq> []" "newCacheConfig (ep_cache (ex_descriptors extConf)) (ls_cacheable st) = Ok (gc_cache gc)"
    "gc_services gc = ls_services st"
    by (rule load_external_parts) blast
  note st = add_backends_ok [OF load_ok_empty p(1)]
  show "map fst (gc_services gc) = concat (map eb_services (ex_backends extConf))"
    using st p(4) by (simp add: empty_load_state_def)
  show "gc_services gc \<noteq> []" "distinct (map fst (gc_services gc))" "\<forall>sc \<in> snd ` set (gc_services gc). service_ok sc"
    using st p(2) load_ok_services [of st] unfolding p(4) by simp_all
  show "sc_descriptors sc = sc_descriptors sc'"
    if "sc \<in> snd ` set (gc_services gc)" "sc' \<in> snd ` set (gc_services gc)"
      "pr_source (sc_descriptors sc) = pr_source (sc_descriptors sc')"
  proof -
    from st that(1,2) have "map_of (ls_pollers st) (pr_source (sc_descriptors sc)) = Some (sc_descriptors sc)"
      "map_of (ls_pollers st) (pr_source (sc_descriptors sc')) = Some (sc_descriptors sc')"
      unfolding p(4) by (simp_all add: load_ok_lookup)
    with that(3) show ?thesis by (metis option.inject)
  qed
  assume "gc_cache gc \<noteq> None"
  with newCacheConfig_Ok [OF p(3)] have "0 < ls_cacheable st" by auto
  with st show "\<exists>sc \<in> snd ` set (gc_services gc). sc_cacheable sc"
    unfolding p(4) by (simp add: empty_load_state_def)
qed

lemma configureServerTLS_Ok:
  assumes "configureServerTLS os conf = Ok tls"
  shows "tls = Some c \<Longrightarrow> tls_config_ok c \<and> tc_certificates c \<noteq> []" "conf \<noteq> None \<Longrightarrow> tls \<noteq> None"
proof -
  show "tls_config_ok c \<and> tc_certificates c \<noteq> []" if tls: "tls = Some c"
  proof (cases conf)
    case None
    with assms tls show ?thesis by (simp add: configureServerTLS_def)
  next
    case (Some x)
    from assms [unfolded Some] show ?thesis by (rule server_tls_ok) (use tls in simp)
  qed
  assume "conf \<noteq> None"
  then obtain x where "conf = Some x" by blast
  from assms [unfolded this] show "tls \<noteq> None" by (rule server_tls_ok) simp
qed

lemma load_external_ok:
  assumes load: "load_external os raw extConf = Ok gc"
  shows "config_ok gc"
proof -
  from load obtain st where p:
    "configureServerTLS os (el_tls (ex_listen extConf)) = Ok (gc_tls_config gc)"
    "loadAdminConfig extConf = Ok (gc_admin gc)"
    "load_polling (ex_descriptors extConf) = Ok (gc_polling_period gc, gc_polling_jitter gc, gc_startup_max_wait gc)"
    "gc_cors_config gc = load_cors (ex_cors extConf)"
    "gc_listen_address gc \<noteq> [] \<or> gc_unix_socket gc \<noteq> []"
    by (rule load_external_parts) blast
  have jitter: "\<not> f64_less (gc_polling_jitter gc) (F_Num 0)" "\<not> f64_less (F_Num 1) (gc_polling_jitter gc)"
    using load_polling_Ok [OF p(3)] load_jitter_Ok by blast+
  have admin: "(ac_use_main_listeners a \<longrightarrow> \<not> ac_use_tls a) \<and> (ac_use_tls a \<longrightarrow> gc_tls_config gc \<noteq> None)
      \<and> (\<not> ac_use_main_listeners a \<longrightarrow> ac_listen_address a \<noteq> [])" if "gc_admin gc = Some a" for a
    using loadAdminConfig_Ok [OF p(2) [unfolded that]] configureServerTLS_Ok(2) [OF p(1)] by blast
  have cors: "co_allow_origin_func (gc_cors_config gc) = Some (\<lambda>_. False)"
    if "co_allowed_origins (gc_cors_config gc) = []"
    using that unfolding p(4) by (simp add: load_cors_def)
  have all: "\<forall>sc \<in> snd ` set (gc_services gc). \<forall>sc' \<in> snd ` set (gc_services gc).
      pr_source (sc_descriptors sc) = pr_source (sc_descriptors sc') \<longrightarrow> sc_descriptors sc = sc_descriptors sc'"
    "\<forall>c. gc_tls_config gc = Some c \<longrightarrow> tls_config_ok c \<and> tc_certificates c \<noteq> []"
    "co_allowed_origins (gc_cors_config gc) = [] \<longrightarrow> co_allow_origin_func (gc_cors_config gc) = Some (\<lambda>_. False)"
    "\<forall>a. gc_admin gc = Some a \<longrightarrow> (ac_use_main_listeners a \<longrightarrow> \<not> ac_use_tls a)
      \<and> (ac_use_tls a \<longrightarrow> gc_tls_config gc \<noteq> None) \<and> (\<not> ac_use_main_listeners a \<longrightarrow> ac_listen_address a \<noteq> [])"
    by (intro ballI impI, rule load_external_services(5) [OF load]) (assumption+, intro allI impI,
        erule configureServerTLS_Ok(1) [OF p(1)], intro impI, erule cors, intro allI impI, erule admin)
  show ?thesis
    unfolding config_ok_def by (intro conjI) (fact p(5) load_external_services(2-4) [OF load] jitter all)+
qed

lemma LoadConfig_Ok:
  "LoadConfig os decode path = Ok gc \<Longrightarrow>
     \<exists>raw extConf. os_read_file os path = Inr raw \<and> decode raw = Inr (extConf, False)
       \<and> load_external os raw extConf = Ok gc"
  by (auto simp: LoadConfig_def obind_iffs)

section \<open>Rejections are errors, never panics\<close>

lemma wrap_simps_not_Panic: "r \<noteq> Panic s \<Longrightarrow> wrap_backend i t r \<noteq> Panic s" by simp

lemma add_services_not_Panic [simp]: "add_services i sc svcs st \<noteq> Panic s"
  by (induction svcs arbitrary: st) (auto split: option.split)

lemma backend_parts_not_Panic [simp]:
  "backend_url os i b \<noteq> Panic s" "backend_options i b u \<noteq> Panic s"
  "lookup_poller os i src client opts st \<noteq> Panic s"
  by (auto simp: backend_url_def backend_options_def backend_encoding_def backend_protocol_def
      lookup_poller_def obind_iffs Let_def split: if_split_asm option.split_asm)

lemma add_backend_not_Panic: "key_pair_nonempty os \<Longrightarrow> add_backend os defaults i b st \<noteq> Panic s"
  by (auto simp: add_backend_def backend_tls_def obind_iffs configureClientTLS_not_Panic split: if_split_asm)

lemma add_backends_not_Panic: "key_pair_nonempty os \<Longrightarrow> add_backends os defaults i bs st \<noteq> Panic s"
  by (induction bs arbitrary: i st) (auto simp: obind_iffs add_backend_not_Panic)

lemma load_polling_not_Panic [simp]: "load_polling p \<noteq> Panic s"
  by (auto simp: load_polling_def load_jitter_def not_negative_def obind_iffs split: option.split_asm)

lemma loadAdminConfig_not_Panic [simp]: "loadAdminConfig extConf \<noteq> Panic s"
  by (simp add: loadAdminConfig_def Let_def)

lemma LoadConfig_not_Panic: "key_pair_nonempty os \<Longrightarrow> LoadConfig os decode path \<noteq> Panic s"
  by (auto simp: LoadConfig_def load_external_def make_config_def obind_iffs Let_def add_backends_not_Panic
      configureClientTLS_not_Panic configureServerTLS_not_Panic)

text \<open>A service named twice, in one backend or in two, is rejected.\<close>

lemma LoadConfig_duplicate_service:
  assumes "decode raw = Inr (extConf, False)" "os_read_file os path = Inr raw"
    "\<not> distinct (concat (map eb_services (ex_backends extConf)))"
  shows "\<not> is_ok (LoadConfig os decode path)"
proof
  assume "is_ok (LoadConfig os decode path)"
  then obtain gc where "LoadConfig os decode path = Ok gc" by (auto simp: is_ok_iff)
  with assms LoadConfig_Ok have "load_external os raw extConf = Ok gc" by fastforce
  from load_external_ok [OF this] load_external_services(1) [OF this] assms(3) show False by (simp add: config_ok_def)
qed

section \<open>Durations\<close>

lemma not_signed_negative: "\<not> n <s (0 :: 64 word) \<longleftrightarrow> 0 \<le> sint n" "(0 :: 64 word) <s n \<longleftrightarrow> 0 < sint n"
  by (auto simp: word_sless_alt)

lemma sint_seconds_or:
  assumes "\<not> n <s 0" "sint n \<le> 9223372036"
  shows "sint (seconds_or fallback n) = (if n = 0 then sint fallback else 1000000000 * sint n)"
proof (cases "n = 0")
  case False
  with assms(1) have "0 < sint n"
    by (metis not_signed_negative(1) order_less_le sint_0 signed_word_eqI)
  with assms False show ?thesis
    by (simp add: seconds_or_def not_signed_negative sint_seconds)
qed (simp add: seconds_or_def not_signed_negative)

lemma default_durations: "sint defaultPollingPeriod = 900000000000" "sint defaultStartupMaxWait = 15000000000"
  by (simp_all add: defaultPollingPeriod_def defaultStartupMaxWait_def seconds_def second_def)

lemma sint_eq_0_iff: "sint (n :: 64 word) = 0 \<longleftrightarrow> n = 0"
  by (metis sint_0 signed_word_eqI)

lemma load_polling_seconds:
  assumes "load_polling p = Ok (period, jitter, wait)"
    "sint (ep_polling_period_seconds p) \<le> 9223372036" "sint (ep_startup_max_wait_seconds p) \<le> 9223372036"
  shows "sint period = (if ep_polling_period_seconds p = 0 then 900000000000
           else 1000000000 * sint (ep_polling_period_seconds p))"
    "sint wait = (if ep_startup_max_wait_seconds p = 0 then 15000000000
           else 1000000000 * sint (ep_startup_max_wait_seconds p))"
    "0 < sint period" "0 < sint wait"
proof -
  note q = load_polling_Ok [OF assms(1)]
  show p: "sint period = (if ep_polling_period_seconds p = 0 then 900000000000
           else 1000000000 * sint (ep_polling_period_seconds p))"
    and w: "sint wait = (if ep_startup_max_wait_seconds p = 0 then 15000000000
           else 1000000000 * sint (ep_startup_max_wait_seconds p))"
    using q assms(2,3) by (simp_all add: sint_seconds_or default_durations)
  have "0 \<le> sint (ep_polling_period_seconds p)" "0 \<le> sint (ep_startup_max_wait_seconds p)"
    using q by (simp_all add: not_signed_negative(1) [symmetric])
  then show "0 < sint period" "0 < sint wait"
    unfolding p w using sint_eq_0_iff [of "ep_polling_period_seconds p"] sint_eq_0_iff [of "ep_startup_max_wait_seconds p"]
    by auto
qed

end
