(* ===== verification/App_Gateway.thy ===== *)
theory App_Gateway
  imports App_Config
begin

text \<open>
  The gateway of the process (\<^verbatim>\<open>internal/app/knitgateway/gateway.go\<close>), its sequential part: how
  \<^verbatim>\<open>CreateGateway\<close> groups the services by poller and sets up one watcher for each poller,
  \<^verbatim>\<open>AwaitReady\<close>, how \<^verbatim>\<open>CreateHandler\<close> builds a Knit gateway from the schemas the watchers hold,
  and the polling statistics. Go iterates over maps in any order: the operations take the
  order in which the services (or pollers) come as an argument. The concurrent part, the
  update of the handler, is in \<^verbatim>\<open>App_Swap\<close>.
\<close>

section \<open>One watcher per poller\<close>

record poller_details =
  pd_symbols :: "string list"
  pd_cacheable :: bool

text \<open>The loop over the services; the details of a poller are made with its first service.\<close>

fun group_services ::
    "(string \<times> service_config) list \<Rightarrow> (poller_ref \<times> poller_details) list \<Rightarrow> (poller_ref \<times> poller_details) list" where
  "group_services [] info = info"
| "group_services ((svcName, svcConf) # rest) info =
     (let details = (case map_of info (sc_descriptors svcConf) of
            None \<Rightarrow> \<lparr>pd_symbols = [], pd_cacheable = sc_cacheable svcConf\<rparr> | Some d \<Rightarrow> d)
      in group_services rest (AList.update (sc_descriptors svcConf)
           (details\<lparr>pd_symbols := pd_symbols details @ [svcName]\<rparr>) info))"

record watcher_config =
  wc_poller :: poller_ref
  wc_symbols :: "string list"
  wc_period :: duration
  wc_jitter :: float64
  wc_cache :: "descriptor_cache option"
  wc_syncs_others :: bool

definition MaxInt64 :: duration where
  "MaxInt64 = 0x7FFFFFFFFFFFFFFF"

text \<open>\<^verbatim>\<open>jitter != 0\<close>.\<close>

definition f64_nonzero :: "float64 \<Rightarrow> bool" where
  "f64_nonzero x \<longleftrightarrow> x \<noteq> F_NegZero \<and> x \<noteq> F_Num 0"

text \<open>The configuration of the next watcher, and the period and jitter of those after it.\<close>

definition next_watcher ::
    "nat \<Rightarrow> descriptor_cache option \<Rightarrow> duration \<Rightarrow> float64 \<Rightarrow> poller_ref \<Rightarrow> poller_details
     \<Rightarrow> watcher_config \<times> duration \<times> float64" where
  "next_watcher num_pollers schemaCache period jitter poller details =
     (\<lparr>wc_poller = poller, wc_symbols = pd_symbols details, wc_period = period, wc_jitter = jitter,
       wc_cache = (if pd_cacheable details then schemaCache else None),
       wc_syncs_others = (f64_nonzero jitter \<and> num_pollers > 1)\<rparr>,
      if f64_nonzero jitter then MaxInt64 else period,
      if f64_nonzero jitter then F_Num 0 else jitter)"

text \<open>
  The loop that starts the watchers. \<open>new_watcher\<close> is the error of \<^verbatim>\<open>NewSchemaWatcher\<close>,
  \<open>schema_id\<close> the id of a poller in the message. The watchers started so far come back even
  when one fails: they are what the deferred \<open>closeAll\<close> stops.
\<close>

fun start_watchers ::
    "(watcher_config \<Rightarrow> go_error option) \<Rightarrow> (poller_ref \<Rightarrow> string) \<Rightarrow> nat \<Rightarrow> descriptor_cache option
     \<Rightarrow> duration \<Rightarrow> float64 \<Rightarrow> (poller_ref \<times> poller_details) list \<Rightarrow> watcher_config list
     \<Rightarrow> watcher_config list \<times> unit result" where
  "start_watchers new_watcher schema_id n schemaCache period jitter [] started = (started, Ok ())"
| "start_watchers new_watcher schema_id n schemaCache period jitter ((poller, details) # rest) started =
     (let (conf, period', jitter') = next_watcher n schemaCache period jitter poller details
      in case new_watcher conf of
        Some err \<Rightarrow> (started, Err (Errorf ''failed to create schema watcher for %s: %w''
                              [AStr (schema_id poller), AErr err]))
      | None \<Rightarrow> start_watchers new_watcher schema_id n schemaCache period' jitter' rest (started @ [conf]))"

record started_gateway =
  sg_watchers :: "watcher_config list"
  sg_config :: gateway_config

datatype closed = ClosedCache closer | StoppedWatcher poller_ref

text \<open>\<^verbatim>\<open>CreateGateway\<close>: the outcome and what has been closed when it returns. \<open>services\<close> and \<open>order\<close>
  are the iteration orders of \<open>config.Services\<close> and of \<open>pollerInfo\<close>.\<close>

definition CreateGateway ::
    "os_env \<Rightarrow> (descriptor_cache \<Rightarrow> go_error option) \<Rightarrow> (watcher_config \<Rightarrow> go_error option)
     \<Rightarrow> (poller_ref \<Rightarrow> string) \<Rightarrow> (string \<times> service_config) list
     \<Rightarrow> ((poller_ref \<times> poller_details) list \<Rightarrow> (poller_ref \<times> poller_details) list)
     \<Rightarrow> gateway_config \<Rightarrow> started_gateway result \<times> closed list" where
  "CreateGateway os new_cache new_watcher schema_id services order config =
     (let pollerInfo = group_services services [];
          (schemaCache, closer, cache_err) = (case gc_cache config of
             None \<Rightarrow> (None, None, None) | Some c \<Rightarrow> toCache os new_cache c);
          cache_closers = (case closer of None \<Rightarrow> [] | Some c \<Rightarrow> [ClosedCache c])
      in case cache_err of
        Some err \<Rightarrow> (Err (Errorf ''could not create cache: %w'' [AErr err]), cache_closers)
      | None \<Rightarrow>
          (case start_watchers new_watcher schema_id (length pollerInfo) schemaCache
                  (gc_polling_period config) (gc_polling_jitter config) (order pollerInfo) [] of
             (started, Ok _) \<Rightarrow> (Ok \<lparr>sg_watchers = started, sg_config = config\<rparr>, [])
           | (started, Err err) \<Rightarrow>
               (Err err, cache_closers @ map (\<lambda>w. StoppedWatcher (wc_poller w)) started)
           | (started, Panic s) \<Rightarrow> (Panic s, [])))"

text \<open>\<open>await\<close> is \<^verbatim>\<open>SchemaWatcher.AwaitReady\<close> with a context that ends after \<open>StartupMaxWait\<close>.\<close>

fun await_watchers :: "(watcher_config \<Rightarrow> go_error option) \<Rightarrow> watcher_config list \<Rightarrow> unit result" where
  "await_watchers await [] = Ok ()"
| "await_watchers await (w # ws) = (case await w of Some err \<Rightarrow> Err err | None \<Rightarrow> await_watchers await ws)"

definition AwaitReady :: "(duration \<Rightarrow> watcher_config \<Rightarrow> go_error option) \<Rightarrow> started_gateway \<Rightarrow> unit result" where
  "AwaitReady await g = await_watchers (await (gc_startup_max_wait (sg_config g))) (sg_watchers g)"

section \<open>CreateHandler\<close>

text \<open>
  What the handler is built on: the Knit library's parameters, the handles under which the
  clients and watchers are known to it, and what a watcher answers to
  \<^verbatim>\<open>FindDescriptorByName\<close>.
\<close>

record build_env =
  be_lib :: protolib
  be_net :: network
  be_pool :: desc_pool
  be_client :: "http_client \<Rightarrow> nat"
  be_resolver :: "poller_ref \<Rightarrow> nat"
  be_find :: "poller_ref \<Rightarrow> string \<Rightarrow> go_error + descriptor"

fun descriptorKind :: "descriptor \<Rightarrow> string" where
  "descriptorKind (FileDescriptor p) = ''file''"
| "descriptorKind (MessageDescriptor d) = ''message''"
| "descriptorKind (FieldDescriptor is_extension) = (if is_extension then ''extension'' else ''field'')"
| "descriptorKind OneofDescriptor = ''oneof''"
| "descriptorKind (EnumDescriptor e) = ''enum''"
| "descriptorKind EnumValueDescriptor = ''enum value''"
| "descriptorKind (ServiceDescriptor s) = ''service''"
| "descriptorKind (MethodDescriptor m) = ''method''"
| "descriptorKind (OtherDescriptor t) = t"

definition service_options :: "build_env \<Rightarrow> service_config \<Rightarrow> service_option list" where
  "service_options env conf =
     [WithRoute (Some (sc_base_url conf)), WithClient (Some (be_client env (sc_http_client conf))),
      WithClientOptions (sc_connect_opts conf @ [OptInterceptor ''certForwardingInterceptor'']),
      WithTypeResolver (Some (be_resolver env (sc_descriptors conf)))]"

fun add_configured_services ::
    "build_env \<Rightarrow> (string \<times> service_config) list \<Rightarrow> gateway \<Rightarrow> service_desc list
     \<Rightarrow> (gateway \<times> service_desc list) result" where
  "add_configured_services env [] g svcs = Ok (g, svcs)"
| "add_configured_services env ((svcName, svcConf) # rest) g svcs =
     (case be_find env (sc_descriptors svcConf) svcName of
        Inl err \<Rightarrow> Err (Errorf ''could not get descriptor for service %s: %w'' [AStr svcName, AErr err])
      | Inr (ServiceDescriptor svc) \<Rightarrow>
          (case AddService (be_lib env) (be_net env) (be_pool env) g svc (service_options env svcConf) of
             (g1, Ok _) \<Rightarrow> add_configured_services env rest g1 (svcs @ [svc])
           | (g1, Err err) \<Rightarrow>
               Err (Errorf ''failed to register service %s with knitGateway: %w'' [AStr svcName, AErr err])
           | (g1, Panic s) \<Rightarrow> Panic s)
      | Inr desc \<Rightarrow> Err (Errorf ''%s is a %s, not a service'' [AStr svcName, AStr (descriptorKind desc)]))"

definition new_knit_gateway :: "go_int \<Rightarrow> gateway" where
  "new_knit_gateway max_parallelism = \<lparr>gw_client = None, gw_route = None, gw_client_options = [],
     gw_type_resolver = None, gw_max_parallelism = sint max_parallelism,
     gw_methods = Map.empty, gw_relations = Map.empty\<rparr>"

text \<open>\<^verbatim>\<open>handlerWrapper\<close>: the handler of a Knit gateway, and its services sorted by name.\<close>

record handler_wrapper =
  hw_gateway :: gateway
  hw_services :: "service_desc list"

definition build_handler :: "build_env \<Rightarrow> gateway_config \<Rightarrow> (string \<times> service_config) list \<Rightarrow> handler_wrapper result" where
  "build_handler env config services =
     obind (add_configured_services env services (new_knit_gateway (gc_max_parallelism config)) [])
       (\<lambda>(g, svcs). Ok \<lparr>hw_gateway = g, hw_services = sort_key sv_full_name svcs\<rparr>)"

text \<open>The path prefix of the Knit service, from the generated handler.\<close>

definition knit_pattern :: string where
  "knit_pattern = ''/buf.knit.gateway.v1alpha1.KnitService/''"

record gateway_state =
  gs_delegate :: "handler_wrapper option"
  gs_pattern :: string
  gs_pending :: bool

text \<open>\<^verbatim>\<open>CreateHandler\<close> when nothing runs beside it: it replaces the delegate; the first time it also
  takes a pending update signal and sets the pattern. An error changes nothing.\<close>

definition CreateHandler ::
    "build_env \<Rightarrow> gateway_config \<Rightarrow> (string \<times> service_config) list \<Rightarrow> gateway_state \<Rightarrow> gateway_state \<times> unit result" where
  "CreateHandler env config services s = (case build_handler env config services of
     Err e \<Rightarrow> (s, Err e)
   | Panic p \<Rightarrow> (s, Panic p)
   | Ok h \<Rightarrow> (case gs_delegate s of
       Some _ \<Rightarrow> (s\<lparr>gs_delegate := Some h\<rparr>, Ok ())
     | None \<Rightarrow> (s\<lparr>gs_delegate := Some h, gs_pattern := knit_pattern, gs_pending := False\<rparr>, Ok ())))"

text \<open>\<^verbatim>\<open>ServeHTTP\<close>: the delegate's handler, or 503.\<close>

datatype http_reply = Unavailable503 string | Delegated handler_wrapper

definition ServeHTTP :: "gateway_state \<Rightarrow> http_reply" where
  "ServeHTTP s = (case gs_delegate s of
     None \<Rightarrow> Unavailable503 ''gateway not initialized'' | Some h \<Rightarrow> Delegated h)"

section \<open>Polling statistics\<close>

text \<open>Times are nanoseconds; the zero time is \<^const>\<open>None\<close>.\<close>

record polling_stats =
  ps_last_updated :: "int option"
  ps_last_checked :: "int option"
  ps_last_err :: "go_error option"

definition stats_updated :: "int \<Rightarrow> polling_stats \<Rightarrow> polling_stats" where
  "stats_updated now s = s\<lparr>ps_last_updated := Some now\<rparr>"

definition stats_checked :: "int \<Rightarrow> go_error option \<Rightarrow> polling_stats \<Rightarrow> polling_stats" where
  "stats_checked now err s = s\<lparr>ps_last_checked := Some now, ps_last_err := err\<rparr>"

definition LastUpdated :: "polling_stats \<Rightarrow> int option" where
  "LastUpdated s = ps_last_updated s"

definition LastChecked :: "polling_stats \<Rightarrow> int option \<times> go_error option" where
  "LastChecked s = (ps_last_checked s, ps_last_err s)"

text \<open>\<^verbatim>\<open>trackingPoller.GetSchema\<close>: the poller's answer, and the check recorded.\<close>

definition tracking_GetSchema ::
    "(string list \<Rightarrow> string \<Rightarrow> (file_proto list \<times> string) result) \<Rightarrow> int \<Rightarrow> string list \<Rightarrow> string
     \<Rightarrow> polling_stats \<Rightarrow> (file_proto list \<times> string) result \<times> polling_stats" where
  "tracking_GetSchema get_schema now symbols currentVersion s =
     (let r = get_schema symbols currentVersion
      in (r, case r of Ok _ \<Rightarrow> stats_checked now None s
           | Err e \<Rightarrow> stats_checked now (Some e) s | Panic _ \<Rightarrow> s))"

section \<open>The watchers\<close>

text \<open>What the grouping gives for a poller: its services in order, and whether they are cacheable.\<close>

definition services_of :: "poller_ref \<Rightarrow> (string \<times> service_config) list \<Rightarrow> string list" where
  "services_of p services = map fst (filter (\<lambda>e. sc_descriptors (snd e) = p) services)"

definition details_symbols :: "(poller_ref \<times> poller_details) list \<Rightarrow> poller_ref \<Rightarrow> string list" where
  "details_symbols info p = (case map_of info p of None \<Rightarrow> [] | Some d \<Rightarrow> pd_symbols d)"

lemma group_services_symbols:
  "details_symbols (group_services services info) p = details_symbols info p @ services_of p services"
  by (induction services info rule: group_services.induct)
    (auto simp: details_symbols_def services_of_def Let_def split: option.splits)

lemma group_services_distinct: "distinct (map fst info) \<Longrightarrow> distinct (map fst (group_services services info))"
  by (induction services info rule: group_services.induct) (simp_all add: Let_def distinct_update)

lemma group_services_dom:
  "dom (map_of (group_services services info)) = dom (map_of info) \<union> (sc_descriptors \<circ> snd) ` set services"
  by (induction services info rule: group_services.induct) (auto simp: Let_def)

lemma group_services_member:
  assumes "(p, d) \<in> set (group_services services [])"
  shows "pd_symbols d = services_of p services"
proof -
  have "distinct (map fst (group_services services []))" by (simp add: group_services_distinct)
  with assms have "map_of (group_services services []) p = Some d" by simp
  with group_services_symbols [of services "[]" p] show ?thesis by (simp add: details_symbols_def)
qed

lemma group_services_pollers:
  "fst ` set (group_services services []) = (sc_descriptors \<circ> snd) ` set services"
  using group_services_dom [of services "[]"] by (simp add: dom_map_of_conv_image_fst)

text \<open>The schedule: with jitter, the first watcher polls and the others wait to be told.\<close>

fun schedule_ok :: "nat \<Rightarrow> duration \<Rightarrow> float64 \<Rightarrow> watcher_config list \<Rightarrow> bool" where
  "schedule_ok n period jitter [] = True"
| "schedule_ok n period jitter (w # ws) =
     (wc_period w = period \<and> wc_jitter w = jitter \<and> wc_syncs_others w = (f64_nonzero jitter \<and> n > 1)
      \<and> schedule_ok n (if f64_nonzero jitter then MaxInt64 else period)
          (if f64_nonzero jitter then F_Num 0 else jitter) ws)"

lemma start_watchers_facts:
  assumes "start_watchers new_watcher schema_id n cache period jitter todo started = (ws, r)"
  shows "\<exists>k. ws = started @ drop (length started) ws
    \<and> map wc_poller (drop (length started) ws) = take k (map fst todo)
    \<and> map wc_symbols (drop (length started) ws) = take k (map (pd_symbols \<circ> snd) todo)
    \<and> (r = Ok () \<longrightarrow> k = length todo) \<and> (\<forall>s. r \<noteq> Panic s)
    \<and> schedule_ok n period jitter (drop (length started) ws)
    \<and> (\<forall>w \<in> set (drop (length started) ws). new_watcher w = None)"
  using assms
proof (induction new_watcher schema_id n cache period jitter todo started arbitrary: rule: start_watchers.induct)
  case (2 new_watcher schema_id n cache period jitter poller details rest started)
  obtain conf period' jitter' where nw: "next_watcher n cache period jitter poller details = (conf, period', jitter')"
    by (cases "next_watcher n cache period jitter poller details") auto
  then have conf: "wc_poller conf = poller" "wc_symbols conf = pd_symbols details" "wc_period conf = period"
    "wc_jitter conf = jitter" "wc_syncs_others conf = (f64_nonzero jitter \<and> n > 1)"
    "period' = (if f64_nonzero jitter then MaxInt64 else period)"
    "jitter' = (if f64_nonzero jitter then F_Num 0 else jitter)"
    by (auto simp: next_watcher_def)
  show ?case
  proof (cases "new_watcher conf")
    case (Some err)
    with "2.prems" nw have "ws = started" "\<forall>s. r \<noteq> Panic s" "r \<noteq> Ok ()" by auto
    then show ?thesis by (intro exI [of _ 0]) simp
  next
    case None
    with "2.prems" nw have run: "start_watchers new_watcher schema_id n cache period' jitter' rest (started @ [conf]) = (ws, r)"
      by simp
    from "2.IH" [OF nw [symmetric] refl refl None run] obtain k where
      k: "ws = (started @ [conf]) @ drop (length (started @ [conf])) ws"
      "map wc_poller (drop (length (started @ [conf])) ws) = take k (map fst rest)"
      "map wc_symbols (drop (length (started @ [conf])) ws) = take k (map (pd_symbols \<circ> snd) rest)"
      "r = Ok () \<longrightarrow> k = length rest" "\<forall>s. r \<noteq> Panic s"
      "schedule_ok n period' jitter' (drop (length (started @ [conf])) ws)"
      "\<forall>w \<in> set (drop (length (started @ [conf])) ws). new_watcher w = None" by blast
    define tail where "tail = drop (length (started @ [conf])) ws"
    have ws: "ws = started @ conf # tail" using k(1) unfolding tail_def by simp
    then have "drop (length started) ws = conf # tail" by simp
    with k(2-7) conf None ws show ?thesis
      unfolding tail_def [symmetric] by (intro exI [of _ "Suc k"]) (simp add: comp_def)
  qed
qed auto

lemma schedule_ok_rest:
  assumes "\<not> f64_nonzero jitter" "schedule_ok n period jitter ws" "w \<in> set ws"
  shows "wc_period w = period \<and> wc_jitter w = jitter \<and> \<not> wc_syncs_others w"
  using assms by (induction ws) auto

lemma schedule_ok_jitter:
  assumes "f64_nonzero jitter" "schedule_ok n period jitter (w # ws)"
  shows "wc_period w = period \<and> wc_jitter w = jitter \<and> wc_syncs_others w = (n > 1)
    \<and> (\<forall>v \<in> set ws. wc_period v = MaxInt64 \<and> wc_jitter v = F_Num 0 \<and> \<not> wc_syncs_others v)"
  using assms schedule_ok_rest [of "F_Num 0" n MaxInt64 ws] by (auto simp: f64_nonzero_def)

text \<open>\<^verbatim>\<open>CreateGateway\<close> gives every service to exactly one watcher, the one of its poller.\<close>

lemma CreateGateway_Ok:
  assumes "CreateGateway os new_cache new_watcher schema_id services order config = (Ok g, cl)"
    "\<And>xs. mset (order xs) = mset xs"
  shows "cl = []" "sg_config g = config"
    "distinct (map wc_poller (sg_watchers g))"
    "wc_poller ` set (sg_watchers g) = (sc_descriptors \<circ> snd) ` set services"
    "w \<in> set (sg_watchers g) \<Longrightarrow> wc_symbols w = services_of (wc_poller w) services"
    "schedule_ok (length (sg_watchers g)) (gc_polling_period config) (gc_polling_jitter config) (sg_watchers g)"
proof -
  define info where "info = group_services services []"
  from assms(1) obtain cache where run: "start_watchers new_watcher schema_id (length info) cache
      (gc_polling_period config) (gc_polling_jitter config) (order info) [] = (sg_watchers g, Ok ())"
    "cl = []" "sg_config g = config"
    by (auto simp: CreateGateway_def info_def Let_def split: prod.splits option.splits outcome.splits)
  from start_watchers_facts [OF run(1)] have f: "map wc_poller (sg_watchers g) = map fst (order info)"
    "map wc_symbols (sg_watchers g) = map (pd_symbols \<circ> snd) (order info)"
    "schedule_ok (length info) (gc_polling_period config) (gc_polling_jitter config) (sg_watchers g)"
    by auto
  have set: "set (order info) = set info" and len: "length (order info) = length info"
    using assms(2) by (metis mset_eq_setD, metis mset_eq_length)
  show "cl = []" "sg_config g = config" using run by simp_all
  have "mset (map fst (order info)) = mset (map fst info)" using assms(2) by simp
  then show "distinct (map wc_poller (sg_watchers g))"
    unfolding f(1) using group_services_distinct [of "[]" services]
    by (metis distinct.simps(1) info_def list.simps(8) mset_eq_imp_distinct_iff)
  show "wc_poller ` set (sg_watchers g) = (sc_descriptors \<circ> snd) ` set services"
    using f(1) set group_services_pollers [of services] unfolding info_def by (metis list.set_map)
  have "length (sg_watchers g) = length info" using f(1) len by (metis length_map)
  with f(3) show "schedule_ok (length (sg_watchers g)) (gc_polling_period config) (gc_polling_jitter config) (sg_watchers g)"
    by simp
  assume "w \<in> set (sg_watchers g)"
  then obtain i where i: "i < length (sg_watchers g)" "w = sg_watchers g ! i" by (auto simp: in_set_conv_nth)
  with f len \<open>length (sg_watchers g) = length info\<close> have "wc_poller w = fst (order info ! i)" "wc_symbols w = pd_symbols (snd (order info ! i))"
    by (metis nth_map, metis comp_apply nth_map)
  moreover have "order info ! i \<in> set info"
    using i set len \<open>length (sg_watchers g) = length info\<close> by (metis nth_mem)
  ultimately show "wc_symbols w = services_of (wc_poller w) services"
    using group_services_member [of "fst (order info ! i)" "snd (order info ! i)" services] by (simp add: info_def)
qed

text \<open>When it fails, everything that was opened is closed: the cache's connections and every watcher
  that was started.\<close>

lemma CreateGateway_closes:
  assumes "CreateGateway os new_cache new_watcher schema_id services order config = (Err e, cl)"
  shows "gc_cache config = Some cache \<Longrightarrow> fst (snd (toCache os new_cache cache)) = Some c \<Longrightarrow> ClosedCache c \<in> set cl"
    "gc_cache config = None \<or> snd (snd (toCache os new_cache (the (gc_cache config)))) = None \<Longrightarrow>
      start_watchers new_watcher schema_id (length (group_services services []))
        (case gc_cache config of None \<Rightarrow> None | Some c \<Rightarrow> fst (toCache os new_cache c))
        (gc_polling_period config) (gc_polling_jitter config) (order (group_services services [])) [] = (started, r)
      \<Longrightarrow> r = Err e \<and> (StoppedWatcher \<circ> wc_poller) ` set started \<subseteq> set cl"
  using assms
  by (auto simp: CreateGateway_def Let_def split: prod.splits option.splits outcome.splits)

section \<open>The handler\<close>

lemma add_configured_services_Ok:
  assumes "add_configured_services env services g svcs = Ok (g', svcs')"
    "gateway_ok (be_lib env) (be_net env) (be_pool env) g"
  shows "gateway_ok (be_lib env) (be_net env) (be_pool env) g' \<and> gateway_le g g'
    \<and> (\<exists>new. svcs' = svcs @ new
        \<and> list_all2 (\<lambda>(n, conf) svc. be_find env (sc_descriptors conf) n = Inr (ServiceDescriptor svc)) services new
        \<and> (\<forall>svc \<in> set new. \<forall>m \<in> set (sv_methods svc). method_added (be_pool env) g' m))"
  using assms
proof (induction env services g svcs rule: add_configured_services.induct)
  case (2 env svcName svcConf rest g svcs)
  from "2.prems"(1) obtain svc where svc: "be_find env (sc_descriptors svcConf) svcName = Inr (ServiceDescriptor svc)"
    by (auto split: sum.splits descriptor.splits)
  from "2.prems"(1) svc obtain g1 where
    g1: "AddService (be_lib env) (be_net env) (be_pool env) g svc (service_options env svcConf) = (g1, Ok ())"
    and rest: "add_configured_services env rest g1 (svcs @ [svc]) = Ok (g', svcs')"
    by (auto split: prod.splits outcome.splits)
  note facts = addService_facts [OF g1 [unfolded AddService_def]]
  have IH: "gateway_ok (be_lib env) (be_net env) (be_pool env) g' \<and> gateway_le g1 g'
    \<and> (\<exists>new. svcs' = (svcs @ [svc]) @ new
        \<and> list_all2 (\<lambda>(n, conf) svc. be_find env (sc_descriptors conf) n = Inr (ServiceDescriptor svc)) rest new
        \<and> (\<forall>svc \<in> set new. \<forall>m \<in> set (sv_methods svc). method_added (be_pool env) g' m))"
    by (rule "2.IH" [OF svc refl g1 [symmetric] refl rest facts(2) [OF "2.prems"(2)]])
  then obtain new where new: "svcs' = (svcs @ [svc]) @ new"
    "list_all2 (\<lambda>(n, conf) svc. be_find env (sc_descriptors conf) n = Inr (ServiceDescriptor svc)) rest new"
    "\<forall>svc \<in> set new. \<forall>m \<in> set (sv_methods svc). method_added (be_pool env) g' m" by blast
  have "method_added (be_pool env) g' m" if "m \<in> set (sv_methods svc)" for m
    using facts(4) [OF refl that] method_added_mono IH by blast
  with IH new svc facts(1) show ?case
    by (intro conjI exI [of _ "svc # new"]) (auto intro: gateway_le_trans)
qed simp

lemma gateway_ok_new: "gateway_ok lib net pool (new_knit_gateway n)"
  by (simp add: gateway_ok_def new_knit_gateway_def lookup_relation_def)

lemma build_handler_Ok:
  assumes "build_handler env config services = Ok h"
  shows "gateway_ok (be_lib env) (be_net env) (be_pool env) (hw_gateway h)"
    "sorted (map sv_full_name (hw_services h))"
    "\<exists>svcs. mset (hw_services h) = mset svcs \<and>
       list_all2 (\<lambda>(n, conf) svc. be_find env (sc_descriptors conf) n = Inr (ServiceDescriptor svc)) services svcs"
    "svc \<in> set (hw_services h) \<Longrightarrow> m \<in> set (sv_methods svc) \<Longrightarrow> method_added (be_pool env) (hw_gateway h) m"
proof -
  from assms obtain g svcs where run: "add_configured_services env services
      (new_knit_gateway (gc_max_parallelism config)) [] = Ok (g, svcs)"
    and h: "h = \<lparr>hw_gateway = g, hw_services = sort_key sv_full_name svcs\<rparr>"
    by (auto simp: build_handler_def obind_iffs)
  note facts = add_configured_services_Ok [OF run gateway_ok_new]
  show "gateway_ok (be_lib env) (be_net env) (be_pool env) (hw_gateway h)"
    "sorted (map sv_full_name (hw_services h))"
    "svc \<in> set (hw_services h) \<Longrightarrow> m \<in> set (sv_methods svc) \<Longrightarrow> method_added (be_pool env) (hw_gateway h) m"
    using facts h by auto
  show "\<exists>svcs. mset (hw_services h) = mset svcs \<and>
       list_all2 (\<lambda>(n, conf) svc. be_find env (sc_descriptors conf) n = Inr (ServiceDescriptor svc)) services svcs"
    using facts h by auto
qed

text \<open>The first handler stays until another one is built; a failure to build one changes nothing.\<close>

lemma CreateHandler_cases:
  assumes "CreateHandler env config services s = (s', r)"
  shows "r = Ok () \<Longrightarrow> \<exists>h. build_handler env config services = Ok h \<and> gs_delegate s' = Some h"
    "r \<noteq> Ok () \<Longrightarrow> s' = s"
    "gs_delegate s \<noteq> None \<Longrightarrow> gs_delegate s' \<noteq> None \<and> gs_pattern s' = gs_pattern s \<and> gs_pending s' = gs_pending s"
  using assms by (auto simp: CreateHandler_def split: outcome.splits option.splits)

end
