(* ===== verification/App_Main.thy ===== *)
theory App_Main
  imports App_Gateway
begin

text \<open>
  The command (\<^verbatim>\<open>cmd/knitgateway/main.go\<close>): its flags, the startup that composes \<^verbatim>\<open>LoadConfig\<close>,
  \<^verbatim>\<open>CreateGateway\<close>, \<^verbatim>\<open>AwaitReady\<close> and \<^verbatim>\<open>CreateHandler\<close>, the servers it runs, and how the process
  ends. The goroutines of the listeners and the one that shuts the servers down are the
  steps of a transition relation; \<^verbatim>\<open>errgroup\<close> cancels its context with the first error.
\<close>

section \<open>Flags\<close>

text \<open>The flags as \<^verbatim>\<open>flagSet.Parse\<close> leaves them; \<open>fl_args\<close> are the positional arguments of the
  \<^verbatim>\<open>flagSet\<close>. The source asks \<^verbatim>\<open>flag.NArg()\<close>, the count of the package's own flag set, which is
  never parsed.\<close>

record main_flags =
  fl_conf :: string
  fl_log_format :: string
  fl_help :: bool
  fl_version :: bool
  fl_args :: "string list"

definition flag_NArg :: nat where
  "flag_NArg = 0"

datatype main_start = ExitAtOnce nat | StartProcess

text \<open>\<open>build_logger\<close> is the error of zap's \<^verbatim>\<open>Config.Build\<close> for an encoding.\<close>

definition main_begin :: "(string \<Rightarrow> go_error option) \<Rightarrow> main_flags \<Rightarrow> main_start" where
  "main_begin build_logger fl =
     (if fl_version fl then ExitAtOnce 0
      else if flag_NArg > 0 then ExitAtOnce 2
      else if fl_help fl then ExitAtOnce 0
      else (case build_logger (fl_log_format fl) of Some _ \<Rightarrow> ExitAtOnce 1 | None \<Rightarrow> StartProcess))"

text \<open>So positional arguments make no difference.\<close>

lemma positional_arguments_accepted: "main_begin build_logger (fl\<lparr>fl_args := args\<rparr>) = main_begin build_logger fl"
  by (simp add: main_begin_def flag_NArg_def)

section \<open>Startup\<close>

record main_env =
  me_os :: os_env
  me_decode :: "bytes \<Rightarrow> go_error + externalGatewayConfig \<times> bool"
  me_new_cache :: "descriptor_cache \<Rightarrow> go_error option"
  me_new_watcher :: "watcher_config \<Rightarrow> go_error option"
  me_schema_id :: "poller_ref \<Rightarrow> string"
  me_services :: "(string \<times> service_config) list \<Rightarrow> (string \<times> service_config) list"
  me_pollers :: "(poller_ref \<times> poller_details) list \<Rightarrow> (poller_ref \<times> poller_details) list"
  me_await :: "duration \<Rightarrow> watcher_config \<Rightarrow> go_error option"
  me_build :: build_env

record server =
  sv_handler_suffix :: string
  sv_tls :: "tls_config option"
  sv_admin :: bool
  sv_knit :: bool

datatype listener = TcpListener string | UnixListener string

record process =
  pc_config :: gateway_config
  pc_state :: gateway_state
  pc_started :: started_gateway
  pc_main_server :: server
  pc_admin_server :: "server option"

definition fresh_gateway_state :: gateway_state where
  "fresh_gateway_state = \<lparr>gs_delegate = None, gs_pattern = [], gs_pending = False\<rparr>"

definition main_server :: "gateway_config \<Rightarrow> server" where
  "main_server config = \<lparr>sv_handler_suffix = [], sv_tls = gc_tls_config config,
     sv_admin = (case gc_admin config of Some a \<Rightarrow> ac_use_main_listeners a | None \<Rightarrow> False), sv_knit = True\<rparr>"

definition admin_server :: "gateway_config \<Rightarrow> server option" where
  "admin_server config = (case gc_admin config of
     None \<Rightarrow> None
   | Some a \<Rightarrow> if ac_use_main_listeners a then None
              else Some \<lparr>sv_handler_suffix = ''admin'',
                sv_tls = (if ac_use_tls a then gc_tls_config config else None),
                sv_admin = True, sv_knit = False\<rparr>)"

text \<open>An error in one of the four steps ends the process with \<^verbatim>\<open>fatalf\<close>, exit status 1.\<close>

definition startup :: "main_env \<Rightarrow> main_flags \<Rightarrow> process result" where
  "startup env fl =
     obind (wrapf ''failed to load config from %s: %v'' [AStr (fl_conf fl)]
       (LoadConfig (me_os env) (me_decode env) (fl_conf fl))) (\<lambda>config.
     obind (wrapf ''failed to create gateway: %v'' []
       (fst (CreateGateway (me_os env) (me_new_cache env) (me_new_watcher env) (me_schema_id env)
          (me_services env (gc_services config)) (me_pollers env) config))) (\<lambda>started.
     obind (wrapf ''failed to gather all schemas after %v: %v'' [int_text (gc_startup_max_wait config)]
       (AwaitReady (me_await env) started)) (\<lambda>_.
     let (state, r) = CreateHandler (me_build env) config (me_services env (gc_services config)) fresh_gateway_state
     in obind (wrapf ''failed to create gateway handler: %v'' [] r) (\<lambda>_.
     Ok \<lparr>pc_config = config, pc_state = state, pc_started = started,
         pc_main_server = main_server config, pc_admin_server = admin_server config\<rparr>))))"

text \<open>The listeners: the main server's, on an address, a unix socket or both, and the admin server's.\<close>

definition process_listeners :: "process \<Rightarrow> (listener \<times> server) list" where
  "process_listeners p =
     (let config = pc_config p
      in (if gc_listen_address config \<noteq> [] then [(TcpListener (gc_listen_address config), pc_main_server p)] else [])
       @ (if gc_unix_socket config \<noteq> [] then [(UnixListener (gc_unix_socket config), pc_main_server p)] else [])
       @ (case (pc_admin_server p, gc_admin config) of
            (Some s, Some a) \<Rightarrow> [(TcpListener (ac_listen_address a), s)]
          | _ \<Rightarrow> []))"

section \<open>Running and ending\<close>

datatype listener_phase = Starting | Serving | Ended "go_error option"

text \<open>\<open>Ended None\<close> is the sentinel error that every server that was closed returns. The group's
  first error cancels its context.\<close>

record group_state =
  gr_listeners :: "listener_phase list"
  gr_cancelled :: bool
  gr_signal :: bool
  gr_shutdown :: bool
  gr_exit :: "nat option"

definition group_start :: "nat \<Rightarrow> group_state" where
  "group_start n = \<lparr>gr_listeners = replicate n Starting, gr_cancelled = False, gr_signal = False,
     gr_shutdown = False, gr_exit = None\<rparr>"

definition all_ended :: "listener_phase list \<Rightarrow> bool" where
  "all_ended ls \<longleftrightarrow> (\<forall>l \<in> set ls. \<exists>e. l = Ended e)"

datatype group_event = ListenFailed | Listening | SignalReceived | ShutdownCalled | ServerClosed | ServerFailed | ProcessEnded

text \<open>
  \<open>listen_failed\<close>: \<^verbatim>\<open>net.Listen\<close> reports an error, which the goroutine returns. \<open>closed\<close>: after
  \<^verbatim>\<open>Shutdown\<close> a server's \<^verbatim>\<open>Serve\<close> returns \<^verbatim>\<open>ErrServerClosed\<close>. \<open>failed\<close>: \<^verbatim>\<open>Serve\<close> fails otherwise,
  which is \<^verbatim>\<open>Fatalf\<close>. \<open>done\<close>: \<^verbatim>\<open>group.Wait\<close> returns; its error is dropped and the \<^verbatim>\<open>err\<close> that is
  tested after it is the one of \<^verbatim>\<open>CreateGateway\<close>, which is nil.
\<close>

inductive group_step :: "group_state \<Rightarrow> group_event \<Rightarrow> group_state \<Rightarrow> bool" where
  listen_failed: "gr_exit s = None \<Longrightarrow> i < length (gr_listeners s) \<Longrightarrow> gr_listeners s ! i = Starting \<Longrightarrow>
    group_step s ListenFailed (s\<lparr>gr_listeners := (gr_listeners s)[i := Ended (Some err)], gr_cancelled := True\<rparr>)"
| listening: "gr_exit s = None \<Longrightarrow> i < length (gr_listeners s) \<Longrightarrow> gr_listeners s ! i = Starting \<Longrightarrow>
    group_step s Listening (s\<lparr>gr_listeners := (gr_listeners s)[i := Serving]\<rparr>)"
| signal_received: "gr_exit s = None \<Longrightarrow> \<not> gr_signal s \<Longrightarrow> group_step s SignalReceived (s\<lparr>gr_signal := True\<rparr>)"
| shutdown: "gr_exit s = None \<Longrightarrow> gr_cancelled s \<or> gr_signal s \<Longrightarrow> \<not> gr_shutdown s \<Longrightarrow>
    group_step s ShutdownCalled (s\<lparr>gr_shutdown := True\<rparr>)"
| closed: "gr_exit s = None \<Longrightarrow> i < length (gr_listeners s) \<Longrightarrow> gr_listeners s ! i = Serving \<Longrightarrow> gr_shutdown s \<Longrightarrow>
    group_step s ServerClosed (s\<lparr>gr_listeners := (gr_listeners s)[i := Ended None], gr_cancelled := True\<rparr>)"
| failed: "gr_exit s = None \<Longrightarrow> i < length (gr_listeners s) \<Longrightarrow> gr_listeners s ! i = Serving \<Longrightarrow>
    group_step s ServerFailed (s\<lparr>gr_exit := Some 1\<rparr>)"
| ended: "gr_exit s = None \<Longrightarrow> all_ended (gr_listeners s) \<Longrightarrow> gr_shutdown s \<Longrightarrow>
    group_step s ProcessEnded (s\<lparr>gr_exit := Some 0\<rparr>)"

inductive group_run :: "group_state \<Rightarrow> group_event list \<Rightarrow> group_state \<Rightarrow> bool" where
  gr_nil: "group_run s [] s"
| gr_snoc: "group_run s es t \<Longrightarrow> group_step t e u \<Longrightarrow> group_run s (es @ [e]) u"

section \<open>Facts on the startup\<close>

lemma main_begin_ignores_args: "main_begin build_logger (fl\<lparr>fl_args := args\<rparr>) = main_begin build_logger fl"
  by (simp add: main_begin_def)

lemma startup_Ok:
  assumes "startup env fl = Ok p"
  shows "LoadConfig (me_os env) (me_decode env) (fl_conf fl) = Ok (pc_config p)"
    "\<exists>h. build_handler (me_build env) (pc_config p) (me_services env (gc_services (pc_config p))) = Ok h
       \<and> gs_delegate (pc_state p) = Some h"
    "gs_pattern (pc_state p) = knit_pattern"
    "AwaitReady (me_await env) (pc_started p) = Ok ()"
    "pc_main_server p = main_server (pc_config p)" "pc_admin_server p = admin_server (pc_config p)"
proof -
  let ?create = "\<lambda>config. CreateHandler (me_build env) config (me_services env (gc_services config)) fresh_gateway_state"
  from assms obtain config started u v where r:
    "LoadConfig (me_os env) (me_decode env) (fl_conf fl) = Ok config"
    "AwaitReady (me_await env) started = Ok v" "snd (?create config) = Ok u"
    "\<lparr>pc_config = config, pc_state = fst (?create config), pc_started = started,
         pc_main_server = main_server config, pc_admin_server = admin_server config\<rparr> = p"
    unfolding startup_def obind_eq_Ok_iff case_prod_unfold Let_def wrapf_Ok_iff outcome.inject
    by blast
  define state where "state = fst (?create config)"
  from r have s: "LoadConfig (me_os env) (me_decode env) (fl_conf fl) = Ok config"
    "AwaitReady (me_await env) started = Ok ()" "?create config = (state, Ok ())"
    "p = \<lparr>pc_config = config, pc_state = state, pc_started = started,
         pc_main_server = main_server config, pc_admin_server = admin_server config\<rparr>"
    by (simp_all add: state_def prod_eq_iff)
  then show "LoadConfig (me_os env) (me_decode env) (fl_conf fl) = Ok (pc_config p)"
    "AwaitReady (me_await env) (pc_started p) = Ok ()"
    "pc_main_server p = main_server (pc_config p)" "pc_admin_server p = admin_server (pc_config p)"
    by simp_all
  from s(3) show "gs_pattern (pc_state p) = knit_pattern"
    unfolding s(4) by (auto simp: CreateHandler_def fresh_gateway_state_def split: outcome.split_asm)
  from CreateHandler_cases(1) [OF s(3) refl] show "\<exists>h. build_handler (me_build env) (pc_config p)
      (me_services env (gc_services (pc_config p))) = Ok h \<and> gs_delegate (pc_state p) = Some h"
    unfolding s(4) by simp
qed

text \<open>The process listens somewhere, and every listener's server has the TLS settings meant for it.\<close>

lemma startup_listeners:
  assumes "startup env fl = Ok p"
  shows "process_listeners p \<noteq> []"
    "(l, s) \<in> set (process_listeners p) \<Longrightarrow> sv_knit s \<Longrightarrow> sv_tls s = gc_tls_config (pc_config p)"
    "(l, s) \<in> set (process_listeners p) \<Longrightarrow> sv_admin s \<Longrightarrow> gc_admin (pc_config p) \<noteq> None"
    "(l, s) \<in> set (process_listeners p) \<Longrightarrow> \<not> sv_knit s \<Longrightarrow> \<exists>a. gc_admin (pc_config p) = Some a
       \<and> l = TcpListener (ac_listen_address a) \<and> (ac_use_tls a \<longleftrightarrow> sv_tls s \<noteq> None)"
proof -
  note parts = startup_Ok [OF assms]
  from LoadConfig_Ok [OF parts(1)] load_external_ok have ok: "config_ok (pc_config p)" by blast
  then show "process_listeners p \<noteq> []"
    by (auto simp: config_ok_def process_listeners_def Let_def)
  show "(l, s) \<in> set (process_listeners p) \<Longrightarrow> sv_knit s \<Longrightarrow> sv_tls s = gc_tls_config (pc_config p)"
    "(l, s) \<in> set (process_listeners p) \<Longrightarrow> sv_admin s \<Longrightarrow> gc_admin (pc_config p) \<noteq> None"
    using parts(5,6) by (auto simp: process_listeners_def main_server_def admin_server_def Let_def
      split: if_split_asm option.split_asm)
  assume "(l, s) \<in> set (process_listeners p)" "\<not> sv_knit s"
  then obtain a where a: "pc_admin_server p = Some s" "gc_admin (pc_config p) = Some a" "l = TcpListener (ac_listen_address a)"
    using parts(5) by (auto simp: process_listeners_def main_server_def Let_def split: if_split_asm option.split_asm)
  moreover from a(1) parts(6) a(2) have "sv_tls s = (if ac_use_tls a then gc_tls_config (pc_config p) else None)"
    by (auto simp: admin_server_def split: if_split_asm)
  moreover have "ac_use_tls a \<longrightarrow> gc_tls_config (pc_config p) \<noteq> None"
    using ok a(2) by (simp add: config_ok_def)
  ultimately show "\<exists>a. gc_admin (pc_config p) = Some a
       \<and> l = TcpListener (ac_listen_address a) \<and> (ac_use_tls a \<longleftrightarrow> sv_tls s \<noteq> None)" by auto
qed

section \<open>Facts on the end\<close>

text \<open>A listener that has ended cancels the group or follows a shutdown; the process exits with 0 only
  when every listener has ended, with 1 only when a server that served has failed.\<close>

definition group_inv :: "group_state \<Rightarrow> bool" where
  "group_inv s \<longleftrightarrow> ((\<exists>e. Ended e \<in> set (gr_listeners s)) \<longrightarrow> gr_cancelled s)
     \<and> (gr_shutdown s \<longrightarrow> gr_cancelled s \<or> gr_signal s)
     \<and> (gr_exit s = Some 0 \<longrightarrow> all_ended (gr_listeners s))
     \<and> gr_exit s \<in> {None, Some 0, Some 1}"

lemma group_inv_start: "group_inv (group_start n)"
  by (auto simp: group_inv_def group_start_def)

lemma group_inv_step: "group_step s e t \<Longrightarrow> group_inv s \<Longrightarrow> group_inv t"
  by (induction rule: group_step.induct) (auto simp: group_inv_def dest: set_update_subset_insert [THEN subsetD])

lemma group_inv_run: "group_run s es t \<Longrightarrow> group_inv s \<Longrightarrow> group_inv t"
  by (induction rule: group_run.induct) (auto intro: group_inv_step)

text \<open>Once the group is cancelled or a signal has come, the process comes to its end: while it has not
  ended, a step other than a failure to listen or a signal can be taken, and there can only be
  so many.\<close>

fun phase_rank :: "listener_phase \<Rightarrow> nat" where
  "phase_rank Starting = 2"
| "phase_rank Serving = 1"
| "phase_rank (Ended e) = 0"

definition group_rank :: "group_state \<Rightarrow> nat" where
  "group_rank s = sum_list (map phase_rank (gr_listeners s)) + (if gr_shutdown s then 0 else 1)
     + (if gr_signal s then 0 else 1) + (if gr_exit s = None then 1 else 0)"

lemma phase_rank_update:
  assumes "i < length ls" "phase_rank x < phase_rank (ls ! i)"
  shows "sum_list (map phase_rank (ls[i := x])) < sum_list (map phase_rank ls)"
proof -
  from assms(1) have "ls = take i ls @ ls ! i # drop (Suc i) ls" by (simp add: id_take_nth_drop)
  then have "sum_list (map phase_rank ls) =
      sum_list (map phase_rank (take i ls)) + phase_rank (ls ! i) + sum_list (map phase_rank (drop (Suc i) ls))"
    by (metis add.assoc list.simps(9) map_append sum_list.Cons sum_list.append)
  moreover have "sum_list (map phase_rank (ls[i := x])) =
      sum_list (map phase_rank (take i ls)) + phase_rank x + sum_list (map phase_rank (drop (Suc i) ls))"
    using assms(1) by (simp add: upd_conv_take_nth_drop add.assoc)
  ultimately show ?thesis using assms(2) by simp
qed

lemma group_rank_step: "group_step s e t \<Longrightarrow> group_rank t < group_rank s"
  by (induction rule: group_step.induct) (auto simp: group_rank_def intro!: phase_rank_update)

lemma group_rank_run: "group_run s es t \<Longrightarrow> length es + group_rank t \<le> group_rank s"
  by (induction rule: group_run.induct) (auto dest: group_rank_step)

lemma group_progress:
  assumes "gr_exit s = None" "gr_cancelled s \<or> gr_signal s"
  shows "\<exists>e t. group_step s e t \<and> e \<notin> {ListenFailed, SignalReceived, ServerFailed}"
proof (cases "gr_shutdown s")
  case False
  from group_step.shutdown [OF assms False] show ?thesis by blast
next
  case True
  show ?thesis
  proof (cases "all_ended (gr_listeners s)")
    case ended: True
    from group_step.ended [OF assms(1) ended True] show ?thesis by blast
  next
    case False
    then obtain i where i: "i < length (gr_listeners s)" "\<forall>e. gr_listeners s ! i \<noteq> Ended e"
      by (auto simp: all_ended_def in_set_conv_nth)
    show ?thesis
    proof (cases "gr_listeners s ! i")
      case Starting
      from group_step.listening [OF assms(1) i(1) Starting] show ?thesis by blast
    next
      case Serving
      from group_step.closed [OF assms(1) i(1) Serving True] show ?thesis by blast
    qed (use i(2) in simp)
  qed
qed

text \<open>A failure to listen on the only address ends the process with status 0.\<close>

lemma listen_failure_exits_0:
  "\<exists>t. group_run (group_start 1) [ListenFailed, ShutdownCalled, ProcessEnded] t \<and> gr_exit t = Some 0"
proof -
  define s1 where "s1 = (group_start 1)\<lparr>gr_listeners := (gr_listeners (group_start 1))[0 := Ended (Some err)],
    gr_cancelled := True\<rparr>"
  define s2 where "s2 = s1\<lparr>gr_shutdown := True\<rparr>"
  have a: "group_step (group_start 1) ListenFailed s1"
    unfolding s1_def by (rule group_step.listen_failed) (simp_all add: group_start_def)
  have b: "group_step s1 ShutdownCalled s2"
    unfolding s2_def by (rule group_step.shutdown) (simp_all add: s1_def group_start_def)
  have c: "group_step s2 ProcessEnded (s2\<lparr>gr_exit := Some 0\<rparr>)"
    by (rule group_step.ended) (simp_all add: s2_def s1_def group_start_def all_ended_def)
  from gr_snoc [OF gr_snoc [OF gr_snoc [OF gr_nil a] b] c] show ?thesis by auto
qed

lemma group_run_cancelled:
  "group_run s es t \<Longrightarrow> gr_cancelled s \<or> gr_signal s \<Longrightarrow> gr_cancelled t \<or> gr_signal t"
proof (induction rule: group_run.induct)
  case (gr_snoc s es t e u)
  from gr_snoc.hyps(2) gr_snoc.IH [OF gr_snoc.prems] show ?case
    by (cases rule: group_step.cases) auto
qed

lemma group_run_ends:
  assumes "group_run (group_start n) es s" "gr_cancelled s \<or> gr_signal s" "group_run s es' t"
  shows "length es' \<le> group_rank s"
    "gr_exit t \<noteq> None \<or> (\<exists>e u. group_step t e u \<and> e \<notin> {ListenFailed, SignalReceived, ServerFailed})"
    "gr_exit t = Some 0 \<longrightarrow> all_ended (gr_listeners t)"
proof -
  show "length es' \<le> group_rank s" using group_rank_run [OF assms(3)] by simp
  show "gr_exit t \<noteq> None \<or> (\<exists>e u. group_step t e u \<and> e \<notin> {ListenFailed, SignalReceived, ServerFailed})"
    using group_progress [OF _ group_run_cancelled [OF assms(3,2)]] by blast
  show "gr_exit t = Some 0 \<longrightarrow> all_ended (gr_listeners t)"
    using group_inv_run [OF assms(3) group_inv_run [OF assms(1) group_inv_start]] by (simp add: group_inv_def)
qed

end
