(* ===== verification/App_Admin.thy ===== *)
theory App_Admin
  imports App_Gateway Knit_Schema
begin

text \<open>
  The admin endpoints (\<^verbatim>\<open>internal/app/knitgateway/admin.go\<close>): the routes and their methods, the
  listing of services, and the download of a service's schema with the files it imports. A
  reply is its status, the headers that are set, and its contents; the contents of the HTML
  pages are what they show, which \<open>render_body\<close> turns into the text that is written. \<open>to_bytes\<close> is \<^verbatim>\<open>proto.Marshal\<close> of the set of files.
\<close>

section \<open>Replies\<close>

record listing_entry =
  le_service :: string
  le_updated :: string
  le_checked :: string
  le_failed :: bool
  le_fetch :: "string list"
  le_do :: "string list"
  le_listen :: "string list"

datatype body = Text string | Bytes bytes | IndexPage | ListingPage "listing_entry list"

record http_response =
  hr_status :: nat
  hr_headers :: "(string \<times> string) list"
  hr_body :: body

definition reply_ok :: "(string \<times> string) list \<Rightarrow> body \<Rightarrow> http_response" where
  "reply_ok hdrs b = \<lparr>hr_status = 200, hr_headers = hdrs, hr_body = b\<rparr>"

text \<open>\<^verbatim>\<open>http.Error\<close>.\<close>

definition http_Error :: "(string \<times> string) list \<Rightarrow> string \<Rightarrow> nat \<Rightarrow> http_response" where
  "http_Error hdrs text status = \<lparr>hr_status = status, hr_headers = hdrs, hr_body = Text text\<rparr>"

section \<open>Files of a schema\<close>

text \<open>A \<^verbatim>\<open>protoreflect.FileDescriptor\<close>: its path and the files it imports.\<close>

datatype file_desc = FileDesc (file_path: string) (file_imports: "file_desc list")

text \<open>\<open>seen\<close> and \<open>target\<close> are updated in place: they are the pair that is threaded through.\<close>

fun accumulateFiles :: "file_desc \<Rightarrow> string list \<times> file_desc list \<Rightarrow> string list \<times> file_desc list"
and accumulate_imports :: "file_desc list \<Rightarrow> string list \<times> file_desc list \<Rightarrow> string list \<times> file_desc list" where
  "accumulateFiles (FileDesc path imps) (seen, target) =
     (if path \<in> set seen then (seen, target)
      else (let (seen1, target1) = accumulate_imports imps (path # seen, target)
            in (seen1, target1 @ [FileDesc path imps])))"
| "accumulate_imports [] st = st"
| "accumulate_imports (f # fs) st = accumulate_imports fs (accumulateFiles f st)"

section \<open>The handlers\<close>

text \<open>\<^verbatim>\<open>time.Duration.String\<close> of a whole number of seconds.\<close>

definition seconds_text :: "nat \<Rightarrow> string" where
  "seconds_text n =
     (let h = n div 3600; m = n div 60 mod 60; s = n mod 60
      in (if h > 0 then dec_nat h @ ''h'' else []) @ (if n \<ge> 60 then dec_nat m @ ''m'' else [])
         @ dec_nat s @ ''s'')"

text \<open>Times in nanoseconds, the zero time \<^const>\<open>None\<close>; \<open>now\<close> is the clock of \<^verbatim>\<open>time.Since\<close>.\<close>

definition formatTime :: "int \<Rightarrow> int option \<Rightarrow> string" where
  "formatTime now t = (case t of
     None \<Rightarrow> ''<i>never</i>''
   | Some t \<Rightarrow> if now - t < 1000000000 then ''just now''
              else seconds_text (nat ((now - t) div 1000000000)) @ '' ago'')"

text \<open>The loop over the methods of a service: the names to list under Fetch, Do and Listen.\<close>

fun classify_methods :: "method_desc list \<Rightarrow> string list \<times> string list \<times> string list" where
  "classify_methods [] = ([], [], [])"
| "classify_methods (m # ms) =
     (let (fetches, dos, listens) = classify_methods ms
      in if mth_streaming_client m then (fetches, dos, listens)
         else if mth_streaming_server m then (fetches, dos, mth_name m # listens)
         else if mth_options_ok m \<and> mth_idempotency m = NoSideEffects then (mth_name m # fetches, dos, listens)
         else (fetches, mth_name m # dos, listens))"

text \<open>The entry of a service. A service of the handler that is not configured has no statistics: the
  code would dereference nil.\<close>

definition service_entry ::
    "int \<Rightarrow> gateway_config \<Rightarrow> (poller_ref \<Rightarrow> polling_stats option) \<Rightarrow> service_desc \<Rightarrow> listing_entry result" where
  "service_entry now config stats svc =
     (let (fetches, dos, listens) = classify_methods (sv_methods svc)
      in case map_of (gc_services config) (sv_full_name svc) of
        None \<Rightarrow> Panic ''nil dereference''
      | Some svcConf \<Rightarrow> (case stats (sc_descriptors svcConf) of
          None \<Rightarrow> Panic ''nil dereference''
        | Some st \<Rightarrow> Ok \<lparr>le_service = sv_full_name svc,
            le_updated = formatTime now (LastUpdated st),
            le_checked = formatTime now (fst (LastChecked st)),
            le_failed = (snd (LastChecked st) \<noteq> None),
            le_fetch = fetches, le_do = dos, le_listen = listens\<rparr>))"

definition handleServiceListing ::
    "int \<Rightarrow> gateway_config \<Rightarrow> (poller_ref \<Rightarrow> polling_stats option) \<Rightarrow> service_desc list \<Rightarrow> http_response result" where
  "handleServiceListing now config stats services =
     obind (omap (service_entry now config stats) services) (\<lambda>entries. Ok (reply_ok [] (ListingPage entries)))"

definition find_service :: "service_desc list \<Rightarrow> string \<Rightarrow> service_desc option" where
  "find_service services name = find (\<lambda>svc. sv_full_name svc = name) services"

definition double_quote :: string where
  "double_quote = [char_of (34::nat)]"

definition handleServiceSchema ::
    "(service_desc \<Rightarrow> file_desc) \<Rightarrow> (file_desc list \<Rightarrow> string + bytes) \<Rightarrow> service_desc list \<Rightarrow> string \<Rightarrow> http_response" where
  "handleServiceSchema parent_file to_bytes services serviceName =
     (case find_service services serviceName of
        None \<Rightarrow> http_Error [] (''Unknown service name: '' @ go_quote serviceName) 404
      | Some svc \<Rightarrow>
          (case to_bytes (snd (accumulateFiles (parent_file svc) ([], []))) of
             Inl err \<Rightarrow> http_Error [] (''Failed to marshal file descriptor set: '' @ err) 500
           | Inr data \<Rightarrow> reply_ok
               [(''Content-Type'', ''application/x-protobuf; messageType='' @ double_quote
                   @ ''google.protobuf.FileDescriptorSet'' @ double_quote @ double_quote),
                (''Content-Disposition'', ''attachment; filename='' @ double_quote @ sv_name svc
                   @ ''-schema.bin'' @ double_quote)]
               (Bytes data)))"

text \<open>\<^verbatim>\<open>handleFunc\<close>: the guard on the request's method.\<close>

definition handleFunc :: "string \<Rightarrow> string \<Rightarrow> 'a \<Rightarrow> (http_response \<Rightarrow> 'a) \<Rightarrow> 'a" where
  "handleFunc expected req_method handled reject =
     (if req_method \<noteq> expected then
        reject (http_Error [(''Allow'', expected)] (''unsupported method '' @ go_quote expected) 405)
      else handled)"

text \<open>What a request does: a reply, and the watchers told to reload.\<close>

record admin_env =
  ae_now :: int
  ae_config :: gateway_config
  ae_watchers :: "watcher_config list"
  ae_stats :: "poller_ref \<Rightarrow> polling_stats option"
  ae_services :: "service_desc list option"
  ae_parent_file :: "service_desc \<Rightarrow> file_desc"
  ae_to_bytes :: "file_desc list \<Rightarrow> string + bytes"

definition services_page :: "admin_env \<Rightarrow> string \<Rightarrow> http_response result" where
  "services_page env path =
     (let serviceName = trim_prefix path ''/admin/services/''
      in if CHR ''/'' \<in> set serviceName then
           Ok (http_Error [] (''Not a valid service name: '' @ go_quote serviceName) 404)
         else (case ae_services env of
           None \<Rightarrow> Ok (http_Error [] ''gateway not initialized'' 503)
         | Some services \<Rightarrow>
             if serviceName = [] then handleServiceListing (ae_now env) (ae_config env) (ae_stats env) services
             else Ok (handleServiceSchema (ae_parent_file env) (ae_to_bytes env) services serviceName)))"

text \<open>The four patterns, as \<^verbatim>\<open>http.ServeMux\<close> chooses among them for a clean path: an exact pattern,
  else the longest prefix; the path of a prefix pattern without its last slash is redirected.\<close>

datatype admin_route = RouteIndex | RouteConfig | RouteReload | RouteServices | RouteRedirect string | NoRoute

definition admin_routes :: "string \<Rightarrow> admin_route" where
  "admin_routes path =
     (if path = ''/admin/config'' then RouteConfig
      else if path = ''/admin/reload-now'' then RouteReload
      else if path = ''/admin'' \<or> path = ''/admin/services'' then RouteRedirect (path @ ''/'')
      else if has_prefix path ''/admin/services/'' then RouteServices
      else if has_prefix path ''/admin/'' then RouteIndex
      else NoRoute)"

definition admin_request :: "admin_env \<Rightarrow> string \<Rightarrow> string \<Rightarrow> http_response result \<times> poller_ref list" where
  "admin_request env req_method path = (case admin_routes path of
     RouteIndex \<Rightarrow> handleFunc ''GET'' req_method (Ok (reply_ok [] IndexPage), []) (\<lambda>r. (Ok r, []))
   | RouteConfig \<Rightarrow> handleFunc ''GET'' req_method
       (Ok (reply_ok [(''Content-Type'', ''text/yaml'')] (Bytes (gc_raw_config (ae_config env)))), [])
       (\<lambda>r. (Ok r, []))
   | RouteReload \<Rightarrow> handleFunc ''POST'' req_method
       (Ok (reply_ok [] (Text ''Reloaded'')), map wc_poller (ae_watchers env)) (\<lambda>r. (Ok r, []))
   | RouteServices \<Rightarrow> handleFunc ''GET'' req_method (services_page env path, []) (\<lambda>r. (Ok r, []))
   | RouteRedirect target \<Rightarrow>
       (Ok \<lparr>hr_status = 301, hr_headers = [(''Location'', target)], hr_body = Text ''Moved Permanently''\<rparr>, [])
   | NoRoute \<Rightarrow> (Ok (http_Error [] ''404 page not found'' 404), []))"

section \<open>The pages\<close>

text \<open>The lines of a raw string, each after a newline and \<open>n\<close> tabs.\<close>

definition page_lines :: "nat \<Rightarrow> string list \<Rightarrow> string" where
  "page_lines n ls = concat (map (\<lambda>l. CHR 0x0A # replicate n (CHR 0x09) @ l) ls)"

definition line :: "string \<Rightarrow> string" where
  "line l = l @ [CHR 0x0A]"

definition index_page :: string where
  "index_page = page_lines 2
     [''<html>'', ''<head><title>Admin :: knitgateway</title></head>'', ''<body>'', ''<h1>Admin for knitgateway</h1>'', ''<ul>'',
      ''<li><a href=\"/admin/config\">View config</a>'', ''<li><a href=\"/admin/services/\">Service listing</a>'',
      ''<li><form style='display:none' id=\"reload\" action=\"/admin/reload-now\" method=\"post\"></form>'',
      CHR 0x09 # ''<a href=\"#\" onclick=\"javascript:document.querySelector('form#reload').submit()\">Reload schemas</a>'',
      ''</ul>'', ''</body>'', []]"

definition method_items :: "string \<Rightarrow> string list \<Rightarrow> string" where
  "method_items name methods =
     (if methods = [] then []
      else line (''<li>'' @ name @ '' <ul>'') @ concat (map (\<lambda>m. line (''<li>'' @ m @ ''</li>'')) methods)
        @ line ''</ul> </li>'')"

definition entry_item :: "listing_entry \<Rightarrow> string" where
  "entry_item e =
     page_lines 2 [''<li><b>'' @ le_service e @ ''</b>:<br/>'',
       CHR 0x09 # ''Last updated: '' @ le_updated e @ ''<br/>'',
       CHR 0x09 # ''Last checked: '' @ le_checked e @ (if le_failed e then '' (failed)'' else []) @ ''<br/>'',
       CHR 0x09 # ''<a href=\"/admin/services/'' @ le_service e @ ''\">Download schema</a><br/>'',
       CHR 0x09 # ''Methods:'', []]
     @ (if le_fetch e = [] \<and> le_do e = [] \<and> le_listen e = [] then line ''<ul><li><i>None</i></li></ul>''
        else line ''<ul>'' @ method_items ''Fetch'' (le_fetch e) @ method_items ''Do'' (le_do e)
          @ method_items ''Listen'' (le_listen e) @ ''</ul>'')
     @ page_lines 4 [''</li>'']"

definition listing_page :: "listing_entry list \<Rightarrow> string" where
  "listing_page entries =
     page_lines 1 [''<html>'', ''<head><title>Admin -- Services :: knitgateway</title></head>'', ''<body>'',
       ''<h1>Configured services</h1>'', ''<ul>'', []]
     @ concat (map entry_item entries) @ page_lines 1 [''</ul>'', ''</body>'', []]"

definition render_body :: "body \<Rightarrow> bytes" where
  "render_body b = (case b of
     Text s \<Rightarrow> map of_char s | Bytes bs \<Rightarrow> bs
   | IndexPage \<Rightarrow> map of_char index_page | ListingPage entries \<Rightarrow> map of_char (listing_page entries))"

text \<open>Every method of the listing is shown, under its service.\<close>

lemma method_items_sublist: "m \<in> set methods \<Longrightarrow> sublist (line (''<li>'' @ m @ ''</li>'')) (method_items name methods)"
proof -
  assume m: "m \<in> set methods"
  then obtain xs ys where "methods = xs @ m # ys" by (auto simp: in_set_conv_decomp)
  then have "method_items name methods = (line (''<li>'' @ name @ '' <ul>'') @ concat (map (\<lambda>m. line (''<li>'' @ m @ ''</li>'')) xs))
      @ line (''<li>'' @ m @ ''</li>'') @ concat (map (\<lambda>m. line (''<li>'' @ m @ ''</li>'')) ys) @ line ''</ul> </li>''"
    by (simp add: method_items_def)
  then show ?thesis unfolding sublist_def by blast
qed

lemma entry_item_methods:
  assumes "m \<in> set (le_fetch e) \<union> set (le_do e) \<union> set (le_listen e)"
  shows "sublist (line (''<li>'' @ m @ ''</li>'')) (entry_item e)"
proof -
  have "\<not> (le_fetch e = [] \<and> le_do e = [] \<and> le_listen e = [])" using assms by auto
  then obtain p q where e: "entry_item e = p @ (line ''<ul>'' @ method_items ''Fetch'' (le_fetch e)
      @ method_items ''Do'' (le_do e) @ method_items ''Listen'' (le_listen e) @ ''</ul>'') @ q"
    unfolding entry_item_def by (simp only: if_False)
  have sub: "sublist b (u1 @ u2 @ b @ v)" "sublist b (u1 @ u2 @ u3 @ b @ v)" "sublist b (u1 @ u2 @ u3 @ u4 @ b @ v)"
    for b u1 u2 u3 u4 v :: string
    using sublist_appendI [of b "u1 @ u2" v] sublist_appendI [of b "u1 @ u2 @ u3" v]
      sublist_appendI [of b "u1 @ u2 @ u3 @ u4" v] by simp_all
  have "sublist (method_items ''Fetch'' (le_fetch e)) (entry_item e)"
    "sublist (method_items ''Do'' (le_do e)) (entry_item e)" "sublist (method_items ''Listen'' (le_listen e)) (entry_item e)"
    unfolding e append_assoc by (rule sub)+
  with assms have "\<exists>name ms. m \<in> set ms \<and> sublist (method_items name ms) (entry_item e)" by blast
  then show ?thesis using method_items_sublist sublist_order.order_trans by blast
qed

section \<open>The listing\<close>

text \<open>A method is listed where the Knit protocol allows it to be called, and nowhere else.\<close>

lemma classify_methods_eq:
  "classify_methods ms =
     (map mth_name (filter (\<lambda>m. \<not> mth_streaming_client m \<and> \<not> mth_streaming_server m
        \<and> mth_options_ok m \<and> mth_idempotency m = NoSideEffects) ms),
      map mth_name (filter (\<lambda>m. \<not> mth_streaming_client m \<and> \<not> mth_streaming_server m
        \<and> \<not> (mth_options_ok m \<and> mth_idempotency m = NoSideEffects)) ms),
      map mth_name (filter (\<lambda>m. \<not> mth_streaming_client m \<and> mth_streaming_server m) ms))"
  by (induction ms) auto

text \<open>Only a POST of \<^verbatim>\<open>/admin/reload-now\<close> has an effect.\<close>

lemma admin_request_effect:
  "snd (admin_request env req_method path) =
     (if path = ''/admin/reload-now'' \<and> req_method = ''POST'' then map wc_poller (ae_watchers env) else [])"
  by (auto simp: admin_request_def admin_routes_def handleFunc_def)

lemma service_entry_not_Panic:
  assumes "map_of (gc_services config) (sv_full_name svc) = Some conf" "stats (sc_descriptors conf) \<noteq> None"
  shows "service_entry now config stats svc \<noteq> Panic s"
  using assms by (auto simp: service_entry_def split: prod.split)

section \<open>The schema of a service\<close>

fun all_files :: "file_desc \<Rightarrow> file_desc set" where
  "all_files (FileDesc p imps) = insert (FileDesc p imps) (\<Union>f \<in> set imps. all_files f)"

text \<open>Files are told apart by their paths.\<close>

definition paths_determine :: "file_desc set \<Rightarrow> bool" where
  "paths_determine A \<longleftrightarrow> (\<forall>f \<in> A. \<forall>g \<in> A. file_path f = file_path g \<longrightarrow> f = g)"

text \<open>Dependencies first: a file stands after all the files it imports.\<close>

fun topological :: "file_desc list \<Rightarrow> string set \<Rightarrow> bool" where
  "topological [] before = True"
| "topological (f # fs) before \<longleftrightarrow>
     file_path ` set (file_imports f) \<subseteq> before \<and> topological fs (insert (file_path f) before)"

lemma topological_append:
  "topological (xs @ ys) before \<longleftrightarrow> topological xs before \<and> topological ys (before \<union> file_path ` set xs)"
  by (induction xs arbitrary: before) auto

lemma all_files_self: "f \<in> all_files f"
  by (cases f) simp

lemma all_files_size: "g \<in> all_files f \<Longrightarrow> size g \<le> size f"
proof (induction f rule: all_files.induct)
  case (1 p imps)
  show ?case
  proof (cases "g = FileDesc p imps")
    case False
    with "1.prems" obtain h where h: "h \<in> set imps" "g \<in> all_files h" by auto
    from "1.IH" [OF h] have "size g \<le> size h" .
    also have "size h < size (FileDesc p imps)"
      using size_list_estimation [OF h(1), of "size h - 1" size] h(1) by (cases h) auto
    finally show ?thesis by simp
  qed simp
qed

lemma import_smaller: "h \<in> set imps \<Longrightarrow> g \<in> all_files h \<Longrightarrow> g \<noteq> FileDesc p imps"
  using all_files_size [of g h] size_list_estimation [of h imps "size h - 1" size]
  by (cases h) auto

text \<open>The state of the walk: what has been collected is closed under imports and in order; the files
  seen but not collected are the ones being visited.\<close>

definition acc_inv :: "file_desc set \<Rightarrow> string set \<Rightarrow> string list \<times> file_desc list \<Rightarrow> bool" where
  "acc_inv U stack st \<longleftrightarrow> set (fst st) = file_path ` set (snd st) \<union> stack
     \<and> file_path ` set (snd st) \<inter> stack = {} \<and> distinct (map file_path (snd st))
     \<and> topological (snd st) {} \<and> (\<forall>g \<in> set (snd st). all_files g \<subseteq> set (snd st)) \<and> set (snd st) \<subseteq> U"

definition collected :: "file_desc set \<Rightarrow> string set \<Rightarrow> file_desc set \<Rightarrow> string list \<times> file_desc list
    \<Rightarrow> string list \<times> file_desc list \<Rightarrow> bool" where
  "collected U stack A st st' \<longleftrightarrow> acc_inv U stack st' \<and> set (snd st) \<subseteq> set (snd st') \<and> A \<subseteq> set (snd st')
     \<and> set (snd st') \<subseteq> set (snd st) \<union> A"

lemma collected_trans:
  assumes "collected U stack A s t" "collected U stack B t u"
  shows "collected U stack (A \<union> B) s u"
  using assms unfolding collected_def by blast

lemma acc_inv_seen:
  assumes "acc_inv U stack st" "file_path f \<in> set (fst st)" "file_path f \<notin> stack" "f \<in> U" "paths_determine U"
  shows "all_files f \<subseteq> set (snd st)"
proof -
  from assms(1-3) obtain g where g: "g \<in> set (snd st)" "file_path g = file_path f"
    unfolding acc_inv_def by fastforce
  with assms(1,4,5) have "g = f" unfolding acc_inv_def paths_determine_def by blast
  with g(1) assms(1) show ?thesis unfolding acc_inv_def by blast
qed

lemma acc_inv_enter:
  assumes "acc_inv U stack (seen, target)" "path \<notin> set seen"
  shows "acc_inv U (insert path stack) (path # seen, target)"
  using assms unfolding acc_inv_def by auto

lemma acc_inv_leave:
  assumes "acc_inv U (insert path stack) (seen, target)" "path \<notin> stack" "FileDesc path imps \<in> U"
    "(\<Union>f \<in> set imps. all_files f) \<subseteq> set target"
  shows "acc_inv U stack (seen, target @ [FileDesc path imps])"
proof -
  have "file_path ` set imps \<subseteq> file_path ` set target"
    using assms(4) all_files_self by fastforce
  with assms show ?thesis unfolding acc_inv_def by (auto simp: topological_append)
qed

lemma accumulate_collected:
  "acc_inv U stack st \<Longrightarrow> all_files f \<subseteq> U \<Longrightarrow> file_path ` all_files f \<inter> stack = {} \<Longrightarrow> paths_determine U
     \<Longrightarrow> collected U stack (all_files f) st (accumulateFiles f st)"
  "acc_inv U stack st \<Longrightarrow> (\<Union>f \<in> set fs. all_files f) \<subseteq> U
     \<Longrightarrow> file_path ` (\<Union>f \<in> set fs. all_files f) \<inter> stack = {} \<Longrightarrow> paths_determine U
     \<Longrightarrow> collected U stack (\<Union>f \<in> set fs. all_files f) st (accumulate_imports fs st)"
proof (induction f st and fs st arbitrary: stack and stack rule: accumulateFiles_accumulate_imports.induct)
  case (1 path imps seen target)
  let ?f = "FileDesc path imps"
  show ?case
  proof (cases "path \<in> set seen")
    case True
    from "1.prems"(3) have "path \<notin> stack" by auto
    with True "1.prems" acc_inv_seen [of U stack "(seen, target)" ?f] have "all_files ?f \<subseteq> set target"
      by auto
    with True "1.prems"(1) show ?thesis by (auto simp: collected_def)
  next
    case False
    let ?A = "\<Union>f \<in> set imps. all_files f"
    obtain seen1 target1 where run: "accumulate_imports imps (path # seen, target) = (seen1, target1)"
      by (cases "accumulate_imports imps (path # seen, target)") auto
    have "path \<notin> file_path ` ?A"
    proof
      assume "path \<in> file_path ` ?A"
      then obtain h g where g: "h \<in> set imps" "g \<in> all_files h" "file_path g = path" by auto
      with "1.prems"(2) have "g \<in> U" "?f \<in> U" by auto
      with g(3) "1.prems"(4) have "g = ?f" unfolding paths_determine_def by auto
      with import_smaller [OF g(1,2)] show False by blast
    qed
    with "1.prems" have "file_path ` ?A \<inter> insert path stack = {}" "?A \<subseteq> U" by auto
    from "1.IH" [OF False acc_inv_enter [OF "1.prems"(1) False] this(2,1) "1.prems"(4)]
    have c: "collected U (insert path stack) ?A (path # seen, target) (seen1, target1)"
      unfolding run .
    then have "acc_inv U stack (seen1, target1 @ [?f])"
      using "1.prems"(2,3) by (intro acc_inv_leave) (auto simp: collected_def)
    with c run False show ?thesis by (auto simp: collected_def)
  qed
next
  case (2 st)
  then show ?case by (simp add: collected_def)
next
  case (3 f fs st)
  have one: "collected U stack (all_files f) st (accumulateFiles f st)"
    by (rule "3.IH"(1)) (use "3.prems" in auto)
  then have "acc_inv U stack (accumulateFiles f st)" by (simp add: collected_def)
  then have "collected U stack (\<Union>f \<in> set fs. all_files f) (accumulateFiles f st)
      (accumulate_imports fs (accumulateFiles f st))"
    by (rule "3.IH"(2)) (use "3.prems" in auto)
  from collected_trans [OF one this] show ?case by simp
qed

text \<open>The files of a service's schema: the file and everything it imports, each once, imports first.\<close>

lemma accumulateFiles_root:
  assumes "paths_determine (all_files f)"
  shows "set (snd (accumulateFiles f ([], []))) = all_files f"
    "distinct (map file_path (snd (accumulateFiles f ([], []))))"
    "topological (snd (accumulateFiles f ([], []))) {}"
proof -
  have "acc_inv (all_files f) {} ([], [])" by (simp add: acc_inv_def)
  from accumulate_collected(1) [OF this order.refl _ assms]
  have "collected (all_files f) {} (all_files f) ([], []) (accumulateFiles f ([], []))" by simp
  then show "set (snd (accumulateFiles f ([], []))) = all_files f"
    "distinct (map file_path (snd (accumulateFiles f ([], []))))"
    "topological (snd (accumulateFiles f ([], []))) {}"
    by (auto simp: collected_def acc_inv_def)
qed

section \<open>The listing and the gateway\<close>

lemma listing_request_ok:
  assumes "method_added pool g m" "m \<in> set ms" "distinct (map mth_name ms)" "pl_valid_full_name lib (mth_full_name m)"
    "classify_methods ms = (fetches, dos, listens)"
    "rq = \<lparr>rq_method = mth_full_name m, rq_body = body, rq_mask = [], rq_on_error = oe\<rparr>"
  shows "mth_name m \<in> set fetches \<longleftrightarrow> request_ok lib pool g True RpcKindUnary rq"
    "mth_name m \<in> set fetches \<union> set dos \<longleftrightarrow> request_ok lib pool g False RpcKindUnary rq"
    "mth_name m \<in> set listens \<longleftrightarrow> request_ok lib pool g False RpcKindServerStream rq"
proof -
  from assms(1) obtain mc where mc: "gw_methods g (mth_full_name m) = Some mc" "mc_descriptor mc = m"
    by (auto simp: method_added_def)
  have mem: "mth_name m \<in> set (map mth_name (filter P ms)) \<longleftrightarrow> P m" for P
    using assms(2,3) by (auto simp: distinct_map inj_on_def)
  have empty: "mask_ok pool g d []" for d by (simp add: mask_ok.simps)
  have split: "fetches = fst (classify_methods ms)" "dos = fst (snd (classify_methods ms))"
    "listens = snd (snd (classify_methods ms))" using assms(5) by simp_all
  show "mth_name m \<in> set fetches \<longleftrightarrow> request_ok lib pool g True RpcKindUnary rq"
    "mth_name m \<in> set fetches \<union> set dos \<longleftrightarrow> request_ok lib pool g False RpcKindUnary rq"
    "mth_name m \<in> set listens \<longleftrightarrow> request_ok lib pool g False RpcKindServerStream rq"
    unfolding split classify_methods_eq fst_conv snd_conv Un_iff mem
    using mc assms(4,6) empty by (auto simp: request_ok_def kindOf_def)
qed

end
