(* ===== verification/App_Logging.thy ===== *)
theory App_Logging
  imports App_Base
begin

text \<open>
  The logging handler (\<^verbatim>\<open>internal/app/knitgateway/logging_handler.go\<close>): the response writer that
  records the status and the number of bytes, and the log line. What a handler does to its
  response is a list of calls; \<open>sent_status\<close> is what \<^verbatim>\<open>net/http\<close> puts on the wire for them: the
  status of the first call of \<^verbatim>\<open>WriteHeader\<close> or \<^verbatim>\<open>Write\<close>.
\<close>

text \<open>A call on the writer; a \<open>Write\<close> comes with the number of bytes and the error that the
  underlying writer answers with.\<close>

datatype writer_call = WriteHeader nat | Write bytes nat "go_error option" | Flush

record intercept_writer =
  iw_already_wrote :: bool
  iw_status :: nat
  iw_transport_failed :: bool
  iw_size :: nat

text \<open>\<^verbatim>\<open>intercept\<close>; the second value tells whether the writer that is handed out can flush.\<close>

definition intercept :: "bool \<Rightarrow> intercept_writer \<times> bool" where
  "intercept flusher =
     (\<lparr>iw_already_wrote = False, iw_status = 200, iw_transport_failed = False, iw_size = 0\<rparr>, flusher)"

fun writer_step :: "writer_call \<Rightarrow> intercept_writer \<Rightarrow> intercept_writer" where
  "writer_step (Write data n err) w =
     w\<lparr>iw_already_wrote := True, iw_size := iw_size w + n,
       iw_transport_failed := (if err \<noteq> None then True else iw_transport_failed w)\<rparr>"
| "writer_step (WriteHeader statusCode) w =
     (if \<not> iw_already_wrote w then w\<lparr>iw_status := statusCode\<rparr> else w)"
| "writer_step Flush w = w"

record log_line =
  ll_message :: string
  ll_method :: string
  ll_request_uri :: string
  ll_remote_addr :: string
  ll_status :: nat
  ll_transport_failed :: bool
  ll_response_bytes :: nat
  ll_latency :: int

definition logRequest :: "string \<Rightarrow> string \<Rightarrow> string \<Rightarrow> string \<Rightarrow> intercept_writer \<Rightarrow> int \<Rightarrow> log_line" where
  "logRequest suff req_method uri addr w latency =
     \<lparr>ll_message = (if suff = [] then ''handled HTTP request'' else ''handled HTTP '' @ suff @ '' request''),
      ll_method = req_method, ll_request_uri = uri, ll_remote_addr = addr, ll_status = iw_status w,
      ll_transport_failed = iw_transport_failed w, ll_response_bytes = iw_size w, ll_latency = latency\<rparr>"

text \<open>\<^verbatim>\<open>NewLoggingHandler\<close>: run the handler, which makes the calls, on the recording writer, then log.\<close>

definition NewLoggingHandler ::
    "string \<Rightarrow> string \<Rightarrow> string \<Rightarrow> string \<Rightarrow> int \<Rightarrow> int \<Rightarrow> writer_call list \<Rightarrow> log_line" where
  "NewLoggingHandler suff req_method uri addr start finish calls =
     logRequest suff req_method uri addr (fold writer_step calls (fst (intercept False))) (finish - start)"

section \<open>What the log says\<close>

fun sent_status :: "writer_call list \<Rightarrow> nat" where
  "sent_status [] = 200"
| "sent_status (WriteHeader c # calls) = c"
| "sent_status (Write data n err # calls) = 200"
| "sent_status (Flush # calls) = 200"

definition written_bytes :: "writer_call list \<Rightarrow> nat" where
  "written_bytes calls = sum_list (map (\<lambda>c. case c of Write _ n _ \<Rightarrow> n | _ \<Rightarrow> 0) calls)"

definition write_failed :: "writer_call \<Rightarrow> bool" where
  "write_failed c \<longleftrightarrow> (case c of Write _ _ err \<Rightarrow> err \<noteq> None | _ \<Rightarrow> False)"

lemma fold_writer_size:
  "iw_size (fold writer_step calls w) = iw_size w + written_bytes calls"
  by (induction calls arbitrary: w) (auto simp: written_bytes_def split: writer_call.splits elim!: writer_step.elims)

lemma fold_writer_failed:
  "iw_transport_failed (fold writer_step calls w) \<longleftrightarrow> iw_transport_failed w \<or> (\<exists>c \<in> set calls. write_failed c)"
proof (induction calls arbitrary: w)
  case (Cons c calls)
  have "iw_transport_failed (writer_step c w) \<longleftrightarrow> iw_transport_failed w \<or> write_failed c"
    by (cases c) (auto simp: write_failed_def)
  with Cons show ?case by auto
qed simp

lemma fold_writer_wrote: "iw_already_wrote w \<Longrightarrow> iw_status (fold writer_step calls w) = iw_status w"
proof (induction calls arbitrary: w)
  case (Cons c calls)
  have "iw_already_wrote (writer_step c w)" "iw_status (writer_step c w) = iw_status w"
    using Cons.prems by (cases c; simp)+
  with Cons.IH show ?case by simp
qed simp

definition is_header :: "writer_call \<Rightarrow> bool" where
  "is_header c \<longleftrightarrow> (case c of WriteHeader _ \<Rightarrow> True | _ \<Rightarrow> False)"

text \<open>A handler that calls \<^verbatim>\<open>WriteHeader\<close> at most once, before it writes or flushes, is logged with
  the status it sends.\<close>

definition one_header_first :: "writer_call list \<Rightarrow> bool" where
  "one_header_first calls \<longleftrightarrow> list_all (\<lambda>c. \<not> is_header c) (tl calls)"

lemma fold_writer_no_header:
  "list_all (\<lambda>c. \<not> is_header c) calls \<Longrightarrow> iw_status (fold writer_step calls w) = iw_status w"
proof (induction calls arbitrary: w)
  case (Cons c calls)
  then have "iw_status (writer_step c w) = iw_status w" by (cases c) (auto simp: is_header_def)
  with Cons show ?case by simp
qed simp

lemma fold_writer_status:
  assumes "one_header_first calls"
  shows "iw_status (fold writer_step calls (fst (intercept flusher))) = sent_status calls"
proof (cases calls)
  case (Cons c rest)
  with assms have "list_all (\<lambda>c. \<not> is_header c) rest" by (simp add: one_header_first_def)
  from fold_writer_no_header [OF this] Cons show ?thesis
    by (cases c) (auto simp: intercept_def)
qed (simp add: intercept_def)

text \<open>With two headers the log has the second one, the client the first.\<close>

lemma two_headers:
  "iw_status (fold writer_step [WriteHeader a, WriteHeader b] (fst (intercept flusher))) = b"
  "sent_status [WriteHeader a, WriteHeader b] = a"
  by (simp_all add: intercept_def)

end
