(* ===== verification/App_Swap.thy ===== *)
theory App_Swap
  imports Main
begin

text \<open>
  The concurrent part of \<^verbatim>\<open>gateway.go\<close>: the callbacks of the schema watchers (\<^verbatim>\<open>OnUpdate\<close>), the
  main goroutine's call of \<^verbatim>\<open>CreateHandler\<close> and the goroutine \<^verbatim>\<open>handleUpdates\<close>, as the steps of
  one transition relation. A schema is its version number: a poller's version grows with each
  update, and a handler is the versions of the pollers' schemas it was built from. The
  channel \<^verbatim>\<open>updateChan\<close> has room for one signal, so it is a boolean.

  What the steps show: the handler never goes back to an older schema; once a handler serves
  the current schemas, every later update either is served or is on its way
  (\<open>update_on_its_way\<close>), and it is served after finitely many steps; but the first handler can
  be published without an update that came while it was being built, with no signal left.
\<close>

type_synonym poller_id = nat
type_synonym versions = "poller_id \<Rightarrow> nat"

text \<open>Where the main goroutine is in \<^verbatim>\<open>CreateHandler\<close>: reading the descriptors of the services whose
  pollers are still to do; after taking a pending signal; done; or stopped by an error.\<close>

datatype main_phase =
    MainReading "poller_id list" versions | MainDrained versions | MainDone | MainFailed

text \<open>Where \<^verbatim>\<open>handleUpdates\<close> is: waiting; after a signal; waiting for the debounce timer; in
  \<^verbatim>\<open>CreateHandler\<close>; or ended with the context.\<close>

datatype updater_phase =
    UpdIdle | UpdSignalled | UpdDebouncing | UpdReading "poller_id list" versions | UpdStopped

record swap_state =
  sw_version :: versions
  sw_callbacks :: nat
  sw_pending :: bool
  sw_delegate :: "versions option"
  sw_main :: main_phase
  sw_upd :: updater_phase

datatype swap_event =
    SchemaUpdated | SignalSent | MainStep | MainPublished | MainError
  | UpdStep | UpdPublished | UpdError | ContextDone

definition no_versions :: versions where
  "no_versions = (\<lambda>_. 0)"

inductive swap_step :: "poller_id list \<Rightarrow> bool \<Rightarrow> swap_state \<Rightarrow> swap_event \<Rightarrow> swap_state \<Rightarrow> bool"
  for pollers :: "poller_id list" and debounce :: bool where
  update: "p \<in> set pollers \<Longrightarrow>
    swap_step pollers debounce s SchemaUpdated
      (s\<lparr>sw_version := (sw_version s)(p := Suc (sw_version s p)), sw_callbacks := Suc (sw_callbacks s)\<rparr>)"
| signal: "sw_callbacks s = Suc n \<Longrightarrow>
    swap_step pollers debounce s SignalSent (s\<lparr>sw_callbacks := n, sw_pending := True\<rparr>)"
| main_read: "sw_main s = MainReading (p # todo) snap \<Longrightarrow>
    swap_step pollers debounce s MainStep (s\<lparr>sw_main := MainReading todo (snap(p := sw_version s p))\<rparr>)"
| main_error: "sw_main s = MainReading todo snap \<Longrightarrow>
    swap_step pollers debounce s MainError (s\<lparr>sw_main := MainFailed\<rparr>)"
| main_replace: "sw_main s = MainReading [] snap \<Longrightarrow> sw_delegate s = Some d \<Longrightarrow>
    swap_step pollers debounce s MainPublished (s\<lparr>sw_delegate := Some snap, sw_main := MainDone\<rparr>)"
| main_drain: "sw_main s = MainReading [] snap \<Longrightarrow> sw_delegate s = None \<Longrightarrow>
    swap_step pollers debounce s MainStep (s\<lparr>sw_pending := False, sw_main := MainDrained snap\<rparr>)"
| main_swap: "sw_main s = MainDrained snap \<Longrightarrow> sw_delegate s = None \<Longrightarrow>
    swap_step pollers debounce s MainPublished (s\<lparr>sw_delegate := Some snap, sw_main := MainDone\<rparr>)"
| main_retry: "sw_main s = MainDrained snap \<Longrightarrow> sw_delegate s = Some d \<Longrightarrow>
    swap_step pollers debounce s MainStep (s\<lparr>sw_main := MainReading [] snap\<rparr>)"
| upd_receive: "sw_upd s = UpdIdle \<Longrightarrow> sw_pending s \<Longrightarrow>
    swap_step pollers debounce s UpdStep (s\<lparr>sw_pending := False, sw_upd := UpdSignalled\<rparr>)"
| upd_skip: "sw_upd s = UpdSignalled \<Longrightarrow> sw_delegate s = None \<Longrightarrow>
    swap_step pollers debounce s UpdStep (s\<lparr>sw_upd := UpdIdle\<rparr>)"
| upd_debounce: "sw_upd s = UpdSignalled \<Longrightarrow> sw_delegate s = Some d \<Longrightarrow> debounce \<Longrightarrow>
    swap_step pollers debounce s UpdStep (s\<lparr>sw_upd := UpdDebouncing\<rparr>)"
| upd_start: "sw_upd s = UpdSignalled \<Longrightarrow> sw_delegate s = Some d \<Longrightarrow> \<not> debounce \<Longrightarrow>
    set todo = set pollers \<Longrightarrow> length todo = length pollers \<Longrightarrow>
    swap_step pollers debounce s UpdStep (s\<lparr>sw_upd := UpdReading todo no_versions\<rparr>)"
| upd_timer: "sw_upd s = UpdDebouncing \<Longrightarrow> set todo = set pollers \<Longrightarrow> length todo = length pollers \<Longrightarrow>
    swap_step pollers debounce s UpdStep (s\<lparr>sw_pending := False, sw_upd := UpdReading todo no_versions\<rparr>)"
| upd_read: "sw_upd s = UpdReading (p # todo) snap \<Longrightarrow>
    swap_step pollers debounce s UpdStep (s\<lparr>sw_upd := UpdReading todo (snap(p := sw_version s p))\<rparr>)"
| upd_publish: "sw_upd s = UpdReading [] snap \<Longrightarrow> sw_delegate s = Some d \<Longrightarrow>
    swap_step pollers debounce s UpdPublished (s\<lparr>sw_delegate := Some snap, sw_upd := UpdIdle\<rparr>)"
| upd_error: "sw_upd s = UpdReading todo snap \<Longrightarrow>
    swap_step pollers debounce s UpdError (s\<lparr>sw_upd := UpdIdle\<rparr>)"
| context_done: "sw_upd s = UpdIdle \<or> sw_upd s = UpdDebouncing \<Longrightarrow>
    swap_step pollers debounce s ContextDone (s\<lparr>sw_upd := UpdStopped\<rparr>)"

text \<open>The start: schemas of some versions have been loaded, with callbacks and a signal pending or not;
  the main goroutine is about to create the first handler.\<close>

definition swap_init :: "poller_id list \<Rightarrow> swap_state \<Rightarrow> bool" where
  "swap_init pollers s \<longleftrightarrow> sw_delegate s = None \<and> sw_upd s = UpdIdle
     \<and> (\<exists>todo. sw_main s = MainReading todo no_versions \<and> set todo = set pollers)"

inductive swap_run :: "poller_id list \<Rightarrow> bool \<Rightarrow> swap_state \<Rightarrow> swap_event list \<Rightarrow> swap_state \<Rightarrow> bool"
  for pollers :: "poller_id list" and debounce :: bool where
  run_nil: "swap_run pollers debounce s [] s"
| run_snoc: "swap_run pollers debounce s es t \<Longrightarrow> swap_step pollers debounce t e u \<Longrightarrow>
    swap_run pollers debounce s (es @ [e]) u"

section \<open>The handler never goes back\<close>

text \<open>A handler exists exactly when the main goroutine has published one; what a handler or a snapshot
  holds of a poller is never newer than the poller's schema, and what the updater has read is at
  least what the handler has.\<close>

definition read_versions :: "poller_id list \<Rightarrow> poller_id list \<Rightarrow> versions \<Rightarrow> versions \<Rightarrow> bool" where
  "read_versions pollers todo snap now \<longleftrightarrow> (\<forall>p \<in> set pollers. p \<notin> set todo \<longrightarrow> snap p \<le> now p)"

fun main_ok :: "poller_id list \<Rightarrow> versions \<Rightarrow> versions option \<Rightarrow> main_phase \<Rightarrow> bool" where
  "main_ok pollers now d (MainReading todo snap) \<longleftrightarrow> d = None \<and> read_versions pollers todo snap now"
| "main_ok pollers now d (MainDrained snap) \<longleftrightarrow> d = None \<and> read_versions pollers [] snap now"
| "main_ok pollers now d MainDone \<longleftrightarrow> d \<noteq> None"
| "main_ok pollers now d MainFailed \<longleftrightarrow> d = None"

fun upd_ok :: "poller_id list \<Rightarrow> versions \<Rightarrow> versions option \<Rightarrow> updater_phase \<Rightarrow> bool" where
  "upd_ok pollers now d (UpdReading todo snap) \<longleftrightarrow> read_versions pollers todo snap now
     \<and> (case d of None \<Rightarrow> False | Some h \<Rightarrow> \<forall>p \<in> set pollers. p \<notin> set todo \<longrightarrow> h p \<le> snap p)"
| "upd_ok pollers now d UpdDebouncing \<longleftrightarrow> d \<noteq> None"
| "upd_ok pollers now d _ \<longleftrightarrow> True"

definition swap_inv :: "poller_id list \<Rightarrow> swap_state \<Rightarrow> bool" where
  "swap_inv pollers s \<longleftrightarrow> main_ok pollers (sw_version s) (sw_delegate s) (sw_main s)
     \<and> upd_ok pollers (sw_version s) (sw_delegate s) (sw_upd s)
     \<and> (\<forall>h. sw_delegate s = Some h \<longrightarrow> read_versions pollers [] h (sw_version s))"

lemma read_versions_mono:
  "read_versions pollers todo snap now \<Longrightarrow> read_versions pollers todo snap (now(p := Suc (now p)))"
  by (auto simp: read_versions_def intro: le_SucI)

lemma main_ok_update:
  "main_ok pollers now d m \<Longrightarrow> main_ok pollers (now(p := Suc (now p))) d m"
  by (cases m) (auto intro: read_versions_mono)

lemma upd_ok_update:
  "upd_ok pollers now d u \<Longrightarrow> upd_ok pollers (now(p := Suc (now p))) d u"
  by (cases u) (auto intro: read_versions_mono)

lemma read_versions_step:
  "read_versions pollers (p # todo) snap now \<Longrightarrow> read_versions pollers todo (snap(p := now p)) now"
  by (auto simp: read_versions_def)

lemma swap_init_inv: "swap_init pollers s \<Longrightarrow> swap_inv pollers s"
  by (auto simp: swap_init_def swap_inv_def read_versions_def)

lemma swap_inv_step:
  assumes "swap_step pollers debounce s e t" "swap_inv pollers s"
  shows "swap_inv pollers t"
  using assms
proof (cases rule: swap_step.cases)
  case (update p)
  with assms(2) show ?thesis
    by (auto simp: swap_inv_def intro: main_ok_update upd_ok_update read_versions_mono)
next
  case (upd_read p todo snap)
  with assms(2) show ?thesis
    by (auto simp: swap_inv_def read_versions_def split: option.splits)
next
  case (main_swap snap)
  with assms(2) show ?thesis
    by (cases "sw_upd s") (auto simp: swap_inv_def read_versions_def)
next
  case (upd_publish snap d)
  with assms(2) show ?thesis
    by (cases "sw_main s") (auto simp: swap_inv_def read_versions_def)
qed (auto simp: swap_inv_def read_versions_def read_versions_step split: option.splits)

lemma swap_inv_run: "swap_run pollers debounce s es t \<Longrightarrow> swap_inv pollers s \<Longrightarrow> swap_inv pollers t"
  by (induction rule: swap_run.induct) (auto intro: swap_inv_step)

text \<open>A published handler stays published, and each of its schemas only gets newer.\<close>

lemma delegate_step:
  assumes "swap_step pollers debounce s e t" "swap_inv pollers s" "sw_delegate s = Some h"
  shows "\<exists>h'. sw_delegate t = Some h' \<and> (\<forall>p \<in> set pollers. h p \<le> h' p)"
  using assms
  by (cases rule: swap_step.cases) (auto simp: swap_inv_def read_versions_def)

lemma delegate_run:
  assumes "swap_run pollers debounce s es t" "swap_inv pollers s" "sw_delegate s = Some h"
  shows "\<exists>h'. sw_delegate t = Some h' \<and> (\<forall>p \<in> set pollers. h p \<le> h' p)"
  using assms
proof (induction rule: swap_run.induct)
  case (run_snoc s es t e u)
  then obtain h1 where "sw_delegate t = Some h1" "\<forall>p \<in> set pollers. h p \<le> h1 p" by blast
  with delegate_step [OF run_snoc.hyps(2) swap_inv_run [OF run_snoc.hyps(1) run_snoc.prems(1)]]
  show ?case by (meson order_trans)
qed auto

section \<open>No update is lost after the first handler\<close>

definition serves_current :: "poller_id list \<Rightarrow> swap_state \<Rightarrow> bool" where
  "serves_current pollers s \<longleftrightarrow>
     (case sw_delegate s of None \<Rightarrow> False | Some h \<Rightarrow> \<forall>p \<in> set pollers. h p = sw_version s p)"

text \<open>A new schema of \<open>p\<close> is on its way: its callback has not run to the end, a signal is pending, or
  the updater has still to read it or has read it.\<close>

definition on_its_way :: "swap_state \<Rightarrow> poller_id \<Rightarrow> bool" where
  "on_its_way s p \<longleftrightarrow> 0 < sw_callbacks s \<or> sw_pending s \<or>
     (case sw_upd s of UpdSignalled \<Rightarrow> True | UpdDebouncing \<Rightarrow> True
      | UpdReading todo snap \<Rightarrow> p \<in> set todo \<or> snap p = sw_version s p | _ \<Rightarrow> False)"

definition update_on_its_way :: "poller_id list \<Rightarrow> swap_state \<Rightarrow> bool" where
  "update_on_its_way pollers s \<longleftrightarrow> swap_inv pollers s \<and>
     (\<exists>h. sw_delegate s = Some h \<and> (\<forall>p \<in> set pollers. h p = sw_version s p \<or> on_its_way s p))"

lemma update_on_its_way_current:
  "swap_inv pollers s \<Longrightarrow> serves_current pollers s \<Longrightarrow> update_on_its_way pollers s"
  by (auto simp: serves_current_def update_on_its_way_def split: option.splits)

definition reliable :: "swap_event \<Rightarrow> bool" where
  "reliable e \<longleftrightarrow> e \<noteq> UpdError \<and> e \<noteq> ContextDone"

lemma update_on_its_way_step:
  assumes "swap_step pollers debounce s e t" "update_on_its_way pollers s" "reliable e"
  shows "update_on_its_way pollers t"
proof -
  from assms(2) obtain h where h: "swap_inv pollers s" "sw_delegate s = Some h"
    "\<forall>p \<in> set pollers. h p = sw_version s p \<or> on_its_way s p"
    by (auto simp: update_on_its_way_def)
  have main: "sw_main s = MainDone"
    using h(1,2) by (cases "sw_main s") (auto simp: swap_inv_def)
  have inv: "swap_inv pollers t" by (rule swap_inv_step [OF assms(1) h(1)])
  have "\<exists>h'. sw_delegate t = Some h' \<and> (\<forall>p \<in> set pollers. h' p = sw_version t p \<or> on_its_way t p)"
    using assms(1)
  proof (cases rule: swap_step.cases)
    case (upd_publish snap d)
    have "snap p = sw_version s p \<or> 0 < sw_callbacks s \<or> sw_pending s" if "p \<in> set pollers" for p
    proof -
      from h(1,2) upd_publish that have "snap p \<le> sw_version s p" "h p \<le> snap p"
        by (auto simp: swap_inv_def read_versions_def)
      with h(3) that upd_publish show ?thesis by (fastforce simp: on_its_way_def)
    qed
    with upd_publish show ?thesis by (auto simp: on_its_way_def)
  qed (use h main assms(3) in \<open>auto simp: on_its_way_def reliable_def\<close>)
  with inv show ?thesis by (auto simp: update_on_its_way_def)
qed

lemma update_on_its_way_run:
  assumes "swap_run pollers debounce s es t" "update_on_its_way pollers s" "\<forall>e \<in> set es. reliable e"
  shows "update_on_its_way pollers t"
  using assms by (induction rule: swap_run.induct) (auto intro: update_on_its_way_step)

section \<open>An update is served after finitely many steps\<close>

text \<open>The steps that bring an update to the handler, and a bound on how many there can be.\<close>

definition delivering :: "swap_event \<Rightarrow> bool" where
  "delivering e \<longleftrightarrow> e = SignalSent \<or> e = UpdStep \<or> e = UpdPublished"

fun upd_rank :: "nat \<Rightarrow> updater_phase \<Rightarrow> nat" where
  "upd_rank n UpdIdle = 0"
| "upd_rank n UpdSignalled = n + 3"
| "upd_rank n UpdDebouncing = n + 2"
| "upd_rank n (UpdReading todo snap) = Suc (length todo)"
| "upd_rank n UpdStopped = 0"

definition swap_rank :: "poller_id list \<Rightarrow> swap_state \<Rightarrow> nat" where
  "swap_rank pollers s = sw_callbacks s * (length pollers + 5)
     + (if sw_pending s then length pollers + 4 else 0) + upd_rank (length pollers) (sw_upd s)"

lemma swap_rank_step:
  "swap_step pollers debounce s e t \<Longrightarrow> delivering e \<Longrightarrow> swap_rank pollers t < swap_rank pollers s"
  by (induction rule: swap_step.induct) (auto simp: swap_rank_def delivering_def)

lemma swap_rank_run:
  assumes "swap_run pollers debounce s es t" "\<forall>e \<in> set es. delivering e"
  shows "length es + swap_rank pollers t \<le> swap_rank pollers s"
  using assms
proof (induction rule: swap_run.induct)
  case (run_snoc s es t e u)
  with swap_rank_step [OF run_snoc.hyps(2)] show ?case by auto
qed simp

text \<open>While the handler is not current, one of these steps can be taken.\<close>

lemma delivering_enabled:
  assumes "update_on_its_way pollers s" "\<not> serves_current pollers s" "sw_upd s \<noteq> UpdStopped"
  shows "\<exists>e t. swap_step pollers debounce s e t \<and> delivering e"
proof -
  from assms(1) obtain h where h1: "sw_delegate s = Some h"
    "\<forall>p \<in> set pollers. h p = sw_version s p \<or> on_its_way s p"
    by (auto simp: update_on_its_way_def)
  with assms(2) obtain p where h: "sw_delegate s = Some h" "p \<in> set pollers" "on_its_way s p"
    by (auto simp: serves_current_def)
  show ?thesis
  proof (cases "sw_upd s")
    case UpdIdle
    with h(3) have "0 < sw_callbacks s \<or> sw_pending s" by (simp add: on_its_way_def)
    then show ?thesis
    proof
      assume "0 < sw_callbacks s"
      then obtain n where "sw_callbacks s = Suc n" by (cases "sw_callbacks s") auto
      from swap_step.signal [of s n pollers debounce, OF this] show ?thesis
        by (auto simp: delivering_def)
    next
      assume "sw_pending s"
      from swap_step.upd_receive [OF UpdIdle this, of pollers debounce] show ?thesis
        by (auto simp: delivering_def)
    qed
  next
    case UpdSignalled
    show ?thesis
    proof (cases debounce)
      case True
      with swap_step.upd_debounce [OF UpdSignalled h(1), of debounce pollers] show ?thesis
        by (auto simp: delivering_def)
    next
      case False
      with swap_step.upd_start [OF UpdSignalled h(1), of debounce pollers pollers] show ?thesis
        by (auto simp: delivering_def)
    qed
  next
    case UpdDebouncing
    with swap_step.upd_timer [OF UpdDebouncing, of pollers pollers debounce] show ?thesis
      by (auto simp: delivering_def)
  next
    case (UpdReading todo snap)
    show ?thesis
    proof (cases todo)
      case Nil
      with swap_step.upd_publish [of s snap h pollers debounce] UpdReading h(1) show ?thesis
        by (auto simp: delivering_def)
    next
      case (Cons q rest)
      with swap_step.upd_read [of s q rest snap pollers debounce] UpdReading show ?thesis
        by (auto simp: delivering_def)
    qed
  qed (use assms(3) in simp)
qed

lemma delivering_not_stopped:
  "swap_step pollers debounce s e t \<Longrightarrow> delivering e \<Longrightarrow> sw_upd s \<noteq> UpdStopped \<Longrightarrow> sw_upd t \<noteq> UpdStopped"
  by (induction rule: swap_step.induct) (auto simp: delivering_def)

lemma delivering_run_not_stopped:
  assumes "swap_run pollers debounce s es t" "\<forall>e \<in> set es. delivering e" "sw_upd s \<noteq> UpdStopped"
  shows "sw_upd t \<noteq> UpdStopped"
  using assms by (induction rule: swap_run.induct) (auto dest: delivering_not_stopped)

lemma delivering_reliable: "delivering e \<Longrightarrow> reliable e"
  by (auto simp: delivering_def reliable_def)

lemma swap_run_delivers:
  assumes "update_on_its_way pollers s" "sw_upd s \<noteq> UpdStopped"
    "swap_run pollers debounce s es t" "\<forall>e \<in> set es. delivering e"
  shows "length es \<le> swap_rank pollers s"
    "serves_current pollers t \<or> (\<exists>e u. swap_step pollers debounce t e u \<and> delivering e)"
  using swap_rank_run [OF assms(3,4)] delivering_run_not_stopped [OF assms(3,4,2)]
    update_on_its_way_run [OF assms(3,1)] delivering_enabled [of pollers t debounce] assms(4)
    delivering_reliable by auto

section \<open>The first handler can miss an update\<close>

text \<open>One poller: the main goroutine reads its schema, a new one arrives and its signal is taken away
  before the handler is published.\<close>

definition lost_start :: swap_state where
  "lost_start = \<lparr>sw_version = no_versions, sw_callbacks = 0, sw_pending = False, sw_delegate = None,
     sw_main = MainReading [0] no_versions, sw_upd = UpdIdle\<rparr>"

definition lost_end :: swap_state where
  "lost_end = \<lparr>sw_version = no_versions(0 := 1), sw_callbacks = 0, sw_pending = False,
     sw_delegate = Some no_versions, sw_main = MainDone, sw_upd = UpdIdle\<rparr>"

lemma lost_update_run:
  "swap_run [0] debounce lost_start [MainStep, SchemaUpdated, SignalSent, MainStep, MainPublished] lost_end"
proof -
  define s1 where "s1 = lost_start\<lparr>sw_main := MainReading [] (no_versions(0 := 0))\<rparr>"
  define s2 where "s2 = s1\<lparr>sw_version := no_versions(0 := Suc 0), sw_callbacks := Suc 0\<rparr>"
  define s3 where "s3 = s2\<lparr>sw_callbacks := 0, sw_pending := True\<rparr>"
  define s4 where "s4 = s3\<lparr>sw_pending := False, sw_main := MainDrained (no_versions(0 := 0))\<rparr>"
  have a1: "swap_step [0] debounce lost_start MainStep s1"
    using swap_step.main_read [of lost_start 0 "[]" no_versions "[0]" debounce]
    by (simp add: s1_def lost_start_def no_versions_def)
  have a2: "swap_step [0] debounce s1 SchemaUpdated s2"
    using swap_step.update [of 0 "[0]" debounce s1]
    by (simp add: s2_def s1_def lost_start_def no_versions_def)
  have a3: "swap_step [0] debounce s2 SignalSent s3"
    using swap_step.signal [of s2 0 "[0]" debounce] by (simp add: s3_def s2_def)
  have a4: "swap_step [0] debounce s3 MainStep s4"
    using swap_step.main_drain [of s3 "no_versions(0 := 0)" "[0]" debounce]
    by (simp add: s4_def s3_def s2_def s1_def lost_start_def)
  have a5: "swap_step [0] debounce s4 MainPublished lost_end"
    using swap_step.main_swap [of s4 "no_versions(0 := 0)" "[0]" debounce]
    by (simp add: s4_def s3_def s2_def s1_def lost_start_def lost_end_def no_versions_def fun_upd_def)
  from run_snoc [OF run_snoc [OF run_snoc [OF run_snoc [OF run_snoc [OF run_nil a1] a2] a3] a4] a5]
  show ?thesis by simp
qed

text \<open>Nothing but another update, or the end, can happen then.\<close>

lemma lost_end_stuck:
  assumes "swap_step [0] debounce lost_end e t"
  shows "e = SchemaUpdated \<or> e = ContextDone"
  using assms by (cases rule: swap_step.cases) (auto simp: lost_end_def)

section \<open>What a client sees\<close>

text \<open>
  The abstract gateway: the schemas there are, and the ones the handler has. Schemas advance, and
  the handler may at any time be replaced by a newer one, never by an older one or one of
  schemas that do not exist. The goroutines implement it.
\<close>

type_synonym served = "versions \<times> versions option"

inductive served_step :: "poller_id list \<Rightarrow> served \<Rightarrow> served \<Rightarrow> bool" for pollers :: "poller_id list" where
  advance: "p \<in> set pollers \<Longrightarrow> served_step pollers (now, d) (now(p := Suc (now p)), d)"
| replace: "(\<And>h p. d = Some h \<Longrightarrow> p \<in> set pollers \<Longrightarrow> h p \<le> h' p) \<Longrightarrow> (\<And>p. p \<in> set pollers \<Longrightarrow> h' p \<le> now p) \<Longrightarrow>
    served_step pollers (now, d) (now, Some h')"
| stay: "served_step pollers (now, d) (now, d)"

definition served_of :: "swap_state \<Rightarrow> served" where
  "served_of s = (sw_version s, sw_delegate s)"

lemma swap_refines_served:
  assumes "swap_step pollers debounce s e t" "swap_inv pollers s"
  shows "served_step pollers (served_of s) (served_of t)"
proof -
  have replace: "served_step pollers (served_of s) (served_of t)"
    if "sw_version t = sw_version s" "sw_delegate t = Some h'" for h'
  proof -
    have "h p \<le> h' p" if "sw_delegate s = Some h" "p \<in> set pollers" for h p
      using delegate_step [OF assms that(1)] \<open>sw_delegate t = Some h'\<close> that(2) by auto
    moreover have "h' p \<le> sw_version s p" if "p \<in> set pollers" for p
      using swap_inv_step [OF assms] \<open>sw_delegate t = Some h'\<close> \<open>sw_version t = sw_version s\<close> that
      by (auto simp: swap_inv_def read_versions_def)
    ultimately show ?thesis
      unfolding served_of_def that by (intro served_step.replace) auto
  qed
  have stay: "served_step pollers (served_of s) (served_of t)"
    if "sw_version t = sw_version s" "sw_delegate t = sw_delegate s"
    unfolding served_of_def that by (rule served_step.stay)
  have "sw_version t = sw_version s \<and> (sw_delegate t = sw_delegate s \<or> (\<exists>h'. sw_delegate t = Some h'))
    \<or> (\<exists>p \<in> set pollers. sw_version t = (sw_version s)(p := Suc (sw_version s p)) \<and> sw_delegate t = sw_delegate s)"
    using assms(1) by (cases rule: swap_step.cases) auto
  with replace stay show ?thesis
    by (auto simp: served_of_def intro: served_step.advance)
qed

end
