(* ===== verification/App_Example.thy ===== *)
theory App_Example
  imports App_Main App_Admin App_Logging App_Swap Knit_Example
begin

text \<open>
  A concrete process: files, a configuration with a plaintext backend that has server
  reflection and a TLS backend whose schema comes from a registry, and the environment its
  startup needs. The properties of the process are instantiated on it.
\<close>

section \<open>Files\<close>

definition demo_file :: "string \<Rightarrow> go_error + bytes" where
  "demo_file f =
     (if f = ''knitgateway.yaml'' then Inr [0] else if f = ''cert.pem'' then Inr [1]
      else if f = ''key.pem'' then Inr [2] else if f = ''ca.pem'' then Inr [3]
      else Inl (ExternalError (''open '' @ f @ '': no such file or directory'')))"

definition demo_os :: os_env where
  "demo_os = \<lparr>os_read_file = demo_file, os_is_dir = (\<lambda>f. Inr False), os_getenv = (\<lambda>v. []),
     os_dial_unix = (\<lambda>p. None), os_key_pair = (\<lambda>c k. Inr [DER c]), os_check_certificate = (\<lambda>c. None),
     os_pem_certs = (\<lambda>d. [DER d]),
     os_parse_url = (\<lambda>u. Inr \<lparr>url_scheme = takeWhile (\<lambda>c. c \<noteq> CHR '':'') u, url_text = u\<rparr>),
     os_unmarshal_files = (\<lambda>d. Inr []), os_buf_token = (\<lambda>m. Inr ''token''), os_code_text = (\<lambda>c. ''code'')\<rparr>"

lemma demo_os_key_pair: "key_pair_nonempty demo_os"
  by (simp add: key_pair_nonempty_def demo_os_def)

section \<open>Configuration\<close>

definition demo_reflection :: externalDescriptorConfig where
  "demo_reflection = \<lparr>ed_descriptor_set_file = [], ed_buf_module = [], ed_grpc_reflection = True\<rparr>"

definition demo_module :: externalDescriptorConfig where
  "demo_module = \<lparr>ed_descriptor_set_file = [], ed_buf_module = ''buf.build/acme/posts:v1'', ed_grpc_reflection = False\<rparr>"

definition demo_backend :: "string \<Rightarrow> string \<Rightarrow> externalDescriptorConfig \<Rightarrow> string list \<Rightarrow> externalBackendConfig" where
  "demo_backend route protocol desc svcs =
     \<lparr>eb_route_to = route, eb_unix_socket = [], eb_tls = None, eb_h2c = None, eb_protocol = protocol,
      eb_encoding = [], eb_descriptors = desc, eb_services = svcs\<rparr>"

definition demo_cors :: externalCORSConfig where
  "demo_cors = \<lparr>eo_allowed_origins = [], eo_allowed_headers = [], eo_allow_credentials = False,
     eo_allow_private_networks = False, eo_max_age_seconds = 0\<rparr>"

definition demo_polling :: externalDescriptorPollingConfig where
  "demo_polling = \<lparr>ep_startup_max_wait_seconds = 0, ep_polling_period_seconds = 60,
     ep_polling_jitter = None, ep_polling_debounce_seconds = 1,
     ep_cache = \<lparr>dc_file_system = Some \<lparr>fs_directory = ''/tmp'', fs_file_name_prefix = [], fs_file_extension = [],
       fs_file_mode = ''0600''\<rparr>, dc_redis = None, dc_memcached = None\<rparr>\<rparr>"

definition demo_server_tls :: externalServerTLSConfig where
  "demo_server_tls = \<lparr>es_cert = ''cert.pem'', es_key = ''key.pem'', es_min_version = ''1.2'', es_ciphers = None,
     es_client_certs = Some \<lparr>ec_require = True, ec_cacert = ''ca.pem''\<rparr>\<rparr>"

definition demo_client_tls :: externalClientTLSConfig where
  "demo_client_tls = \<lparr>et_min_version = Some ''1.3'', et_ciphers = None, et_cacert = Some ''ca.pem'', et_skip_verify = None,
     et_cert = None, et_key = None, et_server_name = []\<rparr>"

definition demo_external :: "string list \<Rightarrow> externalGatewayConfig" where
  "demo_external posts_services =
     \<lparr>ex_listen = \<lparr>el_bind_address = [], el_port = Some 8443, el_unix_socket = [], el_tls = Some demo_server_tls\<rparr>,
      ex_backends = [demo_backend ''http://users'' ''grpc'' demo_reflection [''demo.Users''],
        demo_backend ''https://posts'' [] demo_module posts_services],
      ex_per_request_parallelism = 10, ex_default_backend_tls = Some demo_client_tls, ex_cors = demo_cors,
      ex_descriptors = demo_polling,
      ex_admin = \<lparr>ea_enabled = None, ea_use_main_listeners = False, ea_bind_address = [], ea_port = 9000,
        ea_use_tls = None\<rparr>\<rparr>"

definition demo_decode :: "bytes \<Rightarrow> go_error + externalGatewayConfig \<times> bool" where
  "demo_decode data = Inr (demo_external [''demo.Posts''], False)"

definition bad_decode :: "bytes \<Rightarrow> go_error + externalGatewayConfig \<times> bool" where
  "bad_decode data = Inr (demo_external [''demo.Posts'', ''demo.Users''], False)"

lemma demo_read_named_file:
  "read_named_file demo_os ''cert.pem'' = Ok [1]" "read_named_file demo_os ''key.pem'' = Ok [2]"
  "read_named_file demo_os ''ca.pem'' = Ok [3]"
  by (simp_all add: read_named_file_def demo_os_def demo_file_def)

lemma demo_load_certificates:
  "loadCertificateAndKey demo_os ''cert.pem'' ''key.pem'' = Ok [\<lparr>crt_chain = [DER [1]], crt_leaf = Some (DER [1])\<rparr>]"
  "loadCertificatePool demo_os ''ca.pem'' = Ok [DER [3]]"
  by (simp_all add: loadCertificateAndKey_def loadCertificatePool_def demo_read_named_file guard_err_def)
    (simp_all add: demo_os_def)

definition demo_tls :: tls_config where
  "demo_tls = zero_tls_config\<lparr>tc_certificates := [\<lparr>crt_chain = [DER [1]], crt_leaf = Some (DER [1])\<rparr>],
     tc_min_version := VersionTLS12, tc_ciphers := defaultCipherSuites,
     tc_client_auth := RequireAndVerifyClientCert, tc_client_cas := Some [DER [3]]\<rparr>"

lemma demo_configureServerTLS: "configureServerTLS demo_os (Some demo_server_tls) = Ok (Some demo_tls)"
  by (simp add: configureServerTLS_def demo_server_tls_def demo_load_certificates guard_err_def
      parseTLSVersion_def demo_tls_def Let_def)

definition demo_backend_tls :: tls_config where
  "demo_backend_tls = zero_tls_config\<lparr>tc_min_version := VersionTLS13, tc_ciphers := defaultCipherSuites,
     tc_root_cas := Some [DER [3]]\<rparr>"

lemma demo_configureClientTLS: "configureClientTLS demo_os (Some demo_client_tls) = Ok demo_backend_tls"
  by (simp add: configureClientTLS_def demo_client_tls_def demo_load_certificates guard_err_def
      parseTLSVersion_def demo_backend_tls_def Let_def zero_tls_config_def)

text \<open>The services that the two backends give.\<close>

definition demo_users :: service_config where
  "demo_users = \<lparr>sc_base_url = \<lparr>url_scheme = ''http'', url_text = ''http://users''\<rparr>, sc_http_client = DefaultH2CClient,
     sc_connect_opts = [OptInterceptor ''UserAgentInterceptor'', OptGRPC],
     sc_descriptors = \<lparr>pr_source = GrpcReflectionSource ''http://users'',
       pr_poller = GrpcReflectionPoller ''http://users'' DefaultH2CClient [OptInterceptor ''UserAgentInterceptor'', OptGRPC]\<rparr>,
     sc_cacheable = True\<rparr>"

definition demo_posts_service :: service_config where
  "demo_posts_service = \<lparr>sc_base_url = \<lparr>url_scheme = ''https'', url_text = ''https://posts''\<rparr>,
     sc_http_client = HTTPClient DialAddress (Some demo_backend_tls),
     sc_connect_opts = [OptInterceptor ''UserAgentInterceptor''],
     sc_descriptors = \<lparr>pr_source = BufModuleSource ''buf.build/acme/posts:v1'',
       pr_poller = ModulePoller \<lparr>mp_remote_url = ''https://api.buf.build'', mp_token = ''token'',
         mp_module = ''buf.build/acme/posts'', mp_version = ''v1''\<rparr>\<rparr>,
     sc_cacheable = True\<rparr>"

lemma demo_os_simps:
  "os_parse_url demo_os u = Inr \<lparr>url_scheme = takeWhile (\<lambda>c. c \<noteq> CHR '':'') u, url_text = u\<rparr>"
  "os_buf_token demo_os m = Inr ''token''" "os_read_file demo_os f = demo_file f"
  by (simp_all add: demo_os_def)

lemmas demo_backend_simps = add_backend_def demo_backend_def backend_url_def guard_err_def backend_options_def
  backend_encoding_def backend_protocol_def backend_tls_def makeHTTPClient_def newDescriptorSource_def
  descriptor_properties_def lookup_poller_def count_source_def Let_def demo_os_simps wrap_backend_def

lemma demo_add_users:
  "add_backend demo_os (Some demo_client_tls) 0 (demo_backend ''http://users'' ''grpc'' demo_reflection [''demo.Users'']) empty_load_state
    = Ok \<lparr>ls_pollers = [(GrpcReflectionSource ''http://users'', sc_descriptors demo_users)], ls_cacheable = 1,
        ls_index = [(''demo.Users'', 0)], ls_services = [(''demo.Users'', demo_users)]\<rparr>"
  by (simp add: demo_backend_simps demo_reflection_def empty_load_state_def demo_users_def)

lemma demo_add_posts:
  "add_backend demo_os (Some demo_client_tls) 1 (demo_backend ''https://posts'' [] demo_module [''demo.Posts''])
      \<lparr>ls_pollers = [(GrpcReflectionSource ''http://users'', sc_descriptors demo_users)], ls_cacheable = 1,
        ls_index = [(''demo.Users'', 0)], ls_services = [(''demo.Users'', demo_users)]\<rparr>
    = Ok \<lparr>ls_pollers = [(GrpcReflectionSource ''http://users'', sc_descriptors demo_users),
          (BufModuleSource ''buf.build/acme/posts:v1'', sc_descriptors demo_posts_service)], ls_cacheable = 2,
        ls_index = [(''demo.Users'', 0), (''demo.Posts'', 1)],
        ls_services = [(''demo.Users'', demo_users), (''demo.Posts'', demo_posts_service)]\<rparr>"
  by (simp add: demo_backend_simps demo_module_def demo_posts_service_def demo_configureClientTLS
      buf_newPoller_def split_first_def)

definition demo_gc :: gateway_config where
  "demo_gc = \<lparr>gc_listen_address = ''0.0.0.0:8443'', gc_unix_socket = [], gc_tls_config = Some demo_tls,
     gc_cors_config = load_cors demo_cors,
     gc_services = [(''demo.Users'', demo_users), (''demo.Posts'', demo_posts_service)],
     gc_max_parallelism = 10, gc_startup_max_wait = defaultStartupMaxWait, gc_polling_period = seconds 60,
     gc_polling_jitter = F_Num (1 / 4), gc_polling_debounce = seconds 1,
     gc_cache = Some (FileSystemCache \<lparr>fs_directory = ''/tmp'', fs_file_name_prefix = [], fs_file_extension = [],
       fs_file_mode = ''0600''\<rparr>),
     gc_admin = Some \<lparr>ac_use_main_listeners = False, ac_listen_address = ''127.0.0.1:9000'', ac_use_tls = True\<rparr>,
     gc_raw_config = [0]\<rparr>"

lemma demo_ports: "host_port h 8443 = h @ '':8443''" "host_port h 9000 = h @ '':9000''"
proof -
  have d: "digit_char 0 = CHR ''0''" "digit_char 3 = CHR ''3''" "digit_char 4 = CHR ''4''" "digit_char 8 = CHR ''8''"
    "digit_char 9 = CHR ''9''" by code_simp+
  have "dec_int (sint (8443 :: 64 word)) = ''8443''" "dec_int (sint (9000 :: 64 word)) = ''9000''"
    by (simp_all add: dec_int_def dec_nat.simps d)
  then show "host_port h 8443 = h @ '':8443''" "host_port h 9000 = h @ '':9000''"
    by (simp_all add: host_port_def)
qed

lemma demo_signed: "\<not> (60 :: 64 word) <s 0" "(0 :: 64 word) <s 60" "\<not> (1 :: 64 word) <s 0" "\<not> (0 :: 64 word) <s 0"
  by code_simp+

lemma demo_gc: "LoadConfig demo_os demo_decode ''knitgateway.yaml'' = Ok demo_gc"
  using demo_add_users demo_add_posts
  by (simp add: LoadConfig_def demo_os_simps demo_file_def demo_decode_def load_external_def make_config_def demo_external_def
      guard_err_def loadAdminConfig_def other_admin_properties_def demo_ports demo_configureServerTLS
      demo_configureClientTLS demo_client_tls_def [THEN arg_cong [where f = et_server_name]]
      load_polling_def not_negative_def load_jitter_def demo_polling_def newCacheConfig_def configured_caches_def
      seconds_or_def demo_gc_def Let_def demo_signed)

end
