(* ===== verification/App_Properties.thy ===== *)
theory App_Properties
  imports App_Example Knit_Typed
begin

text \<open>
  The properties of the process around the gateway, each with an instance on the example:
  what a configuration that was accepted contains, the TLS settings, the descriptors that
  server reflection obtains, the watchers, the replacement of the handler while requests
  are served, the admin endpoints, the log, and the startup and end of the process.
\<close>

section \<open>Configuration\<close>



text \<open>A service that is named twice, in one backend or in two, makes the configuration invalid.\<close>

lemma duplicate_service_rejected:
  assumes "os_read_file os path = Inr raw" "decode raw = Inr (extConf, False)"
    "\<not> distinct (concat (map eb_services (ex_backends extConf)))"
  shows "\<not> is_ok (LoadConfig os decode path)"
  by (rule LoadConfig_duplicate_service) (fact assms)+

lemma duplicate_service_rejected_witness:
  "\<not> is_ok (LoadConfig demo_os bad_decode ''knitgateway.yaml'')"
  by (rule duplicate_service_rejected [of _ _ "[0]" _ "demo_external [''demo.Posts'', ''demo.Users'']"])
    (simp_all add: demo_os_simps demo_file_def bad_decode_def demo_external_def demo_backend_def)



text \<open>The polling period and the startup wait are positive, and what the file says in seconds, when
  the numbers are below about 292 years.\<close>

lemma polling_durations:
  assumes "load_polling p = Ok (period, jitter, wait)"
    "sint (ep_polling_period_seconds p) \<le> 9223372036" "sint (ep_startup_max_wait_seconds p) \<le> 9223372036"
  shows "sint period = (if ep_polling_period_seconds p = 0 then 900000000000
           else 1000000000 * sint (ep_polling_period_seconds p))
    \<and> sint wait = (if ep_startup_max_wait_seconds p = 0 then 15000000000
           else 1000000000 * sint (ep_startup_max_wait_seconds p))
    \<and> 0 < sint period \<and> 0 < sint wait"
  using load_polling_seconds [OF assms(1)] assms(2,3) by simp

lemma demo_load_polling: "load_polling demo_polling = Ok (seconds 60, F_Num (1 / 4), defaultStartupMaxWait)"
proof -
  have "\<not> (60 :: 64 word) <s 0" "0 <s (60 :: 64 word)" "\<not> (1 :: 64 word) <s 0" "\<not> (0 :: 64 word) <s 0"
    by (simp_all add: word_sless_alt)
  then show ?thesis
    by (simp add: load_polling_def not_negative_def guard_err_def load_jitter_def demo_polling_def seconds_or_def)
qed

lemma polling_durations_witness: "sint (seconds 60) = 60000000000 \<and> sint defaultStartupMaxWait = 15000000000"
  using polling_durations [OF demo_load_polling] by (simp add: demo_polling_def)

text \<open>Beyond that the multiplication wraps around: a period of 9223372037 seconds is accepted and
  becomes a negative duration.\<close>

lemma polling_period_overflows:
  "load_polling (demo_polling\<lparr>ep_polling_period_seconds := 9223372037\<rparr>)
     = Ok (seconds 9223372037, F_Num (1 / 4), defaultStartupMaxWait)
   \<and> sint (seconds 9223372037) < 0"
proof -
  have "\<not> (9223372037 :: 64 word) <s 0" "0 <s (9223372037 :: 64 word)" "\<not> (1 :: 64 word) <s 0" "\<not> (0 :: 64 word) <s 0"
    by (simp_all add: word_sless_alt)
  then show ?thesis
    by (simp add: load_polling_def not_negative_def guard_err_def load_jitter_def demo_polling_def seconds_or_def
      seconds_def second_def)
qed

section \<open>TLS\<close>

text \<open>C23: TLS settings that are accepted: for the listener a certificate with its parsed leaf; a version
  from 1.0 to 1.3; only known cipher suites; client certificates are verified exactly when they are
  configured, against a pool that is not empty, and required when the file says so.\<close>

theorem server_tls_settings:
  assumes "configureServerTLS os (Some conf) = Ok out"
  shows "\<exists>c. out = Some c \<and> tls_config_ok c \<and> tc_certificates c \<noteq> [] \<and> \<not> tc_skip_verify c
    \<and> tc_client_auth c = (case es_client_certs conf of None \<Rightarrow> NoClientCert
         | Some cc \<Rightarrow> if ec_require cc then RequireAndVerifyClientCert else VerifyClientCertIfGiven)"
  using server_tls_ok [OF assms] by blast

theorem server_tls_settings_witness:
  "\<exists>c. Some demo_tls = Some c \<and> tls_config_ok c \<and> tc_client_auth c = RequireAndVerifyClientCert"
  using server_tls_settings [OF demo_configureServerTLS] by (auto simp: demo_server_tls_def)


text \<open>The merge of a backend's TLS stanza with the defaults is a left-biased monoid: nothing is
  the unit, merging with itself changes nothing, and merging is associative; the backend's own
  server name stays.\<close>

lemma tls_merge:
  "mergeClientTLSConfig None d = d \<and> mergeClientTLSConfig c None = c \<and> mergeClientTLSConfig c c = c
   \<and> mergeClientTLSConfig (mergeClientTLSConfig a b) c = mergeClientTLSConfig a (mergeClientTLSConfig b c)
   \<and> map_option et_server_name (mergeClientTLSConfig (Some x) d) = Some (et_server_name x)"
  by (simp add: mergeClientTLSConfig_idem mergeClientTLSConfig_assoc)
    (cases d; simp add: mergeClientTLSConfig_def)

lemma identity_not_forbidden: "\<not> forbidden_header clientIdentityHeader"
  by code_simp

lemma identity_forwarded:
  "distinct (map fst src) \<Longrightarrow>
     header_Get (propagateHeaders src []) clientIdentityHeader = header_Get src clientIdentityHeader"
  using identity_not_forbidden
  by (simp add: header_Get_def propagateHeaders_lookup header_vals_def split: option.split)

text \<open>C25: The identity header that reaches a backend is the subject of the first certificate of a
  client that authenticated itself over TLS. For any other client it is whatever the client sent
  under that name: the header is forwarded like any other.\<close>

theorem client_identity_header:
  assumes "distinct (map fst src)"
  shows "header_Get (cert_forward (capture_cert tls \<lparr>ctx_client_cert = None\<rparr>) (propagateHeaders src []))
      clientIdentityHeader =
    (case tls of Some (subject # _) \<Rightarrow> subject | _ \<Rightarrow> header_Get src clientIdentityHeader)"
  using identity_forwarded [OF assms]
  by (simp add: cert_forward_identity capture_cert_def ContextWithClientCert_def split: option.split list.split)

lemma demo_subject: "header_Get [(''Knit-Client-Subject'', [''CN=root''])] clientIdentityHeader = ''CN=root''"
  by (simp add: header_Get_def clientIdentityHeader_def)

theorem client_identity_header_witness:
  "header_Get (cert_forward (capture_cert None \<lparr>ctx_client_cert = None\<rparr>)
     (propagateHeaders [(''Knit-Client-Subject'', [''CN=root''])] [])) clientIdentityHeader = ''CN=root''"
  using client_identity_header [of "[(''Knit-Client-Subject'', [''CN=root''])]" None]
  unfolding demo_subject by simp

section \<open>Descriptors\<close>

text \<open>C26: Server reflection: \<^verbatim>\<open>GetSchema\<close> ends; it returns, in order, the first file of each name among
  those the server sent for the symbols (all services when none are asked for), or the first error;
  and it never asks for a file by its name.\<close>

theorem reflection_files:
  "\<exists>sent. reflect_GetSchema stream symbols = Some (sent,
      obind (of_sum (requested_symbols stream symbols)) (\<lambda>syms.
      obind (received_files stream syms) (\<lambda>fs. Ok (first_by_name {} fs))))
    \<and> (\<forall>name. FileByFilename name \<notin> set sent)"
  by (rule reflect_GetSchema_eq)

text \<open>So the dependencies of the files are missing when the server sends only the file of each
  symbol, although the queue is meant to fetch them.\<close>

lemma reflection_misses_dependencies:
  assumes "symbols \<noteq> []" "\<And>s. s \<in> set symbols \<Longrightarrow> rf_containing stream s = Inr [file_of s]"
    "s \<in> set symbols" "dep \<in> set (fp_dependency (file_of s))" "dep \<notin> (fp_name \<circ> file_of) ` set symbols"
    "\<And>s'. s' \<in> set symbols \<Longrightarrow> fp_name (file_of s') = fp_name (file_of s) \<Longrightarrow> file_of s' = file_of s"
  shows "\<exists>sent fs. reflect_GetSchema stream symbols = Some (sent, Ok fs) \<and> \<not> files_closed fs"
  using reflection_not_closed [OF assms] .

definition demo_stream :: reflect_stream where
  "demo_stream = \<lparr>rf_services = Inr [],
     rf_containing = (\<lambda>s. Inr [\<lparr>fp_name = ''users.proto'', fp_dependency = [''common.proto''], fp_content = []\<rparr>]),
     rf_by_filename = (\<lambda>n. Inr [\<lparr>fp_name = ''common.proto'', fp_dependency = [], fp_content = []\<rparr>])\<rparr>"

lemma reflection_misses_dependencies_witness:
  "\<exists>sent fs. reflect_GetSchema demo_stream [''demo.Users''] = Some (sent, Ok fs) \<and> \<not> files_closed fs"
  by (rule reflection_misses_dependencies [where s = "''demo.Users''" and dep = "''common.proto''" and
      file_of = "\<lambda>s. \<lparr>fp_name = ''users.proto'', fp_dependency = [''common.proto''], fp_content = []\<rparr>"])
    (simp_all add: demo_stream_def)

section \<open>Watchers\<close>

text \<open>C27: \<^verbatim>\<open>CreateGateway\<close> starts one watcher for each poller that some service uses; a watcher asks for
  exactly the services of its poller; and with a jitter it is the first watcher that polls on
  schedule and wakes the others, which never poll by themselves.\<close>

theorem watchers_partition_services:
  assumes "CreateGateway os new_cache new_watcher schema_id services order config = (Ok g, cl)"
    "\<And>xs. mset (order xs) = mset xs"
  shows "distinct (map wc_poller (sg_watchers g))
    \<and> wc_poller ` set (sg_watchers g) = (sc_descriptors \<circ> snd) ` set services
    \<and> (\<forall>w \<in> set (sg_watchers g). wc_symbols w = services_of (wc_poller w) services)
    \<and> schedule_ok (length (sg_watchers g)) (gc_polling_period config) (gc_polling_jitter config) (sg_watchers g)"
  using CreateGateway_Ok [OF assms] by blast

definition demo_create :: "(watcher_config \<Rightarrow> go_error option) \<Rightarrow> started_gateway result \<times> closed list" where
  "demo_create new_watcher = CreateGateway demo_os (\<lambda>c. None) new_watcher (\<lambda>p. ''id'') (gc_services demo_gc) rev
     (demo_gc\<lparr>gc_cache := None\<rparr>)"

lemma demo_create_ok: "\<exists>g. demo_create (\<lambda>w. None) = (Ok g, [])"
  by (simp add: demo_create_def CreateGateway_def Let_def demo_gc_def demo_users_def demo_posts_service_def
      next_watcher_def f64_nonzero_def)

theorem watchers_partition_services_witness:
  "\<exists>g. demo_create (\<lambda>w. None) = (Ok g, [])
    \<and> wc_poller ` set (sg_watchers g) = {sc_descriptors demo_users, sc_descriptors demo_posts_service}"
proof -
  obtain g where g: "demo_create (\<lambda>w. None) = (Ok g, [])" using demo_create_ok by blast
  from watchers_partition_services [OF g [unfolded demo_create_def]] g show ?thesis
    by (auto simp: demo_gc_def)
qed





section \<open>The handler\<close>

text \<open>C12: A handler that is built has a registered method for every method of every configured service,
  found under its name by the watcher of its poller, keeps the registration invariant of the Knit
  gateway, and lists the services by name.\<close>

theorem handler_serves_all_services:
  assumes "build_handler env config services = Ok h"
  shows "gateway_ok (be_lib env) (be_net env) (be_pool env) (hw_gateway h)
    \<and> (\<forall>svc \<in> set (hw_services h). \<forall>m \<in> set (sv_methods svc). method_added (be_pool env) (hw_gateway h) m)
    \<and> sorted (map sv_full_name (hw_services h))
    \<and> (\<exists>svcs. mset (hw_services h) = mset svcs \<and>
         list_all2 (\<lambda>(n, conf) svc. be_find env (sc_descriptors conf) n = Inr (ServiceDescriptor svc)) services svcs)"
  using build_handler_Ok [OF assms] by blast

definition demo_build :: build_env where
  "demo_build = \<lparr>be_lib = demo_lib, be_net = demo_net, be_pool = demo_pool, be_client = (\<lambda>c. 0),
     be_resolver = (\<lambda>p. 0), be_find = (\<lambda>p n. Inr (ServiceDescriptor (demo_service\<lparr>sv_methods := [demo_method ''GetUser'' 0 1 None]\<rparr>)))\<rparr>"

lemma demo_build_ok: "\<exists>h. build_handler demo_build demo_gc [(''demo.Users'', demo_users)] = Ok h
    \<and> hw_services h = [demo_service\<lparr>sv_methods := [demo_method ''GetUser'' 0 1 None]\<rparr>]"
  by (simp add: build_handler_def demo_build_def AddService_def addService_def getSvcOpts_def service_options_def
      demo_service_def add_method_def demo_method_simps new_knit_gateway_def Let_def)

theorem handler_serves_all_services_witness:
  "\<exists>h. build_handler demo_build demo_gc [(''demo.Users'', demo_users)] = Ok h
    \<and> gateway_ok demo_lib demo_net demo_pool (hw_gateway h)"
proof -
  obtain h where h: "build_handler demo_build demo_gc [(''demo.Users'', demo_users)] = Ok h"
    using demo_build_ok by blast
  from handler_serves_all_services [OF h] h show ?thesis by (auto simp: demo_build_def)
qed

text \<open>While requests are served the handler is only ever replaced by one built from schemas that are
  at least as new, for every poller, and it is never taken away, in every interleaving of the
  watchers, the main goroutine and the updater.\<close>

lemma handler_never_goes_back:
  assumes "swap_init pollers s0" "swap_run pollers debounce s0 es s" "sw_delegate s = Some h"
    "swap_run pollers debounce s es' t"
  shows "\<exists>h'. sw_delegate t = Some h' \<and> (\<forall>p \<in> set pollers. h p \<le> h' p)"
  using delegate_run [OF assms(4) swap_inv_run [OF assms(2) swap_init_inv [OF assms(1)]] assms(3)] .

lemma lost_start_init: "swap_init [0] lost_start"
  by (simp add: swap_init_def lost_start_def)

lemma handler_never_goes_back_witness:
  "\<exists>h'. sw_delegate lost_end = Some h' \<and> (\<forall>p \<in> set [0]. no_versions p \<le> h' p)"
  by (rule handler_never_goes_back [OF lost_start_init lost_update_run [of True] _ run_nil])
    (simp add: lost_end_def)

text \<open>C9: The goroutines refine the abstract gateway: each of their steps either advances a schema,
  leaves what is served unchanged, or replaces it by schemas that exist and are not older.\<close>

theorem goroutines_refine_gateway:
  assumes "swap_init pollers s0" "swap_run pollers debounce s0 es s" "swap_step pollers debounce s e t"
  shows "served_step pollers (served_of s) (served_of t)"
  using swap_refines_served [OF assms(3) swap_inv_run [OF assms(2) swap_init_inv [OF assms(1)]]] .

theorem goroutines_refine_gateway_witness:
  "served_step [0] (served_of lost_start) (served_of (lost_start\<lparr>sw_main := MainReading [] (no_versions(0 := 0))\<rparr>))"
proof -
  have "swap_step [0] True lost_start MainStep (lost_start\<lparr>sw_main := MainReading [] (no_versions(0 := 0))\<rparr>)"
    using swap_step.main_read [of lost_start 0 "[]" no_versions "[0]" True]
    by (simp add: lost_start_def no_versions_def)
  from goroutines_refine_gateway [OF lost_start_init run_nil this] show ?thesis .
qed

text \<open>C29: No update is lost once the handler serves the current schemas: in every later state, as long as
  building a handler does not fail and the context is not done, each poller's schema is either
  the current one in the handler or on its way to it.\<close>

theorem updates_not_lost:
  assumes "swap_init pollers s0" "swap_run pollers debounce s0 es s" "serves_current pollers s"
    "swap_run pollers debounce s es' t" "\<forall>e \<in> set es'. reliable e"
  shows "update_on_its_way pollers t"
  using update_on_its_way_run [OF assms(4) update_on_its_way_current
      [OF swap_inv_run [OF assms(2) swap_init_inv [OF assms(1)]] assms(3)] assms(5)] .

definition fresh_end :: swap_state where
  "fresh_end = lost_start\<lparr>sw_delegate := Some no_versions, sw_main := MainDone\<rparr>"

lemma fresh_run: "swap_run [0] debounce lost_start [MainStep, MainStep, MainPublished] fresh_end"
proof -
  let ?s1 = "lost_start\<lparr>sw_main := MainReading [] (no_versions(0 := 0))\<rparr>"
  let ?s2 = "?s1\<lparr>sw_pending := False, sw_main := MainDrained (no_versions(0 := 0))\<rparr>"
  have a: "swap_step [0] debounce lost_start MainStep ?s1"
    using swap_step.main_read [of lost_start 0 "[]" no_versions "[0]" debounce]
    by (simp add: lost_start_def no_versions_def)
  have b: "swap_step [0] debounce ?s1 MainStep ?s2"
    by (rule swap_step.main_drain) (simp_all add: lost_start_def)
  have c: "swap_step [0] debounce ?s2 MainPublished fresh_end"
    using swap_step.main_swap [of ?s2 "no_versions(0 := 0)" "[0]" debounce]
    by (simp add: lost_start_def fresh_end_def no_versions_def fun_upd_def)
  from run_snoc [OF run_snoc [OF run_snoc [OF run_nil a] b] c] show ?thesis by simp
qed

lemma fresh_current: "serves_current [0] fresh_end"
  by (simp add: serves_current_def fresh_end_def lost_start_def)

lemma fresh_update: "\<exists>t. swap_run [0] debounce fresh_end [SchemaUpdated] t \<and> \<not> serves_current [0] t \<and> sw_upd t = UpdIdle"
proof -
  have "swap_step [0] debounce fresh_end SchemaUpdated (fresh_end\<lparr>sw_version := (sw_version fresh_end)(0 := Suc (sw_version fresh_end 0)),
      sw_callbacks := Suc (sw_callbacks fresh_end)\<rparr>)" by (rule swap_step.update) simp
  from run_snoc [OF run_nil this] show ?thesis
    by (intro exI conjI) (auto simp: serves_current_def fresh_end_def lost_start_def no_versions_def)
qed

theorem updates_not_lost_witness:
  "\<exists>t. swap_run [0] True fresh_end [SchemaUpdated] t \<and> \<not> serves_current [0] t \<and> update_on_its_way [0] t"
proof -
  obtain t where t: "swap_run [0] True fresh_end [SchemaUpdated] t" "\<not> serves_current [0] t"
    using fresh_update by blast
  from updates_not_lost [OF lost_start_init fresh_run fresh_current t(1)] t show ?thesis
    by (auto simp: reliable_def)
qed

text \<open>C8: An update on its way is served: the steps that deliver it (the callback's signal, the steps of
  the updater) come to an end, and when none is left the handler serves the current schemas.\<close>

theorem updates_are_delivered:
  assumes "update_on_its_way pollers s" "sw_upd s \<noteq> UpdStopped"
    "swap_run pollers debounce s es t" "\<forall>e \<in> set es. delivering e"
  shows "length es \<le> swap_rank pollers s
    \<and> (serves_current pollers t \<or> (\<exists>e u. swap_step pollers debounce t e u \<and> delivering e))"
  using swap_run_delivers [OF assms] by blast

theorem updates_are_delivered_witness:
  "\<exists>t e u. swap_run [0] True fresh_end [SchemaUpdated] t \<and> swap_step [0] True t e u \<and> delivering e"
proof -
  obtain t where t: "swap_run [0] True fresh_end [SchemaUpdated] t" "\<not> serves_current [0] t" "sw_upd t = UpdIdle"
    using fresh_update by blast
  have "update_on_its_way [0] t"
    using update_on_its_way_run [OF t(1) update_on_its_way_current [OF swap_inv_run [OF fresh_run swap_init_inv
      [OF lost_start_init]] fresh_current]] by (simp add: reliable_def)
  from updates_are_delivered [OF this _ run_nil] t show ?thesis by fastforce
qed

text \<open>The first handler can miss an update for good: the main goroutine reads a schema, an update and
  its signal arrive, \<^verbatim>\<open>CreateHandler\<close> takes the signal away and publishes a handler that is out of
  date, with nothing left that would replace it.\<close>

lemma first_handler_can_miss_update:
  "swap_init [0] lost_start
   \<and> swap_run [0] debounce lost_start [MainStep, SchemaUpdated, SignalSent, MainStep, MainPublished] lost_end
   \<and> \<not> serves_current [0] lost_end
   \<and> {e. \<exists>t. swap_step [0] debounce lost_end e t} \<subseteq> {SchemaUpdated, ContextDone}"
  using lost_start_init lost_update_run lost_end_stuck
  by (auto simp: serves_current_def lost_end_def no_versions_def)

section \<open>Admin endpoints and the log\<close>

text \<open>C30: The schema that is downloaded for a service has the service's file and all files it imports,
  directly or not, each once, every file after those it imports.\<close>

theorem admin_schema_files:
  assumes "paths_determine (all_files f)"
  shows "set (snd (accumulateFiles f ([], []))) = all_files f
    \<and> distinct (map file_path (snd (accumulateFiles f ([], []))))
    \<and> topological (snd (accumulateFiles f ([], []))) {}"
  using accumulateFiles_root [OF assms] by blast

theorem admin_schema_files_witness:
  "topological (snd (accumulateFiles (FileDesc ''a'' [FileDesc ''b'' [FileDesc ''c'' []], FileDesc ''c'' []]) ([], []))) {}"
  using admin_schema_files [of "FileDesc ''a'' [FileDesc ''b'' [FileDesc ''c'' []], FileDesc ''c'' []]"]
  by (simp add: paths_determine_def)

text \<open>C31: The listing of the admin page agrees with the gateway: a method of a configured service is
  listed under Fetch exactly when the gateway accepts a Fetch of it (with an empty mask), under
  Fetch or Do exactly when it accepts a Do, and under Listen exactly when it accepts a Listen.\<close>

theorem admin_listing_agrees:
  assumes "build_handler env config services = Ok h" "svc \<in> set (hw_services h)" "m \<in> set (sv_methods svc)"
    "distinct (map mth_name (sv_methods svc))" "pl_valid_full_name (be_lib env) (mth_full_name m)"
    "classify_methods (sv_methods svc) = (fetches, dos, listens)"
    "rq = \<lparr>rq_method = mth_full_name m, rq_body = body, rq_mask = [], rq_on_error = oe\<rparr>"
  shows "(mth_name m \<in> set fetches \<longleftrightarrow> request_ok (be_lib env) (be_pool env) (hw_gateway h) True RpcKindUnary rq)
    \<and> (mth_name m \<in> set fetches \<union> set dos \<longleftrightarrow> request_ok (be_lib env) (be_pool env) (hw_gateway h) False RpcKindUnary rq)
    \<and> (mth_name m \<in> set listens \<longleftrightarrow> request_ok (be_lib env) (be_pool env) (hw_gateway h) False RpcKindServerStream rq)"
  using listing_request_ok [OF build_handler_Ok(4) [OF assms(1-3)] assms(3-7)] by blast

theorem admin_listing_agrees_witness:
  "\<exists>h. build_handler demo_build demo_gc [(''demo.Users'', demo_users)] = Ok h
    \<and> request_ok demo_lib demo_pool (hw_gateway h) True RpcKindUnary
        \<lparr>rq_method = ''demo.Users.GetUser'', rq_body = None, rq_mask = [], rq_on_error = NoOnError\<rparr>"
proof -
  obtain h where h: "build_handler demo_build demo_gc [(''demo.Users'', demo_users)] = Ok h"
    "hw_services h = [demo_service\<lparr>sv_methods := [demo_method ''GetUser'' 0 1 None]\<rparr>]"
    using demo_build_ok by blast
  from admin_listing_agrees [OF h(1), of "demo_service\<lparr>sv_methods := [demo_method ''GetUser'' 0 1 None]\<rparr>"
      "demo_method ''GetUser'' 0 1 None" "[''GetUser'']" "[]" "[]"
      "\<lparr>rq_method = ''demo.Users.GetUser'', rq_body = None, rq_mask = [], rq_on_error = NoOnError\<rparr>"] h
  show ?thesis by (simp add: demo_build_def demo_method_simps demo_lib_def)
qed



section \<open>The process\<close>

text \<open>C33: A process that starts has loaded a valid configuration, waited for every schema, and published
  a handler for all services before it listens; it listens somewhere, the Knit listeners with the
  TLS settings of the file, the admin listener, if it has one of its own, with TLS exactly when
  the file says so.\<close>

theorem startup_establishes:
  assumes "startup env fl = Ok p"
  shows "config_ok (pc_config p) \<and> AwaitReady (me_await env) (pc_started p) = Ok ()
    \<and> (\<exists>h. build_handler (me_build env) (pc_config p) (me_services env (gc_services (pc_config p))) = Ok h
         \<and> ServeHTTP (pc_state p) = Delegated h)
    \<and> process_listeners p \<noteq> []
    \<and> (\<forall>(l, s) \<in> set (process_listeners p). if sv_knit s then sv_tls s = gc_tls_config (pc_config p)
         else \<exists>a. gc_admin (pc_config p) = Some a \<and> l = TcpListener (ac_listen_address a)
                \<and> (ac_use_tls a \<longleftrightarrow> sv_tls s \<noteq> None))"
  using startup_Ok [OF assms] startup_listeners [OF assms] LoadConfig_Ok load_external_ok
  by (fastforce simp: ServeHTTP_def)

definition demo_main :: main_env where
  "demo_main = \<lparr>me_os = demo_os, me_decode = demo_decode, me_new_cache = (\<lambda>c. None), me_new_watcher = (\<lambda>w. None),
     me_schema_id = (\<lambda>p. ''id''), me_services = (\<lambda>s. s), me_pollers = (\<lambda>p. p), me_await = (\<lambda>d w. None),
     me_build = demo_build\<lparr>be_find := (\<lambda>p n. Inr (ServiceDescriptor (demo_service\<lparr>sv_full_name := n, sv_methods := []\<rparr>)))\<rparr>\<rparr>"

definition demo_flags :: main_flags where
  "demo_flags = \<lparr>fl_conf = ''knitgateway.yaml'', fl_log_format = ''console'', fl_help = False, fl_version = False,
     fl_args = [''extra'']\<rparr>"

lemma demo_file_mode: "ParseInt ''0600'' 8 32 = Inr 384"
  by (simp add: ParseInt_def digit_val_def less_eq_char_def)

lemma demo_startup: "\<exists>p. startup demo_main demo_flags = Ok p"
proof -
  have c: "\<exists>g. CreateGateway demo_os (\<lambda>c. None) (\<lambda>w. None) (\<lambda>p. ''id'') (gc_services demo_gc) (\<lambda>p. p) demo_gc = (Ok g, [])"
    by (simp add: CreateGateway_def Let_def demo_gc_def demo_users_def demo_posts_service_def
        next_watcher_def f64_nonzero_def file_toCache_def open_cache_def demo_file_mode)
  then obtain g where g: "CreateGateway demo_os (\<lambda>c. None) (\<lambda>w. None) (\<lambda>p. ''id'') (gc_services demo_gc) (\<lambda>p. p) demo_gc = (Ok g, [])"
    by blast
  have a: "await_watchers (\<lambda>w. None) ws = Ok ()" for ws by (induction ws) auto
  have b: "\<exists>h. build_handler (me_build demo_main) demo_gc (gc_services demo_gc) = Ok h"
    by (simp add: build_handler_def demo_main_def demo_build_def AddService_def addService_def getSvcOpts_def
        service_options_def new_knit_gateway_def Let_def demo_gc_def)
  then show ?thesis
    using demo_gc g by (auto simp: startup_def demo_main_def demo_flags_def AwaitReady_def a CreateHandler_def
        fresh_gateway_state_def)
qed

theorem startup_establishes_witness:
  "\<exists>p. startup demo_main demo_flags = Ok p \<and> process_listeners p \<noteq> []"
  using demo_startup startup_establishes by blast



text \<open>A process that cannot listen on its only address still exits with status 0: the error of the
  group is dropped.\<close>

lemma listen_failure_exit_status:
  "\<exists>t. group_run (group_start 1) [ListenFailed, ShutdownCalled, ProcessEnded] t \<and> gr_exit t = Some 0"
  by (rule listen_failure_exits_0)

end
