(* ===== verification/Cross_Services.thy ===== *)
theory Cross_Services
  imports Knit_Gateway
begin

text \<open>
  The services of the cross-language tests (\<^verbatim>\<open>internal/crosstest\<close>): two in-memory resource
  services, parents and their children, and the resolvers of the relations between them. The
  gateway of \<^verbatim>\<open>cmd/crosstest-server\<close> serves them. Each handler is a function of its service's
  state; handlers run concurrently, and the atomic operations of all of them are the steps of
  \<open>cross_step\<close>.

  A \<^verbatim>\<open>sync.Map\<close> is an association list; \<open>order\<close> is the order in which \<^verbatim>\<open>Range\<close> visits it. A nil
  message reads as the empty one; setting a field of it panics.
\<close>

record parent =
  pa_id :: string
  pa_name :: string

record child =
  ch_id :: string

record 'a resource_store =
  rs_counter :: "64 word"
  rs_entries :: "(string \<times> 'a) list"

definition empty_resources :: "'a resource_store" where
  "empty_resources = \<lparr>rs_counter = 0, rs_entries = []\<rparr>"

definition store_entry :: "string \<Rightarrow> 'a \<Rightarrow> 'a resource_store \<Rightarrow> 'a resource_store" where
  "store_entry k v s = s\<lparr>rs_entries := AList.update k v (rs_entries s)\<rparr>"

definition delete_entry :: "string \<Rightarrow> 'a resource_store \<Rightarrow> 'a resource_store" where
  "delete_entry k s = s\<lparr>rs_entries := AList.delete k (rs_entries s)\<rparr>"

text \<open>\<^verbatim>\<open>idCounter.Add(1)\<close>.\<close>

definition next_id :: "'a resource_store \<Rightarrow> 64 word \<times> 'a resource_store" where
  "next_id s = (rs_counter s + 1, s\<lparr>rs_counter := rs_counter s + 1\<rparr>)"

definition not_found :: "connect_code \<Rightarrow> string \<Rightarrow> string \<Rightarrow> go_error" where
  "not_found c what key = new_connect_error c (Errorf (what @ '' with id: %q not found'') [AStr key])"

section \<open>ParentService\<close>

definition parent_of :: "parent option \<Rightarrow> parent" where
  "parent_of req = (case req of None \<Rightarrow> \<lparr>pa_id = [], pa_name = []\<rparr> | Some p \<Rightarrow> p)"

definition ListParents :: "(parent list \<Rightarrow> parent list) \<Rightarrow> parent resource_store \<Rightarrow> parent list" where
  "ListParents order s = order (map snd (rs_entries s))"

definition GetParent :: "parent resource_store \<Rightarrow> string \<Rightarrow> parent result" where
  "GetParent s key = (case map_of (rs_entries s) key of
     None \<Rightarrow> Err (not_found CodeNotFound ''parent'' key) | Some p \<Rightarrow> Ok p)"

definition CreateParent :: "parent option \<Rightarrow> parent resource_store \<Rightarrow> parent result \<times> parent resource_store" where
  "CreateParent req s =
     (let (n, s1) = next_id s
      in case req of
           None \<Rightarrow> (Panic ''nil dereference'', s1)
         | Some p \<Rightarrow> (let p' = p\<lparr>pa_id := format_int n\<rparr> in (Ok p', store_entry (pa_id p') p' s1)))"

definition UpdateParent :: "parent option \<Rightarrow> parent resource_store \<Rightarrow> parent result \<times> parent resource_store" where
  "UpdateParent req s =
     (let p = parent_of req; key = pa_id p
      in if map_of (rs_entries s) key = None then (Err (not_found CodeInvalidArgument ''parent'' key), s)
         else (Ok p, store_entry key p s))"

definition DeleteParent :: "string \<Rightarrow> parent resource_store \<Rightarrow> parent resource_store" where
  "DeleteParent key s = delete_entry key s"

section \<open>ChildService\<close>

definition child_of :: "child option \<Rightarrow> child" where
  "child_of req = (case req of None \<Rightarrow> \<lparr>ch_id = []\<rparr> | Some c \<Rightarrow> c)"

definition ListChildren :: "(child list \<Rightarrow> child list) \<Rightarrow> child resource_store \<Rightarrow> string \<Rightarrow> child list" where
  "ListChildren order s parent = filter (\<lambda>c. has_prefix (ch_id c) parent) (order (map snd (rs_entries s)))"

definition GetChild :: "child resource_store \<Rightarrow> string \<Rightarrow> child result" where
  "GetChild s key = (case map_of (rs_entries s) key of
     None \<Rightarrow> Err (not_found CodeNotFound ''child'' key) | Some c \<Rightarrow> Ok c)"

definition child_id :: "string \<Rightarrow> 64 word \<Rightarrow> string" where
  "child_id parent n = parent @ ''/'' @ format_int n"

definition CreateChild :: "(string \<Rightarrow> parent result) \<Rightarrow> string \<Rightarrow> child option \<Rightarrow> child resource_store
    \<Rightarrow> child result \<times> child resource_store" where
  "CreateChild get_parent parent req s =
     (case get_parent parent of
        Err e \<Rightarrow> (Err e, s)
      | Panic m \<Rightarrow> (Panic m, s)
      | Ok _ \<Rightarrow>
          (let (n, s1) = next_id s
           in case req of
                None \<Rightarrow> (Panic ''nil dereference'', s1)
              | Some c \<Rightarrow> (let c' = c\<lparr>ch_id := child_id parent n\<rparr> in (Ok c', store_entry (ch_id c') c' s1))))"

definition UpdateChild :: "child option \<Rightarrow> child resource_store \<Rightarrow> child result \<times> child resource_store" where
  "UpdateChild req s =
     (let c = child_of req; key = ch_id c
      in if map_of (rs_entries s) key = None then (Err (not_found CodeInvalidArgument ''child'' key), s)
         else (Ok c, store_entry key c s))"

definition DeleteChild :: "string \<Rightarrow> child resource_store \<Rightarrow> child resource_store" where
  "DeleteChild key s = delete_entry key s"

section \<open>The resolvers\<close>

text \<open>One value for each base, in order; the first error ends the loop. Pages have no next page.\<close>

definition GetParentChildren :: "(string \<Rightarrow> child list result) \<Rightarrow> parent list \<Rightarrow> child list list result" where
  "GetParentChildren list_children bases = omap (\<lambda>base. list_children (pa_id base)) bases"

definition GetChildParent :: "(string \<Rightarrow> parent result) \<Rightarrow> child list \<Rightarrow> parent list result" where
  "GetChildParent get_parent bases = omap (\<lambda>base. get_parent (hd (split_on (CHR ''/'') (ch_id base)))) bases"

section \<open>Handlers that run concurrently\<close>

text \<open>
  A handler between two of its atomic operations: a parent that was given its id or found by
  \<^verbatim>\<open>UpdateParent\<close>, about to be stored; a child whose parent was found; a child about to be
  stored.
\<close>

datatype in_flight = StoringParent parent | FoundParent string child | StoringChild child

record cross_state =
  cs_parents :: "parent resource_store"
  cs_children :: "child resource_store"
  cs_running :: "in_flight list"

datatype cross_event =
    ParentIssued string | ParentFound string | ParentStored string | ParentDeleted string
  | ParentLookedUp string | ChildIssued string | ChildFound string | ChildStored string | ChildDeleted string

inductive cross_step :: "cross_state \<Rightarrow> cross_event \<Rightarrow> cross_state \<Rightarrow> bool" where
  create_parent: "next_id (cs_parents s) = (n, ps) \<Longrightarrow>
    cross_step s (ParentIssued (format_int n))
      (s\<lparr>cs_parents := ps, cs_running := StoringParent (p\<lparr>pa_id := format_int n\<rparr>) # cs_running s\<rparr>)"
| update_parent: "map_of (rs_entries (cs_parents s)) (pa_id p) \<noteq> None \<Longrightarrow>
    cross_step s (ParentFound (pa_id p)) (s\<lparr>cs_running := StoringParent p # cs_running s\<rparr>)"
| store_parent: "StoringParent p \<in> set (cs_running s) \<Longrightarrow>
    cross_step s (ParentStored (pa_id p))
      (s\<lparr>cs_parents := store_entry (pa_id p) p (cs_parents s), cs_running := remove1 (StoringParent p) (cs_running s)\<rparr>)"
| delete_parent: "cross_step s (ParentDeleted key) (s\<lparr>cs_parents := DeleteParent key (cs_parents s)\<rparr>)"
| create_child: "GetParent (cs_parents s) key = Ok p \<Longrightarrow>
    cross_step s (ParentLookedUp key) (s\<lparr>cs_running := FoundParent key c # cs_running s\<rparr>)"
| issue_child: "FoundParent key c \<in> set (cs_running s) \<Longrightarrow> next_id (cs_children s) = (n, cs) \<Longrightarrow>
    cross_step s (ChildIssued (child_id key n))
      (s\<lparr>cs_children := cs,
         cs_running := StoringChild (c\<lparr>ch_id := child_id key n\<rparr>) # remove1 (FoundParent key c) (cs_running s)\<rparr>)"
| update_child: "map_of (rs_entries (cs_children s)) (ch_id c) \<noteq> None \<Longrightarrow>
    cross_step s (ChildFound (ch_id c)) (s\<lparr>cs_running := StoringChild c # cs_running s\<rparr>)"
| store_child: "StoringChild c \<in> set (cs_running s) \<Longrightarrow>
    cross_step s (ChildStored (ch_id c))
      (s\<lparr>cs_children := store_entry (ch_id c) c (cs_children s), cs_running := remove1 (StoringChild c) (cs_running s)\<rparr>)"
| delete_child: "cross_step s (ChildDeleted key) (s\<lparr>cs_children := DeleteChild key (cs_children s)\<rparr>)"

definition cross_start :: cross_state where
  "cross_start = \<lparr>cs_parents = empty_resources, cs_children = empty_resources, cs_running = []\<rparr>"

inductive cross_run :: "cross_state \<Rightarrow> cross_event list \<Rightarrow> cross_state \<Rightarrow> bool" where
  cr_nil: "cross_run s [] s"
| cr_snoc: "cross_run s es t \<Longrightarrow> cross_step t e u \<Longrightarrow> cross_run s (es @ [e]) u"


section \<open>Identifiers\<close>

lemma dec_int_no_slash: "CHR ''/'' \<notin> set (dec_int i)"
proof -
  have "CHR ''/'' \<noteq> digit_char d" if "d < 10" for d
  proof
    assume "CHR ''/'' = digit_char d"
    then have "(of_char (CHR ''/'') :: nat) = of_char (digit_char d)" by simp
    with that show False by (simp add: digit_char_def)
  qed
  then have "CHR ''/'' \<notin> set (dec_nat n)" for n using dec_nat_chars [of "CHR ''/''" n] by blast
  then show ?thesis by (simp add: dec_int_def)
qed

lemma format_int_no_slash [simp]: "CHR ''/'' \<notin> set (format_int n)"
  by (simp add: format_int_def dec_int_no_slash)

lemma split_on_head: "sep \<notin> set xs \<Longrightarrow> split_on sep (xs @ sep # ys) = xs # split_on sep ys"
  by (induction xs) (auto split: list.splits)

text \<open>The parent's part of a child's id, as the resolver of the relation takes it.\<close>

definition owner_id :: "child \<Rightarrow> string" where
  "owner_id c = hd (split_on (CHR ''/'') (ch_id c))"

lemma owner_child_id: "CHR ''/'' \<notin> set q \<Longrightarrow> hd (split_on (CHR ''/'') (child_id q n)) = q"
  by (simp add: child_id_def split_on_head)

lemma child_id_inj:
  "CHR ''/'' \<notin> set q \<Longrightarrow> CHR ''/'' \<notin> set q' \<Longrightarrow> child_id q n = child_id q' n' \<longleftrightarrow> q = q' \<and> n = n'"
proof
  assume q: "CHR ''/'' \<notin> set q" "CHR ''/'' \<notin> set q'" and eq: "child_id q n = child_id q' n'"
  from eq have "hd (split_on (CHR ''/'') (child_id q n)) = hd (split_on (CHR ''/'') (child_id q' n'))" by simp
  with q have "q = q'" by (simp add: owner_child_id)
  with eq show "q = q' \<and> n = n'" using int64_text.enc_eq_iff [of n n'] by (simp add: child_id_def)
qed simp

text \<open>A child's id starts with a parent's id exactly when its own parent's does.\<close>

lemma child_id_prefix: "CHR ''/'' \<notin> set p \<Longrightarrow> has_prefix (child_id q n) p \<longleftrightarrow> has_prefix q p"
proof (induction q arbitrary: p)
  case Nil
  then show ?case by (cases p) (auto simp: has_prefix_def child_id_def)
next
  case (Cons c q)
  then show ?case by (cases p) (auto simp: has_prefix_def child_id_def)
qed

section \<open>What runs of the handlers keep\<close>

definition parent_issues :: "cross_event list \<Rightarrow> string list" where
  "parent_issues es = concat (map (\<lambda>e. case e of ParentIssued k \<Rightarrow> [k] | _ \<Rightarrow> []) es)"

definition child_issues :: "cross_event list \<Rightarrow> string list" where
  "child_issues es = concat (map (\<lambda>e. case e of ChildIssued k \<Rightarrow> [k] | _ \<Rightarrow> []) es)"

lemma issues_simps [simp]:
  "parent_issues [] = []" "child_issues [] = []"
  "parent_issues (es @ [e]) = parent_issues es @ (case e of ParentIssued k \<Rightarrow> [k] | _ \<Rightarrow> [])"
  "child_issues (es @ [e]) = child_issues es @ (case e of ChildIssued k \<Rightarrow> [k] | _ \<Rightarrow> [])"
  by (simp_all add: parent_issues_def child_issues_def)

definition in_flight_ok :: "cross_event list \<Rightarrow> in_flight \<Rightarrow> bool" where
  "in_flight_ok es x \<longleftrightarrow> (case x of
     StoringParent p \<Rightarrow> pa_id p \<in> set (parent_issues es)
   | FoundParent q c \<Rightarrow> q \<in> set (parent_issues es)
   | StoringChild c \<Rightarrow> ch_id c \<in> set (child_issues es))"

lemma in_flight_ok_simps [simp]:
  "in_flight_ok es (StoringParent p) \<longleftrightarrow> pa_id p \<in> set (parent_issues es)"
  "in_flight_ok es (FoundParent q c) \<longleftrightarrow> q \<in> set (parent_issues es)"
  "in_flight_ok es (StoringChild c) \<longleftrightarrow> ch_id c \<in> set (child_issues es)"
  by (simp_all add: in_flight_ok_def)

definition entries_ok :: "('a \<Rightarrow> string) \<Rightarrow> string set \<Rightarrow> 'a resource_store \<Rightarrow> bool" where
  "entries_ok key issued s \<longleftrightarrow>
     distinct (map fst (rs_entries s)) \<and> (\<forall>(k, v) \<in> set (rs_entries s). key v = k \<and> k \<in> issued)"

definition cross_inv :: "cross_event list \<Rightarrow> cross_state \<Rightarrow> bool" where
  "cross_inv es s \<longleftrightarrow>
     rs_counter (cs_parents s) = of_nat (length (parent_issues es))
     \<and> rs_counter (cs_children s) = of_nat (length (child_issues es))
     \<and> (\<forall>i < length (parent_issues es). parent_issues es ! i = format_int (of_nat (Suc i)))
     \<and> (\<forall>i < length (child_issues es). \<exists>q \<in> set (parent_issues es). child_issues es ! i = child_id q (of_nat (Suc i)))
     \<and> entries_ok pa_id (set (parent_issues es)) (cs_parents s)
     \<and> entries_ok ch_id (set (child_issues es)) (cs_children s)
     \<and> (\<forall>x \<in> set (cs_running s). in_flight_ok es x)"

lemma entries_ok_store:
  assumes "entries_ok key A s" "key v \<in> A" shows "entries_ok key A (store_entry (key v) v s)"
proof -
  have "set (AList.update (key v) v kvs) \<subseteq> insert (key v, v) (set kvs)" for kvs
    by (induction kvs) auto
  with assms show ?thesis
    by (fastforce simp: entries_ok_def store_entry_def distinct_update)
qed

lemma entries_ok_delete: "entries_ok key A s \<Longrightarrow> entries_ok key A (delete_entry k s)"
proof -
  have "set (AList.delete k kvs) \<subseteq> set kvs" for kvs :: "(string \<times> 'a) list"
    by (induction kvs) auto
  then show "entries_ok key A s \<Longrightarrow> entries_ok key A (delete_entry k s)"
    using distinct_delete [of "rs_entries s" k] by (fastforce simp: entries_ok_def delete_entry_def)
qed

lemma entries_ok_mono: "entries_ok key A s \<Longrightarrow> A \<subseteq> B \<Longrightarrow> entries_ok key B s"
  by (auto simp: entries_ok_def)

lemma entries_ok_next: "next_id s = (n, s') \<Longrightarrow> entries_ok key A s' \<longleftrightarrow> entries_ok key A s"
  by (auto simp: next_id_def entries_ok_def)

lemma entries_ok_lookup:
  "entries_ok key A s \<Longrightarrow> map_of (rs_entries s) k = Some v \<Longrightarrow> key v = k \<and> k \<in> A"
  by (auto simp: entries_ok_def dest: map_of_SomeD)

lemma in_flight_ok_mono: "in_flight_ok es x \<Longrightarrow> in_flight_ok (es @ [e]) x"
  by (auto simp: in_flight_ok_def split: in_flight.splits)

lemma cross_inv_start: "cross_inv [] cross_start"
  by (simp add: cross_inv_def cross_start_def empty_resources_def entries_ok_def)

lemma cross_inv_quiet:
  assumes "cross_inv es s" "parent_issues (es @ [e]) = parent_issues es" "child_issues (es @ [e]) = child_issues es"
    "rs_counter (cs_parents t) = rs_counter (cs_parents s)" "rs_counter (cs_children t) = rs_counter (cs_children s)"
    "entries_ok pa_id (set (parent_issues es)) (cs_parents t)" "entries_ok ch_id (set (child_issues es)) (cs_children t)"
    "\<And>x. x \<in> set (cs_running t) \<Longrightarrow> in_flight_ok es x"
  shows "cross_inv (es @ [e]) t"
  using assms in_flight_ok_mono [of es _ e] unfolding cross_inv_def by simp

lemma cross_invD:
  assumes "cross_inv es s"
  shows "entries_ok pa_id (set (parent_issues es)) (cs_parents s)" "entries_ok ch_id (set (child_issues es)) (cs_children s)"
    and "x \<in> set (cs_running s) \<Longrightarrow> in_flight_ok es x"
  using assms by (simp_all add: cross_inv_def)

lemma cross_inv_step:
  assumes "cross_step s e t" and inv: "cross_inv es s"
  shows "cross_inv (es @ [e]) t"
  using assms(1)
proof (cases rule: cross_step.cases)
  case (create_parent n ps p)
  then have n: "n = of_nat (Suc (length (parent_issues es)))" "rs_counter ps = n"
    "rs_entries ps = rs_entries (cs_parents s)"
    using inv by (auto simp: next_id_def cross_inv_def)
  have "entries_ok pa_id (insert k (set (parent_issues es))) ps" for k
    using entries_ok_mono [OF cross_invD(1) [OF inv]] entries_ok_next [OF create_parent(3)] by blast
  with n create_parent inv show ?thesis
    using in_flight_ok_mono [of es _ e]
    by (auto simp: cross_inv_def nth_append less_Suc_eq)
next
  case (issue_child key c n cs)
  then have n: "n = of_nat (Suc (length (child_issues es)))" "rs_counter cs = n"
    using inv by (auto simp: next_id_def cross_inv_def)
  have key: "key \<in> set (parent_issues es)"
    using cross_invD(3) [OF inv issue_child(3)] by simp
  have "entries_ok ch_id (insert k (set (child_issues es))) cs" for k
    using entries_ok_mono [OF cross_invD(2) [OF inv]] entries_ok_next [OF issue_child(4)] by blast
  moreover have "in_flight_ok (es @ [e]) x" if "x \<in> set (remove1 (FoundParent key c) (cs_running s))" for x
    using in_flight_ok_mono cross_invD(3) [OF inv] notin_set_remove1 that by metis
  ultimately show ?thesis using n key issue_child inv
    by (auto simp: cross_inv_def nth_append less_Suc_eq)
next
  case (store_parent p)
  have "pa_id p \<in> set (parent_issues es)"
    using cross_invD(3) [OF inv store_parent(3)] by simp
  from entries_ok_store [OF cross_invD(1) [OF inv], of p] this store_parent show ?thesis
    by (intro cross_inv_quiet [OF inv])
      (auto simp: store_entry_def intro: cross_invD [OF inv] dest: set_remove1_subset [THEN subsetD])
next
  case (store_child c)
  have "ch_id c \<in> set (child_issues es)"
    using cross_invD(3) [OF inv store_child(3)] by simp
  from entries_ok_store [OF cross_invD(2) [OF inv], of c] this store_child show ?thesis
    by (intro cross_inv_quiet [OF inv])
      (auto simp: store_entry_def intro: cross_invD [OF inv] dest: set_remove1_subset [THEN subsetD])
next
  case (create_child key p c)
  then have "key \<in> set (parent_issues es)"
    using entries_ok_lookup [OF cross_invD(1) [OF inv]] by (auto simp: GetParent_def split: option.splits)
  with create_child show ?thesis
    by (intro cross_inv_quiet [OF inv]) (auto intro: cross_invD [OF inv])
next
  case (update_parent p)
  then have "pa_id p \<in> set (parent_issues es)"
    using entries_ok_lookup [OF cross_invD(1) [OF inv]] by auto
  with update_parent show ?thesis
    by (intro cross_inv_quiet [OF inv]) (auto intro: cross_invD [OF inv])
next
  case (update_child c)
  then have "ch_id c \<in> set (child_issues es)"
    using entries_ok_lookup [OF cross_invD(2) [OF inv]] by auto
  with update_child show ?thesis
    by (intro cross_inv_quiet [OF inv]) (auto intro: cross_invD [OF inv])
next
  case (delete_parent key)
  then show ?thesis using entries_ok_delete [OF cross_invD(1) [OF inv]]
    by (intro cross_inv_quiet [OF inv]) (auto simp: DeleteParent_def delete_entry_def intro: cross_invD [OF inv])
next
  case (delete_child key)
  then show ?thesis using entries_ok_delete [OF cross_invD(2) [OF inv]]
    by (intro cross_inv_quiet [OF inv]) (auto simp: DeleteChild_def delete_entry_def intro: cross_invD [OF inv])
qed

lemma cross_run_inv: "cross_run cross_start es s \<Longrightarrow> cross_inv es s"
proof (induction cross_start es s rule: cross_run.induct)
  case cr_nil
  then show ?case by (rule cross_inv_start)
next
  case (cr_snoc es t e u)
  then show ?case using cross_inv_step by blast
qed

section \<open>What the relations see\<close>

lemma issues_length: "length (parent_issues es) \<le> length es" "length (child_issues es) \<le> length es"
proof -
  have *: "length (concat (map f es)) \<le> length es" if "\<And>e. length (f e) \<le> 1" for f :: "cross_event \<Rightarrow> string list"
  proof (induction es)
    case (Cons e es)
    with that [of e] show ?case by simp
  qed simp
  show "length (parent_issues es) \<le> length es" "length (child_issues es) \<le> length es"
    unfolding parent_issues_def child_issues_def by (rule *; simp split: cross_event.split)+
qed

lemma counter_inj:
  assumes "i < 2 ^ 63" "j < 2 ^ 63" "(of_nat (Suc i) :: 64 word) = of_nat (Suc j)"
  shows "i = j"
proof -
  have less: "Suc k < 2 ^ LENGTH(64)" if "k < 2 ^ 63" for k :: nat
  proof -
    from that have "Suc k \<le> 2 ^ 63" by (rule Suc_leI)
    also have "(2 :: nat) ^ 63 < 2 ^ LENGTH(64)" by (rule power_strict_increasing) simp_all
    finally show ?thesis .
  qed
  from of_nat_inverse [OF assms(3) less [OF assms(1)]] of_nat_inverse [OF refl less [OF assms(2)]]
  have "Suc i = Suc j" by argo
  then show ?thesis by (rule Suc_inject)
qed

text \<open>The \<open>i\<close>-th id that was issued.\<close>

lemma nth_issue:
  assumes "cross_run cross_start es s"
  shows "i < length (parent_issues es) \<Longrightarrow> parent_issues es ! i = format_int (of_nat (Suc i))"
    and "i < length (child_issues es) \<Longrightarrow>
      \<exists>q \<in> set (parent_issues es). child_issues es ! i = child_id q (of_nat (Suc i))"
  using cross_run_inv [OF assms] unfolding cross_inv_def by (simp_all del: of_nat_Suc)

lemma parent_issue_no_slash:
  "cross_run cross_start es s \<Longrightarrow> q \<in> set (parent_issues es) \<Longrightarrow> CHR ''/'' \<notin> set q"
  using nth_issue(1) [of es s] format_int_no_slash unfolding in_set_conv_nth by metis

lemma child_issue:
  assumes "cross_run cross_start es s" "k \<in> set (child_issues es)"
  obtains q n where "q \<in> set (parent_issues es)" "k = child_id q n"
proof -
  from assms(2) obtain i where "i < length (child_issues es)" "k = child_issues es ! i"
    by (auto simp: in_set_conv_nth)
  with nth_issue(2) [OF assms(1)] that show thesis by metis
qed

lemma issued_distinct:
  assumes run: "cross_run cross_start es s" and l: "length es < 2 ^ 63"
  shows "distinct (parent_issues es @ child_issues es)"
proof -
  have p: "i < 2 ^ 63" if "i < length (parent_issues es)" for i
    using that issues_length(1) [of es] l by (meson order_le_less_trans order_less_trans)
  have c: "i < 2 ^ 63" if "i < length (child_issues es)" for i
    using that issues_length(2) [of es] l by (meson order_le_less_trans order_less_trans)
  have "distinct (parent_issues es)"
    unfolding distinct_conv_nth
  proof (intro allI impI)
    fix i j assume ij: "i < length (parent_issues es)" "j < length (parent_issues es)" "i \<noteq> j"
    then have "parent_issues es ! i = format_int (of_nat (Suc i))" "parent_issues es ! j = format_int (of_nat (Suc j))"
      using nth_issue(1) [OF run] by blast+
    moreover have "(of_nat (Suc i) :: 64 word) \<noteq> of_nat (Suc j)"
      using counter_inj [OF p [OF ij(1)] p [OF ij(2)]] ij(3) by blast
    ultimately show "parent_issues es ! i \<noteq> parent_issues es ! j"
      using int64_text.enc_eq_iff by metis
  qed
  moreover have "distinct (child_issues es)"
    unfolding distinct_conv_nth
  proof (intro allI impI)
    fix i j assume ij: "i < length (child_issues es)" "j < length (child_issues es)" "i \<noteq> j"
    then obtain q q' where q: "q \<in> set (parent_issues es)" "child_issues es ! i = child_id q (of_nat (Suc i))"
      and q': "q' \<in> set (parent_issues es)" "child_issues es ! j = child_id q' (of_nat (Suc j))"
      using nth_issue(2) [OF run ij(1)] nth_issue(2) [OF run ij(2)] by blast
    moreover have "(of_nat (Suc i) :: 64 word) \<noteq> of_nat (Suc j)"
      using counter_inj [OF c [OF ij(1)] c [OF ij(2)]] ij(3) by blast
    ultimately show "child_issues es ! i \<noteq> child_issues es ! j"
      using child_id_inj [OF parent_issue_no_slash [OF run q(1)] parent_issue_no_slash [OF run q'(1)]] by metis
  qed
  moreover have "k \<notin> set (child_issues es)" if "k \<in> set (parent_issues es)" for k
  proof
    assume "k \<in> set (child_issues es)"
    with child_issue [OF run] obtain q n where "k = child_id q n" by metis
    with parent_issue_no_slash [OF run that] show False by (simp add: child_id_def)
  qed
  ultimately show ?thesis by auto
qed

lemma stored_ids:
  assumes "cross_run cross_start es s"
  shows "map_of (rs_entries (cs_parents s)) k = Some p \<Longrightarrow> pa_id p = k \<and> k \<in> set (parent_issues es)"
    and "map_of (rs_entries (cs_children s)) k = Some c \<Longrightarrow> ch_id c = k \<and> k \<in> set (child_issues es)"
  using entries_ok_lookup cross_invD [OF cross_run_inv [OF assms]] by metis+

lemma child_owner:
  assumes run: "cross_run cross_start es s" and c: "k \<in> set (child_issues es)"
  obtains q n where "q \<in> set (parent_issues es)" "CHR ''/'' \<notin> set q" "k = child_id q n"
    "hd (split_on (CHR ''/'') k) = q"
proof -
  obtain q n where q: "q \<in> set (parent_issues es)" "k = child_id q n" by (rule child_issue [OF run c])
  with parent_issue_no_slash [OF run] owner_child_id that show thesis by metis
qed

section \<open>The client that ChildService and the resolvers have of ParentService\<close>

text \<open>
  They rely on this: the parent that is returned has the id that was asked for, and the id
  has no slash. \<open>inv\<close> are the states of the server for which that holds.
\<close>

locale parent_client =
  fixes get_parent :: "'s \<Rightarrow> string \<Rightarrow> parent result"
    and inv :: "'s \<Rightarrow> bool"
  assumes get_id: "inv s \<Longrightarrow> get_parent s key = Ok p \<Longrightarrow> pa_id p = key"
    and get_slash: "inv s \<Longrightarrow> get_parent s key = Ok p \<Longrightarrow> CHR ''/'' \<notin> set key"
begin

text \<open>A created child belongs to the parent it was created under.\<close>

lemma CreateChild_owner:
  assumes "inv s" "CreateChild (get_parent s) key req cs = (Ok c, cs')"
  shows "owner_id c = key" "map_of (rs_entries cs') (ch_id c) = Some c"
proof -
  from assms(2) obtain p c0 n where p: "get_parent s key = Ok p" and c: "c = c0\<lparr>ch_id := child_id key n\<rparr>"
    and cs': "\<exists>cs1. cs' = store_entry (ch_id c) c cs1"
    by (auto simp: CreateChild_def Let_def split: outcome.splits option.splits prod.splits)
  from owner_child_id [OF get_slash [OF assms(1) p]] show "owner_id c = key"
    by (simp add: owner_id_def c)
  from cs' show "map_of (rs_entries cs') (ch_id c) = Some c"
    by (auto simp: store_entry_def update_conv')
qed

text \<open>The relation \<^verbatim>\<open>parent\<close>: one parent for each base, its own.\<close>

lemma GetChildParent_owner:
  assumes "inv s" "GetChildParent (get_parent s) bases = Ok ps"
  shows "map pa_id ps = map owner_id bases"
  using assms(2)
proof (induction bases arbitrary: ps)
  case Nil
  then show ?case by (simp add: GetChildParent_def)
next
  case (Cons b bases)
  then obtain p ps' where "get_parent s (owner_id b) = Ok p" "GetChildParent (get_parent s) bases = Ok ps'" "ps = p # ps'"
    by (auto simp: GetChildParent_def owner_id_def obind_iffs)
  with Cons.IH get_id [OF assms(1)] show ?case by simp
qed

end

definition parents_ok :: "parent resource_store \<Rightarrow> bool" where
  "parents_ok s \<longleftrightarrow> entries_ok pa_id {k. CHR ''/'' \<notin> set k} s"

interpretation parents: parent_client GetParent parents_ok
proof
  fix s key p assume "parents_ok s" "GetParent s key = Ok p"
  then have "entries_ok pa_id {k. CHR ''/'' \<notin> set k} s" "map_of (rs_entries s) key = Some p"
    by (auto simp: parents_ok_def GetParent_def split: option.splits)
  from entries_ok_lookup [OF this] show "pa_id p = key" "CHR ''/'' \<notin> set key" by simp_all
qed

lemma reachable_parents_ok: "cross_run cross_start es s \<Longrightarrow> parents_ok (cs_parents s)"
proof -
  assume run: "cross_run cross_start es s"
  show ?thesis
    unfolding parents_ok_def
    by (rule entries_ok_mono [OF cross_invD(1) [OF cross_run_inv [OF run]]])
      (use parent_issue_no_slash [OF run] in blast)
qed

section \<open>The relation children\<close>

text \<open>The children of a parent, as the code lists them: those of every parent whose id starts with its id.\<close>

lemma ListChildren_exact:
  assumes run: "cross_run cross_start es s" and p: "CHR ''/'' \<notin> set key"
    and order: "\<And>xs. set (order xs) = set xs"
  shows "set (ListChildren order (cs_children s) key) =
    {c. (\<exists>k. map_of (rs_entries (cs_children s)) k = Some c) \<and> has_prefix (owner_id c) key}"
proof -
  have inv: "entries_ok ch_id (set (child_issues es)) (cs_children s)"
    by (rule cross_invD(2) [OF cross_run_inv [OF run]])
  have stored: "c \<in> snd ` set (rs_entries (cs_children s)) \<longleftrightarrow> (\<exists>k. map_of (rs_entries (cs_children s)) k = Some c)" for c
    using inv by (force simp: entries_ok_def)
  have "has_prefix (ch_id c) key \<longleftrightarrow> has_prefix (owner_id c) key"
    if "map_of (rs_entries (cs_children s)) k = Some c" for c k
  proof -
    from stored_ids(2) [OF run that] have k: "ch_id c = k" "k \<in> set (child_issues es)" by simp_all
    obtain q n where "k = child_id q n" "hd (split_on (CHR ''/'') k) = q" by (rule child_owner [OF run k(2)])
    with k(1) child_id_prefix [OF p] show ?thesis by (simp add: owner_id_def)
  qed
  then show ?thesis by (auto simp: ListChildren_def order stored)
qed

text \<open>So the first parent is shown the tenth one's children too.\<close>

lemma tenth_parents_children: "has_prefix (owner_id \<lparr>ch_id = ''10/1''\<rparr>) ''1''"
  by code_simp

section \<open>Handlers are runs\<close>

lemma cross_run_one: "cross_step s e t \<Longrightarrow> cross_run s [e] t"
  using cr_snoc [OF cr_nil] by simp

lemma cross_run_two: "cross_step s e t \<Longrightarrow> cross_step t f u \<Longrightarrow> cross_run s [e, f] u"
  using cr_snoc [OF cross_run_one] by simp

lemma CreateParent_run:
  assumes "CreateParent (Some p) (cs_parents s) = (Ok p', ps)"
  shows "cross_run s [ParentIssued (pa_id p'), ParentStored (pa_id p')] (s\<lparr>cs_parents := ps\<rparr>)"
proof -
  obtain n ps1 where n: "next_id (cs_parents s) = (n, ps1)" by fastforce
  with assms have p': "p' = p\<lparr>pa_id := format_int n\<rparr>" "ps = store_entry (pa_id p') p' ps1"
    by (auto simp: CreateParent_def Let_def)
  have "cross_step s (ParentIssued (pa_id p')) (s\<lparr>cs_parents := ps1, cs_running := StoringParent p' # cs_running s\<rparr>)"
    using create_parent [OF n, of p] by (simp add: p'(1))
  moreover have "cross_step (s\<lparr>cs_parents := ps1, cs_running := StoringParent p' # cs_running s\<rparr>)
      (ParentStored (pa_id p')) (s\<lparr>cs_parents := ps\<rparr>)"
    using store_parent [of p' "s\<lparr>cs_parents := ps1, cs_running := StoringParent p' # cs_running s\<rparr>"]
    by (simp add: p'(2))
  ultimately show ?thesis by (rule cross_run_two)
qed

lemma UpdateParent_run:
  assumes "UpdateParent req (cs_parents s) = (Ok p, ps)"
  shows "cross_run s [ParentFound (pa_id p), ParentStored (pa_id p)] (s\<lparr>cs_parents := ps\<rparr>)"
proof -
  from assms have p: "map_of (rs_entries (cs_parents s)) (pa_id p) \<noteq> None" "ps = store_entry (pa_id p) p (cs_parents s)"
    by (auto simp: UpdateParent_def Let_def split: if_splits)
  from update_parent [OF p(1)] have
    "cross_step s (ParentFound (pa_id p)) (s\<lparr>cs_running := StoringParent p # cs_running s\<rparr>)" .
  moreover have "cross_step (s\<lparr>cs_running := StoringParent p # cs_running s\<rparr>) (ParentStored (pa_id p)) (s\<lparr>cs_parents := ps\<rparr>)"
    using store_parent [of p "s\<lparr>cs_running := StoringParent p # cs_running s\<rparr>"] by (simp add: p(2))
  ultimately show ?thesis by (rule cross_run_two)
qed

lemma CreateChild_run:
  assumes "CreateChild (GetParent (cs_parents s)) key (Some c) (cs_children s) = (Ok c', cs)"
  shows "cross_run s [ParentLookedUp key, ChildIssued (ch_id c'), ChildStored (ch_id c')] (s\<lparr>cs_children := cs\<rparr>)"
proof -
  obtain n cs1 where n: "next_id (cs_children s) = (n, cs1)" by fastforce
  with assms obtain p where p: "GetParent (cs_parents s) key = Ok p"
    and c': "c' = c\<lparr>ch_id := child_id key n\<rparr>" "cs = store_entry (ch_id c') c' cs1"
    by (auto simp: CreateChild_def Let_def split: outcome.splits)
  let ?s1 = "s\<lparr>cs_running := FoundParent key c # cs_running s\<rparr>"
  let ?s2 = "s\<lparr>cs_children := cs1, cs_running := StoringChild c' # cs_running s\<rparr>"
  have "cross_step s (ParentLookedUp key) ?s1" by (rule create_child [OF p])
  moreover have "cross_step ?s1 (ChildIssued (ch_id c')) ?s2"
    using issue_child [of key c ?s1 n cs1] n by (simp add: c'(1))
  moreover have "cross_step ?s2 (ChildStored (ch_id c')) (s\<lparr>cs_children := cs\<rparr>)"
    using store_child [of c' ?s2] by (simp add: c'(2))
  ultimately show ?thesis using cr_snoc [OF cross_run_two] by fastforce
qed

lemma UpdateChild_run:
  assumes "UpdateChild req (cs_children s) = (Ok c, cs)"
  shows "cross_run s [ChildFound (ch_id c), ChildStored (ch_id c)] (s\<lparr>cs_children := cs\<rparr>)"
proof -
  from assms have c: "map_of (rs_entries (cs_children s)) (ch_id c) \<noteq> None" "cs = store_entry (ch_id c) c (cs_children s)"
    by (auto simp: UpdateChild_def Let_def split: if_splits)
  from update_child [OF c(1)] have
    "cross_step s (ChildFound (ch_id c)) (s\<lparr>cs_running := StoringChild c # cs_running s\<rparr>)" .
  moreover have "cross_step (s\<lparr>cs_running := StoringChild c # cs_running s\<rparr>) (ChildStored (ch_id c)) (s\<lparr>cs_children := cs\<rparr>)"
    using store_child [of c "s\<lparr>cs_running := StoringChild c # cs_running s\<rparr>"] by (simp add: c(2))
  ultimately show ?thesis by (rule cross_run_two)
qed

text \<open>
  An update that was found before the parent was deleted stores it again: what was deleted is
  back.
\<close>

lemma deleted_parent_comes_back:
  "\<exists>es s. cross_run cross_start (es @ [ParentDeleted ''1'', ParentStored ''1'']) s
     \<and> map_of (rs_entries (cs_parents s)) ''1'' = Some \<lparr>pa_id = ''1'', pa_name = ''new''\<rparr>"
proof -
  let ?old = "\<lparr>pa_id = ''1'', pa_name = ''old''\<rparr>" and ?new = "\<lparr>pa_id = ''1'', pa_name = ''new''\<rparr>"
  have one: "format_int 1 = ''1''" by code_simp
  let ?s1 = "cross_start\<lparr>cs_parents := \<lparr>rs_counter = 1, rs_entries = [(''1'', ?old)]\<rparr>\<rparr>"
  have "CreateParent (Some \<lparr>pa_id = [], pa_name = ''old''\<rparr>) (cs_parents cross_start) = (Ok ?old, cs_parents ?s1)"
    by (simp add: CreateParent_def cross_start_def next_id_def empty_resources_def one store_entry_def Let_def)
  from CreateParent_run [OF this] have c: "cross_run cross_start [ParentIssued ''1'', ParentStored ''1''] ?s1"
    by (simp add: cross_start_def)
  let ?s2 = "?s1\<lparr>cs_running := [StoringParent ?new]\<rparr>"
  have "cross_step ?s1 (ParentFound ''1'') ?s2"
    using update_parent [of ?s1 ?new] by (simp add: cross_start_def)
  from cr_snoc [OF c this] have f: "cross_run cross_start [ParentIssued ''1'', ParentStored ''1'', ParentFound ''1''] ?s2" by simp
  let ?s3 = "?s2\<lparr>cs_parents := \<lparr>rs_counter = 1, rs_entries = []\<rparr>\<rparr>"
  have "cross_step ?s2 (ParentDeleted ''1'') ?s3"
    using delete_parent [of ?s2 "''1''"] by (simp add: DeleteParent_def delete_entry_def)
  from cr_snoc [OF f this] have d: "cross_run cross_start ([ParentIssued ''1'', ParentStored ''1'', ParentFound ''1''] @ [ParentDeleted ''1'']) ?s3" by simp
  let ?s4 = "?s3\<lparr>cs_parents := \<lparr>rs_counter = 1, rs_entries = [(''1'', ?new)]\<rparr>, cs_running := []\<rparr>"
  have "cross_step ?s3 (ParentStored ''1'') ?s4"
    using store_parent [of ?new ?s3] by (simp add: store_entry_def)
  from cr_snoc [OF d this] show ?thesis
    by (intro exI [of _ "[ParentIssued ''1'', ParentStored ''1'', ParentFound ''1'']"] exI [of _ ?s4]) simp
qed

end
