(* ===== verification/Cross_Server.thy ===== *)
theory Cross_Server
  imports Cross_Services
begin

text \<open>
  The server of the cross-language tests (\<^verbatim>\<open>internal/crosstest/cmd/crosstest-server/main.go\<close>):
  a gateway with the three services of \<^verbatim>\<open>test.proto\<close>, whose relations are resolved by one of
  them. The descriptors are those of the generated code, written out from the proto file.
\<close>

section \<open>test.proto\<close>

definition cross_name :: "string \<Rightarrow> string" where
  "cross_name n = ''buf.knit.crosstest.'' @ n"

definition text_field :: "string \<Rightarrow> int \<Rightarrow> kind \<Rightarrow> field_desc" where
  "text_field n i k = FieldDesc n i (camelCase n) k 0 \<lparr>en_full_name = [], en_values = []\<rparr> False Singular"

definition message_field :: "string \<Rightarrow> int \<Rightarrow> desc_id \<Rightarrow> field_desc" where
  "message_field n i d = FieldDesc n i (camelCase n) MessageKind d \<lparr>en_full_name = [], en_values = []\<rparr> True Singular"

definition list_field :: "string \<Rightarrow> int \<Rightarrow> desc_id \<Rightarrow> field_desc" where
  "list_field n i d = FieldDesc n i (camelCase n) MessageKind d \<lparr>en_full_name = [], en_values = []\<rparr> False Repeated"

definition page_fields :: "field_desc list" where
  "page_fields = [text_field ''page_size'' 2 Uint32Kind, text_field ''page_token'' 3 StringKind]"

definition cross_messages :: "(string \<times> field_desc list) list" where
  "cross_messages =
     [(''Parent'', [text_field ''id'' 1 StringKind, text_field ''name'' 2 StringKind]),
      (''ListParentsRequest'', text_field ''parent'' 1 StringKind # page_fields),
      (''ListParentsResponse'', [list_field ''parents'' 1 0, text_field ''next_page_token'' 2 StringKind]),
      (''GetParentRequest'', [text_field ''id'' 1 StringKind]),
      (''CreateParentRequest'', [message_field ''parent'' 1 0]),
      (''UpdateParentRequest'', [message_field ''parent'' 1 0]),
      (''DeleteParentRequest'', [text_field ''id'' 1 StringKind]),
      (''Child'', [text_field ''id'' 1 StringKind]),
      (''ListChildrenRequest'', text_field ''parent'' 1 StringKind # page_fields),
      (''ListChildrenResponse'', [list_field ''children'' 1 7, text_field ''next_page_token'' 2 StringKind]),
      (''GetChildRequest'', [text_field ''id'' 1 StringKind]),
      (''CreateChildRequest'', [text_field ''parent'' 1 StringKind, message_field ''child'' 2 7]),
      (''UpdateChildRequest'', [message_field ''child'' 1 7]),
      (''DeleteChildRequest'', [text_field ''id'' 1 StringKind]),
      (''GetChildParentRequest'', [list_field ''bases'' 1 7]),
      (''GetChildParentResponse'', [list_field ''values'' 1 16]),
      (''GetChildParentResponse.ChildResult'', [message_field ''parent'' 1 0]),
      (''GetParentChildrenRequest'', list_field ''bases'' 1 0 # page_fields),
      (''GetParentChildrenResponse'', [list_field ''values'' 1 19]),
      (''GetParentChildrenResponse.ParentResult'', [message_field ''children'' 1 20]),
      (''ChildrenPage'', [list_field ''nodes'' 1 7, text_field ''next_page_token'' 2 StringKind])]"

definition cross_pool :: desc_pool where
  "cross_pool d =
     (if d < length cross_messages then
        \<lparr>md_full_name = cross_name (fst (cross_messages ! d)), md_name = fst (cross_messages ! d),
         md_fields = snd (cross_messages ! d)\<rparr>
      else \<lparr>md_full_name = ''google.protobuf.Empty'', md_name = ''Empty'', md_fields = []\<rparr>)"

definition cross_method :: "string \<Rightarrow> string \<Rightarrow> desc_id \<Rightarrow> desc_id \<Rightarrow> idempotency \<Rightarrow> string option \<Rightarrow> method_desc" where
  "cross_method svc name i out idem rel =
     \<lparr>mth_full_name = cross_name svc @ ''.'' @ name, mth_name = name, mth_parent = cross_name svc,
      mth_input = i, mth_output = out, mth_streaming_client = False, mth_streaming_server = False,
      mth_options_ok = True, mth_idempotency = idem, mth_relation = rel\<rparr>"

definition cross_service :: "string \<Rightarrow> method_desc list \<Rightarrow> service_desc" where
  "cross_service svc ms = \<lparr>sv_full_name = cross_name svc, sv_name = svc, sv_methods = ms,
     sv_parent_file = ''buf/knit/crosstest/test.proto''\<rparr>"

definition parent_service :: service_desc where
  "parent_service = cross_service ''ParentService''
     [cross_method ''ParentService'' ''ListParents'' 1 2 NoSideEffects None,
      cross_method ''ParentService'' ''GetParent'' 3 0 NoSideEffects None,
      cross_method ''ParentService'' ''CreateParent'' 4 0 IdempotencyUnknown None,
      cross_method ''ParentService'' ''UpdateParent'' 5 0 IdempotencyUnknown None,
      cross_method ''ParentService'' ''DeleteParent'' 6 21 IdempotencyUnknown None]"

definition child_service :: service_desc where
  "child_service = cross_service ''ChildService''
     [cross_method ''ChildService'' ''ListChildren'' 8 9 NoSideEffects None,
      cross_method ''ChildService'' ''GetChild'' 10 7 NoSideEffects None,
      cross_method ''ChildService'' ''CreateChild'' 11 7 IdempotencyUnknown None,
      cross_method ''ChildService'' ''UpdateChild'' 12 7 IdempotencyUnknown None,
      cross_method ''ChildService'' ''DeleteChild'' 13 21 IdempotencyUnknown None]"

definition relations_service :: service_desc where
  "relations_service = cross_service ''RelationsService''
     [cross_method ''RelationsService'' ''GetChildParent'' 14 15 NoSideEffects (Some ''parent''),
      cross_method ''RelationsService'' ''GetParentChildren'' 17 18 NoSideEffects (Some ''children'')]"

section \<open>The server\<close>

definition cross_registry :: "string \<Rightarrow> go_error + descriptor" where
  "cross_registry n =
     (case find (\<lambda>svc. sv_full_name svc = n) [parent_service, child_service, relations_service] of
        Some svc \<Rightarrow> Inr (ServiceDescriptor svc) | None \<Rightarrow> Inl (ExternalError ''not found''))"

definition cross_url :: url where
  "cross_url = \<lparr>url_scheme = ''http'', url_text = ''http://localhost/''\<rparr>"

definition cross_gateway :: gateway where
  "cross_gateway = \<lparr>gw_client = Some 1, gw_route = Some cross_url,
     gw_client_options = [], gw_type_resolver = None, gw_max_parallelism = 0,
     gw_methods = Map.empty, gw_relations = Map.empty\<rparr>"

fun add_named_services ::
    "protolib \<Rightarrow> network \<Rightarrow> (string \<times> string) list \<Rightarrow> gateway \<Rightarrow> gateway \<times> unit result" where
  "add_named_services lib net [] g = (g, Ok ())"
| "add_named_services lib net ((name, fatal) # rest) g =
     (case AddServiceByName lib net cross_pool cross_registry g name [] of
        (g1, Ok _) \<Rightarrow> add_named_services lib net rest g1
      | (g1, Err _) \<Rightarrow> (g1, Err (errors_New fatal))
      | (g1, Panic p) \<Rightarrow> (g1, Panic p))"

definition crosstest_gateway :: "protolib \<Rightarrow> network \<Rightarrow> gateway \<times> unit result" where
  "crosstest_gateway lib net = add_named_services lib net
     [(cross_name ''ParentService'', ''failed to add parent service to gateway''),
      (cross_name ''ChildService'', ''failed to add child service to gateway''),
      (cross_name ''RelationsService'', ''failed to add relations service to gateway'')] cross_gateway"

section \<open>The registrations succeed\<close>

text \<open>The generated code of the three services is linked in: every response type is found.\<close>

definition types_linked :: "protolib \<Rightarrow> bool" where
  "types_linked lib \<longleftrightarrow> (\<forall>d. \<exists>mt. pl_find_message lib (md_full_name (cross_pool d)) = Inr mt)"

abbreviation cross_opts :: svc_opts where
  "cross_opts \<equiv> \<lparr>so_base_url = Some cross_url, so_client = Some 1, so_opts = [OptCodec ProtoCodec], so_type_resolver = None\<rparr>"

abbreviation cross_add where
  "cross_add lib net \<equiv> add_method lib net cross_pool True cross_opts 1 cross_url"

abbreviation cross_adds where
  "cross_adds lib net \<equiv> add_methods lib net cross_pool True cross_opts 1 cross_url"

lemma cross_so:
  "gw_client g = Some 1 \<Longrightarrow> gw_route g = Some u \<Longrightarrow> gw_client_options g = [] \<Longrightarrow> gw_type_resolver g = None \<Longrightarrow>
     getSvcOpts g None [] = Ok \<lparr>so_base_url = Some u, so_client = Some 1, so_opts = [OptCodec ProtoCodec], so_type_resolver = None\<rparr>"
  by (simp add: getSvcOpts_def Let_def defaultCodec_def)

text \<open>A method is registered with its descriptor and a client of its endpoint.\<close>

definition cross_client :: "method_desc \<Rightarrow> connect_client" where
  "cross_client m = \<lparr>cc_http = 1, cc_url = endpointURL cross_url m, cc_opts = [OptCodec ProtoCodec]\<rparr>"

definition registered :: "(string \<rightharpoonup> method_config) \<Rightarrow> method_desc \<Rightarrow> bool" where
  "registered ms m \<longleftrightarrow> (\<exists>mc. ms (mth_full_name m) = Some mc \<and> mc_descriptor mc = m \<and> mc_client mc = cross_client m)"

definition adds :: "method_desc list \<Rightarrow> (string \<rightharpoonup> method_config) \<Rightarrow> (string \<rightharpoonup> method_config) \<Rightarrow> bool" where
  "adds ms old new \<longleftrightarrow> (\<forall>m \<in> set ms. registered new m) \<and> (\<forall>k. k \<notin> mth_full_name ` set ms \<longrightarrow> new k = old k)"

lemma adds_Nil [simp]: "adds [] old old"
  by (simp add: adds_def)

lemma registered_upd: "n \<noteq> mth_full_name m \<Longrightarrow> registered ms m \<Longrightarrow> registered (ms(n \<mapsto> mc)) m"
  by (simp add: registered_def)

lemma adds_Cons:
  assumes "registered mid m" "\<forall>k. k \<noteq> mth_full_name m \<longrightarrow> mid k = old k" "adds ms mid new"
    "mth_full_name m \<notin> mth_full_name ` set ms"
  shows "adds (m # ms) old new"
  using assms by (auto simp: adds_def registered_def)

lemma adds_append:
  assumes "adds xs old mid" "adds ys mid new" "mth_full_name ` set xs \<inter> mth_full_name ` set ys = {}"
  shows "adds (xs @ ys) old new"
  unfolding adds_def
proof (intro conjI ballI allI impI)
  fix m assume "m \<in> set (xs @ ys)"
  then consider "m \<in> set ys" | "m \<in> set xs" "mth_full_name m \<notin> mth_full_name ` set ys" using assms(3) by auto
  then show "registered new m"
    using assms(1,2) by cases (simp_all add: adds_def registered_def)
next
  fix k assume "k \<notin> mth_full_name ` set (xs @ ys)"
  with assms(1,2) show "new k = old k" by (simp add: adds_def image_Un)
qed

lemma adds_fresh: "adds ms old new \<Longrightarrow> k \<notin> mth_full_name ` set ms \<Longrightarrow> old k = None \<Longrightarrow> new k = None"
  by (simp add: adds_def)

lemma plain_method:
  assumes "types_linked lib" "gw_methods g (mth_full_name m) = None" "mth_relation m = None"
  shows "\<exists>mc. cross_add lib net g m = (register_method g (mth_full_name m) mc, Ok ())
    \<and> mc_descriptor mc = m \<and> mc_client mc = cross_client m"
proof -
  from assms(1) obtain mt where "pl_find_message lib (md_full_name (cross_pool (mth_output m))) = Inr mt"
    unfolding types_linked_def by blast
  with assms(2,3) show ?thesis by (auto simp: add_method_def Let_def of_sum_def cross_client_def)
qed

lemma cross_fields:
  "md_fields (cross_pool 0) = [text_field ''id'' 1 StringKind, text_field ''name'' 2 StringKind]"
  "md_fields (cross_pool 7) = [text_field ''id'' 1 StringKind]"
  "md_fields (cross_pool 14) = [list_field ''bases'' 1 7]"
  "md_fields (cross_pool 15) = [list_field ''values'' 1 16]"
  "md_fields (cross_pool 16) = [message_field ''parent'' 1 0]"
  "md_fields (cross_pool 17) = [list_field ''bases'' 1 0, text_field ''page_size'' 2 Uint32Kind, text_field ''page_token'' 3 StringKind]"
  "md_fields (cross_pool 18) = [list_field ''values'' 1 19]"
  "md_fields (cross_pool 19) = [message_field ''children'' 1 20]"
  "md_full_name (cross_pool 0) = ''buf.knit.crosstest.Parent''"
  "md_full_name (cross_pool 7) = ''buf.knit.crosstest.Child''"
  by (simp_all add: cross_pool_def cross_messages_def page_fields_def cross_name_def)

lemma cross_field_simps:
  "fd_name (list_field n i d) = n" "fd_number (list_field n i d) = i" "fd_kind (list_field n i d) = MessageKind"
  "fd_message (list_field n i d) = d" "fd_is_list (list_field n i d)" "\<not> fd_is_map (list_field n i d)"
  "fd_name (message_field n i d) = n" "fd_number (message_field n i d) = i" "fd_kind (message_field n i d) = MessageKind"
  "fd_message (message_field n i d) = d" "\<not> fd_is_list (message_field n i d)"
  "fd_name (text_field n i k) = n" "fd_number (text_field n i k) = i"
  by (simp_all add: list_field_def message_field_def text_field_def fd_is_list_def fd_is_map_def)

lemma relation_configs:
  "\<exists>cfg. getRelationConfig lib net cross_pool (cross_method svc n 14 15 NoSideEffects rel) ''parent'' client = Ok cfg
     \<and> rc_name cfg = ''parent'' \<and> fd_message (rc_base_field cfg) = 7 \<and> rc_method cfg = cross_method svc n 14 15 NoSideEffects rel"
  "\<exists>cfg. getRelationConfig lib net cross_pool (cross_method svc n 17 18 NoSideEffects rel) ''children'' client = Ok cfg
     \<and> rc_name cfg = ''children'' \<and> fd_message (rc_base_field cfg) = 0 \<and> rc_method cfg = cross_method svc n 17 18 NoSideEffects rel"
  by (simp_all add: getRelationConfig_def Let_def cross_fields cross_field_simps cross_method_def field_by_number_def)

lemma plain_methods:
  assumes "types_linked lib"
  shows "\<forall>m \<in> set ms. mth_relation m = None \<and> gw_methods g (mth_full_name m) = None \<Longrightarrow> distinct (map mth_full_name ms)
    \<Longrightarrow> \<exists>new. cross_adds lib net ms g = (g\<lparr>gw_methods := new\<rparr>, Ok ()) \<and> adds ms (gw_methods g) new"
proof (induction ms arbitrary: g)
  case Nil
  then show ?case by (intro exI [of _ "gw_methods g"]) simp
next
  case (Cons m ms)
  from Cons.prems(1) plain_method [OF assms, of g m] obtain mc where
    m: "cross_add lib net g m = (register_method g (mth_full_name m) mc, Ok ())"
      "mc_descriptor mc = m" "mc_client mc = cross_client m" by auto
  let ?g = "register_method g (mth_full_name m) mc"
  have "\<forall>m' \<in> set ms. mth_relation m' = None \<and> gw_methods ?g (mth_full_name m') = None"
    using Cons.prems by (auto simp: register_method_def image_iff)
  with Cons.IH [of ?g] Cons.prems(2) obtain new where
    new: "cross_adds lib net ms ?g = (?g\<lparr>gw_methods := new\<rparr>, Ok ())" "adds ms (gw_methods ?g) new"
    by auto
  have "adds (m # ms) (gw_methods g) new"
    using m(2,3) new(2) Cons.prems(2) by (intro adds_Cons [of "gw_methods ?g"]) (auto simp: register_method_def registered_def)
  with m(1) new(1) show ?case by (intro exI [of _ new]) (simp add: register_method_def)
qed

text \<open>A relation's resolver calls the same endpoint.\<close>

definition resolves_with :: "protolib \<Rightarrow> network \<Rightarrow> method_desc \<Rightarrow> string \<Rightarrow> relation_config \<Rightarrow> bool" where
  "resolves_with lib net m rel cfg \<longleftrightarrow> getRelationConfig lib net cross_pool m rel (cross_client m) = Ok cfg"

lemma relation_method:
  assumes "types_linked lib" "gw_methods g (mth_full_name m) = None" "mth_relation m = Some rel" "rel \<noteq> []"
    "\<And>client. \<exists>cfg. getRelationConfig lib net cross_pool m rel client = Ok cfg
       \<and> rc_name cfg = rel \<and> fd_message (rc_base_field cfg) = d \<and> rc_method cfg = m"
    "fieldWithCamelCaseName (md_fields (cross_pool d)) (camelCase rel) = None"
    "gw_relations g (md_full_name (cross_pool d)) = None"
  shows "\<exists>new cfg. cross_add lib net g m = (g\<lparr>gw_methods := new,
        gw_relations := (gw_relations g)(md_full_name (cross_pool d) \<mapsto> [camelCase rel \<mapsto> cfg])\<rparr>, Ok ())
    \<and> adds [m] (gw_methods g) new \<and> resolves_with lib net m rel cfg"
proof -
  from assms(1) obtain mt where mt: "pl_find_message lib (md_full_name (cross_pool (mth_output m))) = Inr mt"
    unfolding types_linked_def by blast
  let ?mc = "\<lparr>mc_descriptor = m, mc_response_type = mt, mc_client = cross_client m, mc_type_resolver = None\<rparr>"
  from assms(5) [of "cross_client m"] obtain cfg where cfg: "getRelationConfig lib net cross_pool m rel (cross_client m) = Ok cfg"
    "rc_name cfg = rel" "fd_message (rc_base_field cfg) = d" "rc_method cfg = m" by blast
  have "adds [m] (gw_methods g) ((gw_methods g)(mth_full_name m \<mapsto> ?mc))"
    by (simp add: adds_def registered_def)
  with assms(2-4,6,7) mt cfg show ?thesis
    by (intro exI [of _ "(gw_methods g)(mth_full_name m \<mapsto> ?mc)"] exI [of _ cfg])
      (simp add: add_method_def Let_def of_sum_def addRelation_def register_method_def resolves_with_def
        cross_client_def)
qed

text \<open>The server starts: all three services are registered, and with them the two relations.\<close>

lemma cross_services:
  "cross_registry (cross_name ''ParentService'') = Inr (ServiceDescriptor parent_service)"
  "cross_registry (cross_name ''ChildService'') = Inr (ServiceDescriptor child_service)"
  "cross_registry (cross_name ''RelationsService'') = Inr (ServiceDescriptor relations_service)"
  by (simp_all add: cross_registry_def parent_service_def child_service_def relations_service_def
      cross_service_def cross_name_def)

lemma cross_method_names:
  "distinct (map mth_full_name (sv_methods parent_service @ sv_methods child_service @ sv_methods relations_service))"
  by code_simp

lemma cross_no_fields:
  "camelCase ''parent'' = ''parent''" "camelCase ''children'' = ''children''"
  "fieldWithCamelCaseName (md_fields (cross_pool 7)) ''parent'' = None"
  "fieldWithCamelCaseName (md_fields (cross_pool 0)) ''children'' = None"
proof -
  have "snakeCase ''parent'' = ''parent''" "snakeCase ''children'' = ''children''" by code_simp+
  moreover show "camelCase ''parent'' = ''parent''" "camelCase ''children'' = ''children''"
    by (simp_all add: camelCase_id)
  moreover have "camelCase ''id'' = ''id''" "camelCase ''name'' = ''name''" by (simp_all add: camelCase_id)
  ultimately show "fieldWithCamelCaseName (md_fields (cross_pool 7)) ''parent'' = None"
    "fieldWithCamelCaseName (md_fields (cross_pool 0)) ''children'' = None"
    by (simp_all add: cross_fields cross_field_simps fieldWithCamelCaseName_def field_by_name_def)
qed

lemma AddServiceByName_methods:
  assumes "cross_registry name = Inr (ServiceDescriptor svc)"
  shows "AddServiceByName lib net cross_pool cross_registry (cross_gateway\<lparr>gw_methods := ms\<rparr>) name [] =
    cross_adds lib net (sv_methods svc) (cross_gateway\<lparr>gw_methods := ms\<rparr>)"
  by (simp add: AddServiceByName_def addService_def assms getSvcOpts_def Let_def defaultCodec_def cross_gateway_def)

abbreviation get_child_parent :: method_desc where
  "get_child_parent \<equiv> cross_method ''RelationsService'' ''GetChildParent'' 14 15 NoSideEffects (Some ''parent'')"

abbreviation get_parent_children :: method_desc where
  "get_parent_children \<equiv> cross_method ''RelationsService'' ''GetParentChildren'' 17 18 NoSideEffects (Some ''children'')"

lemma relations_register:
  assumes lib: "types_linked lib"
    and g: "gw_relations g = Map.empty" "gw_methods g (mth_full_name get_child_parent) = None"
      "gw_methods g (mth_full_name get_parent_children) = None"
  shows "\<exists>new cfg1 cfg2. cross_adds lib net (sv_methods relations_service) g = (g\<lparr>gw_methods := new,
        gw_relations := [''buf.knit.crosstest.Child'' \<mapsto> [''parent'' \<mapsto> cfg1], ''buf.knit.crosstest.Parent'' \<mapsto> [''children'' \<mapsto> cfg2]]\<rparr>, Ok ())
    \<and> adds (sv_methods relations_service) (gw_methods g) new
    \<and> resolves_with lib net get_child_parent ''parent'' cfg1 \<and> resolves_with lib net get_parent_children ''children'' cfg2"
proof -
  have rs: "sv_methods relations_service = [get_child_parent, get_parent_children]"
    by (simp add: relations_service_def cross_service_def)
  have rel: "mth_relation get_child_parent = Some ''parent''" "mth_relation get_parent_children = Some ''children''"
    by (simp_all add: cross_method_def)
  have names: "mth_full_name get_child_parent \<noteq> mth_full_name get_parent_children" by (simp add: cross_method_def)
  obtain m1 cfg1 where 1: "cross_add lib net g get_child_parent = (g\<lparr>gw_methods := m1,
        gw_relations := [''buf.knit.crosstest.Child'' \<mapsto> [''parent'' \<mapsto> cfg1]]\<rparr>, Ok ())"
      "adds [get_child_parent] (gw_methods g) m1" "resolves_with lib net get_child_parent ''parent'' cfg1"
    using relation_method [OF lib g(2) rel(1) _ relation_configs(1), where net = net] g(1)
    by (auto simp: cross_fields(9,10) cross_no_fields)
  let ?g = "g\<lparr>gw_methods := m1, gw_relations := [''buf.knit.crosstest.Child'' \<mapsto> [''parent'' \<mapsto> cfg1]]\<rparr>"
  have "gw_methods ?g (mth_full_name get_parent_children) = None"
    using adds_fresh [OF 1(2)] g(3) names by simp
  from relation_method [OF lib this rel(2) _ relation_configs(2), where net = net] obtain m2 cfg2 where
    2: "cross_add lib net ?g get_parent_children = (?g\<lparr>gw_methods := m2,
        gw_relations := [''buf.knit.crosstest.Child'' \<mapsto> [''parent'' \<mapsto> cfg1], ''buf.knit.crosstest.Parent'' \<mapsto> [''children'' \<mapsto> cfg2]]\<rparr>, Ok ())"
      "adds [get_parent_children] m1 m2" "resolves_with lib net get_parent_children ''children'' cfg2"
    by (auto simp: cross_fields(9,10) cross_no_fields)
  have "adds (sv_methods relations_service) (gw_methods g) m2"
    unfolding rs using adds_append [OF 1(2) 2(2)] names by simp
  with 1 2 rs show ?thesis by auto
qed

lemma crosstest_registers:
  assumes lib: "types_linked lib"
  shows "\<exists>g. crosstest_gateway lib net = (g, Ok ())
    \<and> (\<forall>m \<in> set (sv_methods parent_service @ sv_methods child_service @ sv_methods relations_service).
         registered (gw_methods g) m)
    \<and> (\<exists>cfg. lookup_relation g ''buf.knit.crosstest.Child'' ''parent'' = Some cfg
        \<and> resolves_with lib net get_child_parent ''parent'' cfg)
    \<and> (\<exists>cfg. lookup_relation g ''buf.knit.crosstest.Parent'' ''children'' = Some cfg
        \<and> resolves_with lib net get_parent_children ''children'' cfg)"
proof -
  let ?ps = "sv_methods parent_service" and ?cs = "sv_methods child_service" and ?rs = "sv_methods relations_service"
  let ?n = mth_full_name
  let ?g = "\<lambda>ms. cross_gateway\<lparr>gw_methods := ms\<rparr>"
  have rs: "set ?rs = {get_child_parent, get_parent_children}" by (simp add: relations_service_def cross_service_def)
  have dist: "distinct (map ?n ?ps)" "distinct (map ?n ?cs)" "?n ` set ?ps \<inter> ?n ` set ?cs = {}"
    "(?n ` set ?ps \<union> ?n ` set ?cs) \<inter> ?n ` set ?rs = {}"
    using cross_method_names by (auto simp: Int_Un_distrib2)
  have plain: "\<forall>m \<in> set ?ps. mth_relation m = None" "\<forall>m \<in> set ?cs. mth_relation m = None"
    by (simp_all add: parent_service_def child_service_def cross_service_def cross_method_def)
  have start: "cross_gateway = ?g Map.empty" by (simp add: cross_gateway_def)
  obtain m1 where p: "cross_adds lib net ?ps (?g Map.empty) = (?g m1, Ok ())" "adds ?ps Map.empty m1"
    using plain_methods [OF lib, of ?ps "?g Map.empty" net] plain(1) dist(1) by auto
  have "\<forall>m \<in> set ?cs. mth_relation m = None \<and> gw_methods (?g m1) (?n m) = None"
    using plain(2) dist(3) adds_fresh [OF p(2)] by fastforce
  with plain_methods [OF lib, of ?cs "?g m1" net] dist(2) obtain m2 where
    c: "cross_adds lib net ?cs (?g m1) = (?g m2, Ok ())" "adds ?cs m1 m2" by auto
  have pc: "adds (?ps @ ?cs) Map.empty m2" by (rule adds_append [OF p(2) c(2) dist(3)])
  have "gw_methods (?g m2) (?n get_child_parent) = None" "gw_methods (?g m2) (?n get_parent_children) = None"
    using adds_fresh [OF pc] dist(4) rs by (auto simp: image_Un)
  from relations_register [OF lib _ this, of net] obtain m3 cfg1 cfg2 where
    r: "cross_adds lib net ?rs (?g m2) = (?g m3\<lparr>gw_relations := [''buf.knit.crosstest.Child'' \<mapsto> [''parent'' \<mapsto> cfg1],
        ''buf.knit.crosstest.Parent'' \<mapsto> [''children'' \<mapsto> cfg2]]\<rparr>, Ok ())" "adds ?rs m2 m3"
      "resolves_with lib net get_child_parent ''parent'' cfg1" "resolves_with lib net get_parent_children ''children'' cfg2"
    by (auto simp: cross_gateway_def)
  have "adds ((?ps @ ?cs) @ ?rs) Map.empty m3"
    using adds_append [OF pc r(2)] dist(4) by (simp add: image_Un)
  moreover have "crosstest_gateway lib net = (?g m3\<lparr>gw_relations := [''buf.knit.crosstest.Child'' \<mapsto> [''parent'' \<mapsto> cfg1],
        ''buf.knit.crosstest.Parent'' \<mapsto> [''children'' \<mapsto> cfg2]]\<rparr>, Ok ())"
    using p(1) c(1) r(1) AddServiceByName_methods [OF cross_services(1), of lib net Map.empty]
    by (simp add: crosstest_gateway_def start [symmetric] AddServiceByName_methods [OF cross_services(2)]
        AddServiceByName_methods [OF cross_services(3)])
  ultimately show ?thesis
    using r(3,4) by (simp add: lookup_relation_def adds_def)
qed

end
