(* ===== verification/Connect_Stubs.thy ===== *)
theory Connect_Stubs
  imports Knit_Gateway
begin

text \<open>
  What the Connect stubs that \<^verbatim>\<open>protoc-gen-connect-go\<close> generates (\<^verbatim>\<open>internal/gen\<close>) have in common: the
  arguments of Connect's \<^verbatim>\<open>NewClient\<close>, \<^verbatim>\<open>NewUnaryHandler\<close> and \<^verbatim>\<open>NewServerStreamHandler\<close>, which are
  all that these keep, and what it means that a client's call is routed to a handler. The
  interface of a service is a record of its methods; in Go a client and a handler have the same
  unary methods, so one record serves for both.
\<close>

section \<open>Connect's clients and handlers\<close>

text \<open>What a generated client passes to \<^verbatim>\<open>NewClient\<close>, and a generated handler to \<^verbatim>\<open>NewUnaryHandler\<close>.\<close>

record stub_client =
  cl_client :: connect_client
  cl_schema :: "method_desc option"
  cl_idempotency :: idempotency

record 'f stub_handler =
  uh_procedure :: string
  uh_impl :: 'f
  uh_schema :: "method_desc option"
  uh_idempotency :: idempotency

definition NewClient :: "nat \<Rightarrow> string \<Rightarrow> method_desc option \<Rightarrow> idempotency \<Rightarrow> client_option list \<Rightarrow> stub_client" where
  "NewClient http url schema idem opts =
     \<lparr>cl_client = \<lparr>cc_http = http, cc_url = url, cc_opts = opts\<rparr>, cl_schema = schema, cl_idempotency = idem\<rparr>"

definition NewUnaryHandler :: "string \<Rightarrow> 'f \<Rightarrow> method_desc option \<Rightarrow> idempotency \<Rightarrow> 'f stub_handler" where
  "NewUnaryHandler procedure impl schema idem =
     \<lparr>uh_procedure = procedure, uh_impl = impl, uh_schema = schema, uh_idempotency = idem\<rparr>"

definition NewServerStreamHandler :: "string \<Rightarrow> 'f \<Rightarrow> method_desc option \<Rightarrow> idempotency \<Rightarrow> 'f stub_handler" where
  "NewServerStreamHandler procedure impl schema idem =
     \<lparr>uh_procedure = procedure, uh_impl = impl, uh_schema = schema, uh_idempotency = idem\<rparr>"

text \<open>\<^verbatim>\<open>Methods().ByName\<close> of a service descriptor, \<^verbatim>\<open>strings.TrimRight\<close>.\<close>

definition method_by_name :: "service_desc \<Rightarrow> string \<Rightarrow> method_desc option" where
  "method_by_name svc n = find (\<lambda>m. mth_name m = n) (sv_methods svc)"

definition trim_right :: "char \<Rightarrow> string \<Rightarrow> string" where
  "trim_right c s = rev (trim_left c (rev s))"

text \<open>The error of a method that is not implemented.\<close>

definition unimplemented :: "string \<Rightarrow> go_error" where
  "unimplemented n = new_connect_error CodeUnimplemented (errors_New (n @ '' is not implemented''))"

named_theorems procedure_defs
named_theorems descriptor_defs

section \<open>A client's call is routed\<close>

text \<open>
  A call over HTTP, as far as the stubs decide it: the path of the client's URL behind the
  server's address picks a handler, which must agree with the client on the method's
  descriptor and idempotency.
\<close>

definition call_route :: "string \<Rightarrow> string \<times> (string \<Rightarrow> 'f stub_handler option) \<Rightarrow> 'f \<Rightarrow> stub_client \<Rightarrow> 'f" where
  "call_route base handler unrouted c =
     (let url = cc_url (cl_client c); path = drop (length (trim_right (CHR ''/'') base)) url
      in if has_prefix url (trim_right (CHR ''/'') base) \<and> has_prefix path (fst handler) then
           (case snd handler path of
              Some h \<Rightarrow> if uh_schema h = cl_schema c \<and> uh_idempotency h = cl_idempotency c then uh_impl h else unrouted
            | None \<Rightarrow> unrouted)
         else unrouted)"

lemma call_route_client:
  "call_route base handler unrouted (NewClient http (trim_right (CHR ''/'') base @ path) schema idem opts) =
     (if has_prefix path (fst handler) then
        (case snd handler path of
           Some h \<Rightarrow> if uh_schema h = schema \<and> uh_idempotency h = idem then uh_impl h else unrouted
         | None \<Rightarrow> unrouted)
      else unrouted)"
  by (simp add: call_route_def NewClient_def has_prefix_def Let_def split: option.split)

end
