(* ===== verification/Cross_Stubs.thy ===== *)
theory Cross_Stubs
  imports Cross_Server Connect_Stubs
begin

text \<open>
  The Connect stubs of \<^verbatim>\<open>test.proto\<close> (\<^verbatim>\<open>crosstestconnect/test.connect.go\<close>), as
  \<^verbatim>\<open>protoc-gen-connect-go\<close> generated them: the procedures, the clients, the HTTP handlers that route
  a path to a method of a service, and the handlers that implement nothing.
\<close>

section \<open>Names, procedures and method descriptors\<close>

definition ParentServiceName :: string where
  "ParentServiceName = ''buf.knit.crosstest.ParentService''"

definition ChildServiceName :: string where
  "ChildServiceName = ''buf.knit.crosstest.ChildService''"

definition RelationsServiceName :: string where
  "RelationsServiceName = ''buf.knit.crosstest.RelationsService''"

definition ParentServiceListParentsProcedure :: string where [procedure_defs]:
  "ParentServiceListParentsProcedure = ''/buf.knit.crosstest.ParentService/ListParents''"

definition ParentServiceGetParentProcedure :: string where [procedure_defs]:
  "ParentServiceGetParentProcedure = ''/buf.knit.crosstest.ParentService/GetParent''"

definition ParentServiceCreateParentProcedure :: string where [procedure_defs]:
  "ParentServiceCreateParentProcedure = ''/buf.knit.crosstest.ParentService/CreateParent''"

definition ParentServiceUpdateParentProcedure :: string where [procedure_defs]:
  "ParentServiceUpdateParentProcedure = ''/buf.knit.crosstest.ParentService/UpdateParent''"

definition ParentServiceDeleteParentProcedure :: string where [procedure_defs]:
  "ParentServiceDeleteParentProcedure = ''/buf.knit.crosstest.ParentService/DeleteParent''"

definition ChildServiceListChildrenProcedure :: string where [procedure_defs]:
  "ChildServiceListChildrenProcedure = ''/buf.knit.crosstest.ChildService/ListChildren''"

definition ChildServiceGetChildProcedure :: string where [procedure_defs]:
  "ChildServiceGetChildProcedure = ''/buf.knit.crosstest.ChildService/GetChild''"

definition ChildServiceCreateChildProcedure :: string where [procedure_defs]:
  "ChildServiceCreateChildProcedure = ''/buf.knit.crosstest.ChildService/CreateChild''"

definition ChildServiceUpdateChildProcedure :: string where [procedure_defs]:
  "ChildServiceUpdateChildProcedure = ''/buf.knit.crosstest.ChildService/UpdateChild''"

definition ChildServiceDeleteChildProcedure :: string where [procedure_defs]:
  "ChildServiceDeleteChildProcedure = ''/buf.knit.crosstest.ChildService/DeleteChild''"

definition RelationsServiceGetChildParentProcedure :: string where [procedure_defs]:
  "RelationsServiceGetChildParentProcedure = ''/buf.knit.crosstest.RelationsService/GetChildParent''"

definition RelationsServiceGetParentChildrenProcedure :: string where [procedure_defs]:
  "RelationsServiceGetParentChildrenProcedure = ''/buf.knit.crosstest.RelationsService/GetParentChildren''"

definition parentServiceListParentsMethodDescriptor :: "method_desc option" where [descriptor_defs]:
  "parentServiceListParentsMethodDescriptor = method_by_name parent_service ''ListParents''"

definition parentServiceGetParentMethodDescriptor :: "method_desc option" where [descriptor_defs]:
  "parentServiceGetParentMethodDescriptor = method_by_name parent_service ''GetParent''"

definition parentServiceCreateParentMethodDescriptor :: "method_desc option" where [descriptor_defs]:
  "parentServiceCreateParentMethodDescriptor = method_by_name parent_service ''CreateParent''"

definition parentServiceUpdateParentMethodDescriptor :: "method_desc option" where [descriptor_defs]:
  "parentServiceUpdateParentMethodDescriptor = method_by_name parent_service ''UpdateParent''"

definition parentServiceDeleteParentMethodDescriptor :: "method_desc option" where [descriptor_defs]:
  "parentServiceDeleteParentMethodDescriptor = method_by_name parent_service ''DeleteParent''"

definition childServiceListChildrenMethodDescriptor :: "method_desc option" where [descriptor_defs]:
  "childServiceListChildrenMethodDescriptor = method_by_name child_service ''ListChildren''"

definition childServiceGetChildMethodDescriptor :: "method_desc option" where [descriptor_defs]:
  "childServiceGetChildMethodDescriptor = method_by_name child_service ''GetChild''"

definition childServiceCreateChildMethodDescriptor :: "method_desc option" where [descriptor_defs]:
  "childServiceCreateChildMethodDescriptor = method_by_name child_service ''CreateChild''"

definition childServiceUpdateChildMethodDescriptor :: "method_desc option" where [descriptor_defs]:
  "childServiceUpdateChildMethodDescriptor = method_by_name child_service ''UpdateChild''"

definition childServiceDeleteChildMethodDescriptor :: "method_desc option" where [descriptor_defs]:
  "childServiceDeleteChildMethodDescriptor = method_by_name child_service ''DeleteChild''"

definition relationsServiceGetChildParentMethodDescriptor :: "method_desc option" where [descriptor_defs]:
  "relationsServiceGetChildParentMethodDescriptor = method_by_name relations_service ''GetChildParent''"

definition relationsServiceGetParentChildrenMethodDescriptor :: "method_desc option" where [descriptor_defs]:
  "relationsServiceGetParentChildrenMethodDescriptor = method_by_name relations_service ''GetParentChildren''"

section \<open>ParentService\<close>

record 'f ParentService =
  sp_ListParents :: 'f
  sp_GetParent :: 'f
  sp_CreateParent :: 'f
  sp_UpdateParent :: 'f
  sp_DeleteParent :: 'f

record parentServiceClient =
  spc_ListParents :: stub_client
  spc_GetParent :: stub_client
  spc_CreateParent :: stub_client
  spc_UpdateParent :: stub_client
  spc_DeleteParent :: stub_client

definition NewParentServiceClient :: "nat \<Rightarrow> string \<Rightarrow> client_option list \<Rightarrow> parentServiceClient" where
  "NewParentServiceClient http_client base_url opts =
     (let base = trim_right (CHR ''/'') base_url
      in \<lparr>spc_ListParents = NewClient http_client (base @ ParentServiceListParentsProcedure)
            parentServiceListParentsMethodDescriptor NoSideEffects opts,
          spc_GetParent = NewClient http_client (base @ ParentServiceGetParentProcedure)
            parentServiceGetParentMethodDescriptor NoSideEffects opts,
          spc_CreateParent = NewClient http_client (base @ ParentServiceCreateParentProcedure)
            parentServiceCreateParentMethodDescriptor IdempotencyUnknown opts,
          spc_UpdateParent = NewClient http_client (base @ ParentServiceUpdateParentProcedure)
            parentServiceUpdateParentMethodDescriptor IdempotencyUnknown opts,
          spc_DeleteParent = NewClient http_client (base @ ParentServiceDeleteParentProcedure)
            parentServiceDeleteParentMethodDescriptor IdempotencyUnknown opts\<rparr>)"

text \<open>The client's methods: each calls its \<^verbatim>\<open>connect.Client\<close>.\<close>

definition parentService_methods :: "(stub_client \<Rightarrow> 'f) \<Rightarrow> parentServiceClient \<Rightarrow> 'f ParentService" where
  "parentService_methods CallUnary c =
     \<lparr>sp_ListParents = CallUnary (spc_ListParents c),
      sp_GetParent = CallUnary (spc_GetParent c),
      sp_CreateParent = CallUnary (spc_CreateParent c),
      sp_UpdateParent = CallUnary (spc_UpdateParent c),
      sp_DeleteParent = CallUnary (spc_DeleteParent c)\<rparr>"

definition NewParentServiceHandler :: "'f ParentService \<Rightarrow> string \<times> (string \<Rightarrow> 'f stub_handler option)" where
  "NewParentServiceHandler svc =
     (''/buf.knit.crosstest.ParentService/'',
      \<lambda>path. if path = ParentServiceListParentsProcedure then
          Some (NewUnaryHandler ParentServiceListParentsProcedure (sp_ListParents svc)
            parentServiceListParentsMethodDescriptor NoSideEffects)
        else if path = ParentServiceGetParentProcedure then
          Some (NewUnaryHandler ParentServiceGetParentProcedure (sp_GetParent svc)
            parentServiceGetParentMethodDescriptor NoSideEffects)
        else if path = ParentServiceCreateParentProcedure then
          Some (NewUnaryHandler ParentServiceCreateParentProcedure (sp_CreateParent svc)
            parentServiceCreateParentMethodDescriptor IdempotencyUnknown)
        else if path = ParentServiceUpdateParentProcedure then
          Some (NewUnaryHandler ParentServiceUpdateParentProcedure (sp_UpdateParent svc)
            parentServiceUpdateParentMethodDescriptor IdempotencyUnknown)
        else if path = ParentServiceDeleteParentProcedure then
          Some (NewUnaryHandler ParentServiceDeleteParentProcedure (sp_DeleteParent svc)
            parentServiceDeleteParentMethodDescriptor IdempotencyUnknown)
        else None)"

definition UnimplementedParentServiceHandler :: "('q \<Rightarrow> 's \<Rightarrow> 'r result \<times> 's) ParentService" where
  "UnimplementedParentServiceHandler =
     \<lparr>sp_ListParents = (\<lambda>req s. (Err (unimplemented ''buf.knit.crosstest.ParentService.ListParents''), s)),
      sp_GetParent = (\<lambda>req s. (Err (unimplemented ''buf.knit.crosstest.ParentService.GetParent''), s)),
      sp_CreateParent = (\<lambda>req s. (Err (unimplemented ''buf.knit.crosstest.ParentService.CreateParent''), s)),
      sp_UpdateParent = (\<lambda>req s. (Err (unimplemented ''buf.knit.crosstest.ParentService.UpdateParent''), s)),
      sp_DeleteParent = (\<lambda>req s. (Err (unimplemented ''buf.knit.crosstest.ParentService.DeleteParent''), s))\<rparr>"

section \<open>ChildService\<close>

record 'f ChildService =
  sc_ListChildren :: 'f
  sc_GetChild :: 'f
  sc_CreateChild :: 'f
  sc_UpdateChild :: 'f
  sc_DeleteChild :: 'f

record childServiceClient =
  scc_ListChildren :: stub_client
  scc_GetChild :: stub_client
  scc_CreateChild :: stub_client
  scc_UpdateChild :: stub_client
  scc_DeleteChild :: stub_client

definition NewChildServiceClient :: "nat \<Rightarrow> string \<Rightarrow> client_option list \<Rightarrow> childServiceClient" where
  "NewChildServiceClient http_client base_url opts =
     (let base = trim_right (CHR ''/'') base_url
      in \<lparr>scc_ListChildren = NewClient http_client (base @ ChildServiceListChildrenProcedure)
            childServiceListChildrenMethodDescriptor NoSideEffects opts,
          scc_GetChild = NewClient http_client (base @ ChildServiceGetChildProcedure)
            childServiceGetChildMethodDescriptor NoSideEffects opts,
          scc_CreateChild = NewClient http_client (base @ ChildServiceCreateChildProcedure)
            childServiceCreateChildMethodDescriptor IdempotencyUnknown opts,
          scc_UpdateChild = NewClient http_client (base @ ChildServiceUpdateChildProcedure)
            childServiceUpdateChildMethodDescriptor IdempotencyUnknown opts,
          scc_DeleteChild = NewClient http_client (base @ ChildServiceDeleteChildProcedure)
            childServiceDeleteChildMethodDescriptor IdempotencyUnknown opts\<rparr>)"

text \<open>The client's methods: each calls its \<^verbatim>\<open>connect.Client\<close>.\<close>

definition childService_methods :: "(stub_client \<Rightarrow> 'f) \<Rightarrow> childServiceClient \<Rightarrow> 'f ChildService" where
  "childService_methods CallUnary c =
     \<lparr>sc_ListChildren = CallUnary (scc_ListChildren c),
      sc_GetChild = CallUnary (scc_GetChild c),
      sc_CreateChild = CallUnary (scc_CreateChild c),
      sc_UpdateChild = CallUnary (scc_UpdateChild c),
      sc_DeleteChild = CallUnary (scc_DeleteChild c)\<rparr>"

definition NewChildServiceHandler :: "'f ChildService \<Rightarrow> string \<times> (string \<Rightarrow> 'f stub_handler option)" where
  "NewChildServiceHandler svc =
     (''/buf.knit.crosstest.ChildService/'',
      \<lambda>path. if path = ChildServiceListChildrenProcedure then
          Some (NewUnaryHandler ChildServiceListChildrenProcedure (sc_ListChildren svc)
            childServiceListChildrenMethodDescriptor NoSideEffects)
        else if path = ChildServiceGetChildProcedure then
          Some (NewUnaryHandler ChildServiceGetChildProcedure (sc_GetChild svc)
            childServiceGetChildMethodDescriptor NoSideEffects)
        else if path = ChildServiceCreateChildProcedure then
          Some (NewUnaryHandler ChildServiceCreateChildProcedure (sc_CreateChild svc)
            childServiceCreateChildMethodDescriptor IdempotencyUnknown)
        else if path = ChildServiceUpdateChildProcedure then
          Some (NewUnaryHandler ChildServiceUpdateChildProcedure (sc_UpdateChild svc)
            childServiceUpdateChildMethodDescriptor IdempotencyUnknown)
        else if path = ChildServiceDeleteChildProcedure then
          Some (NewUnaryHandler ChildServiceDeleteChildProcedure (sc_DeleteChild svc)
            childServiceDeleteChildMethodDescriptor IdempotencyUnknown)
        else None)"

definition UnimplementedChildServiceHandler :: "('q \<Rightarrow> 's \<Rightarrow> 'r result \<times> 's) ChildService" where
  "UnimplementedChildServiceHandler =
     \<lparr>sc_ListChildren = (\<lambda>req s. (Err (unimplemented ''buf.knit.crosstest.ChildService.ListChildren''), s)),
      sc_GetChild = (\<lambda>req s. (Err (unimplemented ''buf.knit.crosstest.ChildService.GetChild''), s)),
      sc_CreateChild = (\<lambda>req s. (Err (unimplemented ''buf.knit.crosstest.ChildService.CreateChild''), s)),
      sc_UpdateChild = (\<lambda>req s. (Err (unimplemented ''buf.knit.crosstest.ChildService.UpdateChild''), s)),
      sc_DeleteChild = (\<lambda>req s. (Err (unimplemented ''buf.knit.crosstest.ChildService.DeleteChild''), s))\<rparr>"

section \<open>RelationsService\<close>

record 'f RelationsService =
  sr_GetChildParent :: 'f
  sr_GetParentChildren :: 'f

record relationsServiceClient =
  src_GetChildParent :: stub_client
  src_GetParentChildren :: stub_client

definition NewRelationsServiceClient :: "nat \<Rightarrow> string \<Rightarrow> client_option list \<Rightarrow> relationsServiceClient" where
  "NewRelationsServiceClient http_client base_url opts =
     (let base = trim_right (CHR ''/'') base_url
      in \<lparr>src_GetChildParent = NewClient http_client (base @ RelationsServiceGetChildParentProcedure)
            relationsServiceGetChildParentMethodDescriptor NoSideEffects opts,
          src_GetParentChildren = NewClient http_client (base @ RelationsServiceGetParentChildrenProcedure)
            relationsServiceGetParentChildrenMethodDescriptor NoSideEffects opts\<rparr>)"

text \<open>The client's methods: each calls its \<^verbatim>\<open>connect.Client\<close>.\<close>

definition relationsService_methods :: "(stub_client \<Rightarrow> 'f) \<Rightarrow> relationsServiceClient \<Rightarrow> 'f RelationsService" where
  "relationsService_methods CallUnary c =
     \<lparr>sr_GetChildParent = CallUnary (src_GetChildParent c),
      sr_GetParentChildren = CallUnary (src_GetParentChildren c)\<rparr>"

definition NewRelationsServiceHandler :: "'f RelationsService \<Rightarrow> string \<times> (string \<Rightarrow> 'f stub_handler option)" where
  "NewRelationsServiceHandler svc =
     (''/buf.knit.crosstest.RelationsService/'',
      \<lambda>path. if path = RelationsServiceGetChildParentProcedure then
          Some (NewUnaryHandler RelationsServiceGetChildParentProcedure (sr_GetChildParent svc)
            relationsServiceGetChildParentMethodDescriptor NoSideEffects)
        else if path = RelationsServiceGetParentChildrenProcedure then
          Some (NewUnaryHandler RelationsServiceGetParentChildrenProcedure (sr_GetParentChildren svc)
            relationsServiceGetParentChildrenMethodDescriptor NoSideEffects)
        else None)"

definition UnimplementedRelationsServiceHandler :: "('q \<Rightarrow> 's \<Rightarrow> 'r result \<times> 's) RelationsService" where
  "UnimplementedRelationsServiceHandler =
     \<lparr>sr_GetChildParent = (\<lambda>req s. (Err (unimplemented ''buf.knit.crosstest.RelationsService.GetChildParent''), s)),
      sr_GetParentChildren = (\<lambda>req s. (Err (unimplemented ''buf.knit.crosstest.RelationsService.GetParentChildren''), s))\<rparr>"


section \<open>A client reaches the handler's method\<close>

lemma stubs_compose:
  "parentService_methods (call_route base (NewParentServiceHandler ps) nf) (NewParentServiceClient http base opts) = ps"
  "childService_methods (call_route base (NewChildServiceHandler cs) nf) (NewChildServiceClient http base opts) = cs"
  "relationsService_methods (call_route base (NewRelationsServiceHandler rs) nf) (NewRelationsServiceClient http base opts) = rs"
  by (simp_all add: parentService_methods_def childService_methods_def relationsService_methods_def
      NewParentServiceClient_def NewChildServiceClient_def NewRelationsServiceClient_def
      NewParentServiceHandler_def NewChildServiceHandler_def NewRelationsServiceHandler_def
      call_route_client NewUnaryHandler_def procedure_defs has_prefix_def Let_def)

section \<open>The gateway reaches the same methods\<close>

text \<open>The path that Connect derives from a method's descriptor.\<close>

definition procedure_of :: "method_desc \<Rightarrow> string" where
  "procedure_of m = ''/'' @ mth_parent m @ ''/'' @ mth_name m"

lemma service_methods:
  "sv_methods parent_service = map the [parentServiceListParentsMethodDescriptor, parentServiceGetParentMethodDescriptor,
     parentServiceCreateParentMethodDescriptor, parentServiceUpdateParentMethodDescriptor, parentServiceDeleteParentMethodDescriptor]"
  "sv_methods child_service = map the [childServiceListChildrenMethodDescriptor, childServiceGetChildMethodDescriptor,
     childServiceCreateChildMethodDescriptor, childServiceUpdateChildMethodDescriptor, childServiceDeleteChildMethodDescriptor]"
  "sv_methods relations_service = map the [relationsServiceGetChildParentMethodDescriptor,
     relationsServiceGetParentChildrenMethodDescriptor]"
  by (simp_all add: descriptor_defs method_by_name_def parent_service_def child_service_def relations_service_def
      cross_service_def cross_method_def)

text \<open>A handler of a service has exactly one route for each of its methods.\<close>

definition routes_exactly :: "service_desc \<Rightarrow> (string \<Rightarrow> 'f stub_handler option) \<Rightarrow> bool" where
  "routes_exactly svc route \<longleftrightarrow>
     (\<forall>m \<in> set (sv_methods svc). \<exists>h. route (procedure_of m) = Some h \<and> uh_procedure h = procedure_of m
        \<and> uh_schema h = Some m \<and> uh_idempotency h = mth_idempotency m)
     \<and> (\<forall>path. route path \<noteq> None \<longrightarrow> path \<in> procedure_of ` set (sv_methods svc))"

lemma stubs_route_exactly:
  "routes_exactly parent_service (snd (NewParentServiceHandler ps))"
  "routes_exactly child_service (snd (NewChildServiceHandler cs))"
  "routes_exactly relations_service (snd (NewRelationsServiceHandler rs))"
  by (simp_all add: routes_exactly_def parent_service_def child_service_def relations_service_def cross_service_def
      cross_method_def cross_name_def procedure_of_def procedure_defs descriptor_defs method_by_name_def
      NewParentServiceHandler_def NewChildServiceHandler_def NewRelationsServiceHandler_def NewUnaryHandler_def)

lemma endpointURL_procedure:
  "\<not> has_suffix b ''/'' \<Longrightarrow> endpointURL \<lparr>url_scheme = sch, url_text = b\<rparr> m = b @ procedure_of m"
  "endpointURL \<lparr>url_scheme = sch, url_text = b @ ''/''\<rparr> m = b @ procedure_of m"
  by (simp_all add: endpointURL_def procedure_of_def has_suffix_def Let_def)

end
