(* ===== verification/Cross_Wire.thy ===== *)
theory Cross_Wire
  imports Cross_Stubs
begin

text \<open>
  The test server as the backend of its own gateway. \<^verbatim>\<open>main\<close> mounts the three services and the
  gateway on one mux, and the gateway's HTTP client hands every request to that mux
  (\<^verbatim>\<open>handlerTripper\<close>). So the network of the gateway is a function of the RPCs that were sent
  before: the services' state after them answers the next one. The requests arrive one at a time
  here; handlers that interleave are in \<^verbatim>\<open>Cross_Services\<close>.
\<close>

section \<open>Messages\<close>

text \<open>
  The getters of the generated Go structs, and the structs as messages: proto3 fields without
  presence are populated when they are not empty.
\<close>

definition get_text :: "pmsg \<Rightarrow> int \<Rightarrow> string" where
  "get_text m n = (case map_of (pm_fields m) n of Some (PString s) \<Rightarrow> s | _ \<Rightarrow> [])"

definition get_message :: "pmsg \<Rightarrow> int \<Rightarrow> pmsg option" where
  "get_message m n = (case map_of (pm_fields m) n of Some (PMsg x) \<Rightarrow> Some x | _ \<Rightarrow> None)"

fun element_messages :: "pval list \<Rightarrow> pmsg list" where
  "element_messages [] = []"
| "element_messages (PMsg m # vs) = m # element_messages vs"
| "element_messages (v # vs) = element_messages vs"

definition get_messages :: "pmsg \<Rightarrow> int \<Rightarrow> pmsg list" where
  "get_messages m n = (case map_of (pm_fields m) n of Some (PList vs) \<Rightarrow> element_messages vs | _ \<Rightarrow> [])"

definition text_entry :: "int \<Rightarrow> string \<Rightarrow> (int \<times> pval) list" where
  "text_entry n s = (if s = [] then [] else [(n, PString s)])"

definition list_entry :: "int \<Rightarrow> pmsg list \<Rightarrow> (int \<times> pval) list" where
  "list_entry n ms = (if ms = [] then [] else [(n, PList (map PMsg ms))])"

definition generated :: "desc_id \<Rightarrow> (int \<times> pval) list \<Rightarrow> pmsg" where
  "generated d fs = ProtoMsg d fs GeneratedType"

definition msg_of_parent :: "parent \<Rightarrow> pmsg" where
  "msg_of_parent p = generated 0 (text_entry 1 (pa_id p) @ text_entry 2 (pa_name p))"

definition parent_of_msg :: "pmsg \<Rightarrow> parent" where
  "parent_of_msg m = \<lparr>pa_id = get_text m 1, pa_name = get_text m 2\<rparr>"

definition msg_of_child :: "child \<Rightarrow> pmsg" where
  "msg_of_child c = generated 7 (text_entry 1 (ch_id c))"

definition child_of_msg :: "pmsg \<Rightarrow> child" where
  "child_of_msg m = \<lparr>ch_id = get_text m 1\<rparr>"

definition empty_msg :: pmsg where
  "empty_msg = generated 21 []"

text \<open>\<^verbatim>\<open>ChildrenPage\<close>, and the results of the two relations.\<close>

definition children_page :: "child list \<Rightarrow> pmsg" where
  "children_page cs = generated 20 (list_entry 1 (map msg_of_child cs))"

definition parent_results :: "parent list \<Rightarrow> pmsg" where
  "parent_results ps = generated 15 (list_entry 1 (map (\<lambda>p. generated 16 [(1, PMsg (msg_of_parent p))]) ps))"

definition children_results :: "child list list \<Rightarrow> pmsg" where
  "children_results css = generated 18 (list_entry 1 (map (\<lambda>cs. generated 19 [(1, PMsg (children_page cs))]) css))"

text \<open>The same message with another Go type, as unmarshalling makes it of the bytes.\<close>

primrec retype :: "go_type \<Rightarrow> pmsg \<Rightarrow> pmsg" and retype_value :: "go_type \<Rightarrow> pval \<Rightarrow> pval" where
  "retype t (ProtoMsg d fs u) = ProtoMsg d (map (map_prod id (retype_value t)) fs) t"
| "retype_value t (PBool b) = PBool b"
| "retype_value t (PInt32 a) = PInt32 a"
| "retype_value t (PInt64 b) = PInt64 b"
| "retype_value t (PUint32 a) = PUint32 a"
| "retype_value t (PUint64 b) = PUint64 b"
| "retype_value t (PFloat f) = PFloat f"
| "retype_value t (PString s) = PString s"
| "retype_value t (PBytes bs) = PBytes bs"
| "retype_value t (PEnum i) = PEnum i"
| "retype_value t (PMsg m) = PMsg (retype t m)"
| "retype_value t (PList vs) = PList (map (retype_value t) vs)"
| "retype_value t (PMap kvs) = PMap (map (map_prod id (retype_value t)) kvs)"

section \<open>The services behind their stubs\<close>

record server_state =
  ss_parents :: "parent resource_store"
  ss_children :: "child resource_store"

type_synonym method_impl = "pmsg \<Rightarrow> server_state \<Rightarrow> pmsg result \<times> server_state"

definition on_parents :: "('a \<Rightarrow> pmsg) \<Rightarrow> 'a result \<times> parent resource_store \<Rightarrow> server_state \<Rightarrow> pmsg result \<times> server_state" where
  "on_parents f r s = (obind (fst r) (\<lambda>x. Ok (f x)), s\<lparr>ss_parents := snd r\<rparr>)"

definition on_children :: "('a \<Rightarrow> pmsg) \<Rightarrow> 'a result \<times> child resource_store \<Rightarrow> server_state \<Rightarrow> pmsg result \<times> server_state" where
  "on_children f r s = (obind (fst r) (\<lambda>x. Ok (f x)), s\<lparr>ss_children := snd r\<rparr>)"

definition parent_service_impl :: "(parent list \<Rightarrow> parent list) \<Rightarrow> method_impl ParentService" where
  "parent_service_impl order =
     \<lparr>sp_ListParents = (\<lambda>req s. (Ok (generated 2 (list_entry 1 (map msg_of_parent (ListParents order (ss_parents s))))), s)),
      sp_GetParent = (\<lambda>req s. on_parents msg_of_parent (GetParent (ss_parents s) (get_text req 1), ss_parents s) s),
      sp_CreateParent = (\<lambda>req s. on_parents msg_of_parent
         (CreateParent (map_option parent_of_msg (get_message req 1)) (ss_parents s)) s),
      sp_UpdateParent = (\<lambda>req s. on_parents msg_of_parent
         (UpdateParent (map_option parent_of_msg (get_message req 1)) (ss_parents s)) s),
      sp_DeleteParent = (\<lambda>req s. (Ok empty_msg, s\<lparr>ss_parents := DeleteParent (get_text req 1) (ss_parents s)\<rparr>))\<rparr>"

definition child_service_impl :: "(child list \<Rightarrow> child list) \<Rightarrow> method_impl ChildService" where
  "child_service_impl order =
     \<lparr>sc_ListChildren = (\<lambda>req s. (Ok (generated 9 (list_entry 1
         (map msg_of_child (ListChildren order (ss_children s) (get_text req 1))))), s)),
      sc_GetChild = (\<lambda>req s. on_children msg_of_child (GetChild (ss_children s) (get_text req 1), ss_children s) s),
      sc_CreateChild = (\<lambda>req s. on_children msg_of_child
         (CreateChild (GetParent (ss_parents s)) (get_text req 1) (map_option child_of_msg (get_message req 2)) (ss_children s)) s),
      sc_UpdateChild = (\<lambda>req s. on_children msg_of_child
         (UpdateChild (map_option child_of_msg (get_message req 1)) (ss_children s)) s),
      sc_DeleteChild = (\<lambda>req s. (Ok empty_msg, s\<lparr>ss_children := DeleteChild (get_text req 1) (ss_children s)\<rparr>))\<rparr>"

definition resolver_impl :: "(child list \<Rightarrow> child list) \<Rightarrow> method_impl RelationsService" where
  "resolver_impl order =
     \<lparr>sr_GetChildParent = (\<lambda>req s. (obind (GetChildParent (GetParent (ss_parents s)) (map child_of_msg (get_messages req 1)))
         (\<lambda>ps. Ok (parent_results ps)), s)),
      sr_GetParentChildren = (\<lambda>req s. (obind (GetParentChildren (\<lambda>key. Ok (ListChildren order (ss_children s) key))
         (map parent_of_msg (get_messages req 1))) (\<lambda>css. Ok (children_results css)), s))\<rparr>"

section \<open>The mux\<close>

text \<open>
  \<^verbatim>\<open>http.ServeMux\<close>: a pattern that ends in a slash matches every path below it, another one only
  itself; the longest matching pattern wins. Mounting a pattern twice panics.
\<close>

definition pattern_matches :: "string \<Rightarrow> string \<Rightarrow> bool" where
  "pattern_matches pat path \<longleftrightarrow> (if has_suffix pat ''/'' then has_prefix path pat else path = pat)"

fun mux_route :: "(string \<times> 'h) list \<Rightarrow> string \<Rightarrow> (string \<times> 'h) option" where
  "mux_route [] path = None"
| "mux_route ((pat, h) # rest) path =
     (case mux_route rest path of
        None \<Rightarrow> if pattern_matches pat path then Some (pat, h) else None
      | Some (pat', h') \<Rightarrow> if pattern_matches pat path \<and> length pat' < length pat then Some (pat, h) else Some (pat', h'))"

datatype mounted = ServiceRoutes "string \<Rightarrow> method_impl stub_handler option" | KnitRoutes | Healthz

text \<open>
  What the server is run with: the library, the orders in which \<^verbatim>\<open>Range\<close> visits the two maps, the
  path of the Knit handler, which is generated elsewhere, and what Connect makes of an error of
  a handler and of a status that is not 200 on the client's side.
\<close>

record cross_env =
  ce_lib :: protolib
  ce_parent_order :: "parent list \<Rightarrow> parent list"
  ce_child_order :: "child list \<Rightarrow> child list"
  ce_knit_path :: string
  ce_wire_error :: "go_error \<Rightarrow> go_error"
  ce_http_error :: "nat \<Rightarrow> go_error"

definition cross_mux :: "cross_env \<Rightarrow> (string \<times> mounted) list" where
  "cross_mux env =
     [map_prod id ServiceRoutes (NewParentServiceHandler (parent_service_impl (ce_parent_order env))),
      map_prod id ServiceRoutes (NewChildServiceHandler (child_service_impl (ce_child_order env))),
      map_prod id ServiceRoutes (NewRelationsServiceHandler (resolver_impl (ce_child_order env))),
      (ce_knit_path env, KnitRoutes),
      (''/healthz'', Healthz)]"

definition cross_route :: "cross_env \<Rightarrow> string \<Rightarrow> method_impl stub_handler option" where
  "cross_route env path = (case mux_route (cross_mux env) path of
     Some (_, ServiceRoutes route) \<Rightarrow> route path | _ \<Rightarrow> None)"

section \<open>The server as a network\<close>

text \<open>The path of an absolute URL.\<close>

fun after_scheme :: "string \<Rightarrow> string" where
  "after_scheme [] = []"
| "after_scheme (c # cs) = (if has_prefix (c # cs) ''://'' then drop 3 (c # cs) else after_scheme cs)"

definition url_path :: "string \<Rightarrow> string" where
  "url_path u = dropWhile (\<lambda>c. c \<noteq> CHR ''/'') (after_scheme u)"

text \<open>
  One RPC of the gateway, \<^verbatim>\<open>RoundTrip\<close> included: the request is marshalled, routed, unmarshalled
  into the generated type, handled, and the response or the error goes back. A response without
  bytes never reaches the client's codec. A handler that panics ends the process; no answer of
  the server is about what comes after that.
\<close>

definition cross_serve :: "cross_env \<Rightarrow> server_state \<Rightarrow> rpc \<Rightarrow> (go_error + deferred_message) \<times> server_state" where
  "cross_serve env s r =
     (let lib = ce_lib env
      in case pl_marshal lib (rpc_message r) of
        Inl e \<Rightarrow> (Inl e, s)
      | Inr bs \<Rightarrow>
          (case cross_route env (url_path (cc_url (rpc_client r))) of
             None \<Rightarrow> (Inl (ce_http_error env 404), s)
           | Some h \<Rightarrow>
               (case pl_unmarshal lib bs (generated (mth_input (the (uh_schema h))) []) of
                  Inl e \<Rightarrow> (Inl (ce_wire_error env e), s)
                | Inr req \<Rightarrow>
                    (case uh_impl h req s of
                       (Err e, s') \<Rightarrow> (Inl (ce_wire_error env e), s')
                     | (Panic m, s') \<Rightarrow> (Inl (ExternalError m), s')
                     | (Ok resp, s') \<Rightarrow>
                         (case pl_marshal lib resp of
                            Inl e \<Rightarrow> (Inl (ce_wire_error env e), s')
                          | Inr out \<Rightarrow> (Inr \<lparr>dm_bytes = out, dm_codec = (if out = [] then None else Some ProtoCodec)\<rparr>, s'))))))"

definition server_after :: "cross_env \<Rightarrow> server_state \<Rightarrow> rpc list \<Rightarrow> server_state" where
  "server_after env s0 rpcs = fold (\<lambda>r s. snd (cross_serve env s r)) rpcs s0"

definition cross_network :: "cross_env \<Rightarrow> server_state \<Rightarrow> network" where
  "cross_network env s0 before r = fst (cross_serve env (server_after env s0 before) r)"

section \<open>Routing\<close>

lemma has_suffix_slash [simp]: "has_suffix s ''/'' \<longleftrightarrow> s \<noteq> [] \<and> last s = CHR ''/''"
  by (cases s rule: rev_cases) (auto simp: has_suffix_def)

text \<open>The Knit handler is mounted elsewhere than the services.\<close>

definition knit_elsewhere :: "cross_env \<Rightarrow> bool" where
  "knit_elsewhere env \<longleftrightarrow> \<not> has_prefix (ce_knit_path env) ''/buf.knit.crosstest.''"

lemma knit_pattern_shorter:
  assumes "knit_elsewhere env" "pattern_matches (ce_knit_path env) path" "has_prefix path (''/buf.knit.crosstest.'' @ rest)"
  shows "length (ce_knit_path env) < 20"
proof (rule ccontr)
  assume long: "\<not> length (ce_knit_path env) < 20"
  let ?p = "''/buf.knit.crosstest.''"
  have len: "length ?p \<le> length (ce_knit_path env)" using long by simp
  have p: "prefix ?p path" using append_prefixD [of ?p rest path] assms(3) unfolding has_prefix_def .
  from assms(2) have "prefix (ce_knit_path env) path" by (auto simp: pattern_matches_def has_prefix_def split: if_splits)
  with p have "prefix ?p (ce_knit_path env)" using len by (rule prefix_length_prefix)
  with assms(1) show False by (simp add: knit_elsewhere_def has_prefix_def)
qed

lemma mux_route_None: "mux_route es path = None \<longleftrightarrow> (\<forall>(q, h) \<in> set es. \<not> pattern_matches q path)"
  by (induction es path rule: mux_route.induct) (auto split: option.splits)

lemma mux_route_Some: "mux_route es path = Some (q, h) \<Longrightarrow> (q, h) \<in> set es \<and> pattern_matches q path"
proof (induction es path arbitrary: q h rule: mux_route.induct)
  case (2 pat h' rest path)
  then show ?case by (cases "mux_route rest path") (auto split: if_splits)
qed simp

lemma mux_route_longest:
  "(pat, h) \<in> set es \<Longrightarrow> pattern_matches pat path
   \<Longrightarrow> \<forall>(q, h') \<in> set es. pattern_matches q path \<longrightarrow> (q, h') = (pat, h) \<or> length q < length pat
   \<Longrightarrow> mux_route es path = Some (pat, h)"
proof (induction es)
  case (Cons e es)
  obtain q h' where e: "e = (q, h')" by (cases e)
  show ?case
  proof (cases "mux_route es path")
    case None
    then have "(pat, h) \<notin> set es" using Cons.prems(2) by (auto simp: mux_route_None)
    with Cons.prems e None show ?thesis by auto
  next
    case (Some r)
    obtain q2 h2 where r: "r = (q2, h2)" by (cases r)
    from mux_route_Some [OF Some [unfolded r]] Cons.prems(3)
    have r': "(q2, h2) = (pat, h) \<or> length q2 < length pat" "(q2, h2) \<in> set es" by auto
    show ?thesis
    proof (cases "(pat, h) \<in> set es")
      case True
      with Cons have "mux_route es path = Some (pat, h)" by simp
      with Cons.prems(3) e show ?thesis by auto
    next
      case False
      with Cons.prems(1,2) e r r' Some show ?thesis by auto
    qed
  qed
qed simp

text \<open>So a path below a service's pattern is routed to that service.\<close>

lemma cross_route_mounted:
  assumes knit: "knit_elsewhere env" and e: "(pat, ServiceRoutes route) \<in> set (cross_mux env)"
    and path: "has_prefix path pat" "has_suffix pat ''/''" and pat: "has_prefix pat (''/buf.knit.crosstest.'')"
    and others: "\<forall>(q, h) \<in> set (cross_mux env). q = pat \<and> h = ServiceRoutes route \<or> q = ce_knit_path env \<and> h = KnitRoutes
      \<or> \<not> pattern_matches q path"
  shows "cross_route env path = route path"
proof -
  from pat obtain rest where rest: "pat = ''/buf.knit.crosstest.'' @ rest" by (auto simp: has_prefix_def prefix_def)
  have "has_prefix path (''/buf.knit.crosstest.'' @ rest)" using path(1) unfolding rest .
  from knit_pattern_shorter [OF knit _ this]
  have "pattern_matches (ce_knit_path env) path \<Longrightarrow> length (ce_knit_path env) < length pat" unfolding rest by simp
  with others have "\<forall>(q, h') \<in> set (cross_mux env). pattern_matches q path \<longrightarrow> (q, h') = (pat, ServiceRoutes route) \<or> length q < length pat"
    by fastforce
  moreover have "pattern_matches pat path" using path by (simp add: pattern_matches_def)
  ultimately have "mux_route (cross_mux env) path = Some (pat, ServiceRoutes route)"
    using mux_route_longest [OF e] by blast
  then show ?thesis by (simp add: cross_route_def)
qed

lemma stub_mounts:
  "NewParentServiceHandler ps = (''/buf.knit.crosstest.ParentService/'', snd (NewParentServiceHandler ps))"
  "NewChildServiceHandler cs = (''/buf.knit.crosstest.ChildService/'', snd (NewChildServiceHandler cs))"
  "NewRelationsServiceHandler rs = (''/buf.knit.crosstest.RelationsService/'', snd (NewRelationsServiceHandler rs))"
  by (simp_all add: NewParentServiceHandler_def NewChildServiceHandler_def NewRelationsServiceHandler_def)

lemma cross_mux_mounts:
  "cross_mux env =
     [(''/buf.knit.crosstest.ParentService/'', ServiceRoutes (snd (NewParentServiceHandler (parent_service_impl (ce_parent_order env))))),
      (''/buf.knit.crosstest.ChildService/'', ServiceRoutes (snd (NewChildServiceHandler (child_service_impl (ce_child_order env))))),
      (''/buf.knit.crosstest.RelationsService/'', ServiceRoutes (snd (NewRelationsServiceHandler (resolver_impl (ce_child_order env))))),
      (ce_knit_path env, KnitRoutes), (''/healthz'', Healthz)]"
  unfolding cross_mux_def by (subst stub_mounts(1), subst stub_mounts(2), subst stub_mounts(3)) (simp del: One_nat_def)

lemma pattern_clash: "has_prefix path p \<Longrightarrow> \<not> prefix p q \<Longrightarrow> \<not> prefix q p \<Longrightarrow> \<not> pattern_matches q path"
  unfolding has_prefix_def pattern_matches_def using prefix_same_cases by (auto split: if_splits)

lemma cross_route_service:
  assumes "knit_elsewhere env"
  shows "has_prefix path ''/buf.knit.crosstest.ParentService/'' \<Longrightarrow>
      cross_route env path = snd (NewParentServiceHandler (parent_service_impl (ce_parent_order env))) path"
    and "has_prefix path ''/buf.knit.crosstest.ChildService/'' \<Longrightarrow>
      cross_route env path = snd (NewChildServiceHandler (child_service_impl (ce_child_order env))) path"
    and "has_prefix path ''/buf.knit.crosstest.RelationsService/'' \<Longrightarrow>
      cross_route env path = snd (NewRelationsServiceHandler (resolver_impl (ce_child_order env))) path"
proof -
  note mounted = cross_route_mounted [OF assms, unfolded cross_mux_mounts]
  show "cross_route env path = snd (NewParentServiceHandler (parent_service_impl (ce_parent_order env))) path"
    if "has_prefix path ''/buf.knit.crosstest.ParentService/''"
    by (rule mounted [OF _ that]) (use pattern_clash [OF that] in \<open>simp_all add: has_prefix_def\<close>)
  show "cross_route env path = snd (NewChildServiceHandler (child_service_impl (ce_child_order env))) path"
    if "has_prefix path ''/buf.knit.crosstest.ChildService/''"
    by (rule mounted [OF _ that]) (use pattern_clash [OF that] in \<open>simp_all add: has_prefix_def\<close>)
  show "cross_route env path = snd (NewRelationsServiceHandler (resolver_impl (ce_child_order env))) path"
    if "has_prefix path ''/buf.knit.crosstest.RelationsService/''"
    by (rule mounted [OF _ that]) (use pattern_clash [OF that] in \<open>simp_all add: has_prefix_def\<close>)
qed

section \<open>The gateway's requests reach the right methods\<close>

lemma url_path_endpoint: "url_path (cc_url (cross_client m)) = procedure_of m"
proof -
  have "endpointURL cross_url m = ''http://localhost'' @ procedure_of m"
    using endpointURL_procedure(2) [of "''http''" "''http://localhost''" m] by (simp add: cross_url_def)
  then show ?thesis by (simp add: cross_client_def url_path_def has_prefix_def procedure_of_def)
qed

abbreviation cross_methods :: "method_desc list" where
  "cross_methods \<equiv> sv_methods parent_service @ sv_methods child_service @ sv_methods relations_service"

lemma procedure_mounts:
  "m \<in> set (sv_methods parent_service) \<Longrightarrow> has_prefix (procedure_of m) ''/buf.knit.crosstest.ParentService/''"
  "m \<in> set (sv_methods child_service) \<Longrightarrow> has_prefix (procedure_of m) ''/buf.knit.crosstest.ChildService/''"
  "m \<in> set (sv_methods relations_service) \<Longrightarrow> has_prefix (procedure_of m) ''/buf.knit.crosstest.RelationsService/''"
  by (auto simp: parent_service_def child_service_def relations_service_def cross_service_def cross_method_def
      cross_name_def procedure_of_def has_prefix_def)

lemma cross_route_methods:
  assumes "knit_elsewhere env" "m \<in> set cross_methods"
  shows "\<exists>h. cross_route env (procedure_of m) = Some h \<and> uh_schema h = Some m \<and> uh_idempotency h = mth_idempotency m"
  using assms(2) stubs_route_exactly [unfolded routes_exactly_def]
  by (auto simp: cross_route_service [OF assms(1)] procedure_mounts) blast+

lemma cross_route_only:
  assumes "cross_route env path = Some h"
  shows "path \<in> procedure_of ` set cross_methods"
proof -
  from assms obtain pat route where r: "mux_route (cross_mux env) path = Some (pat, ServiceRoutes route)" "route path = Some h"
    by (auto simp: cross_route_def split: option.splits mounted.splits)
  from mux_route_Some [OF r(1)] have "(pat, ServiceRoutes route) \<in> set (cross_mux env)" by simp
  with r(2) stubs_route_exactly [unfolded routes_exactly_def] show ?thesis
    unfolding cross_mux_mounts by (auto simp: image_Un) blast+
qed

section \<open>A call that is answered\<close>

text \<open>
  What protobuf-go documents of a message with valid text: it is marshalled, and unmarshalling
  the bytes into a new message of its type, generated or dynamic, gives the message back.
\<close>

definition transmits :: "protolib \<Rightarrow> pmsg \<Rightarrow> bool" where
  "transmits lib m \<longleftrightarrow> (\<exists>bs. pl_marshal lib m = Inr bs \<and> (bs = [] \<longrightarrow> pm_fields m = [])
     \<and> (\<forall>t. pl_unmarshal lib bs (ProtoMsg (pm_desc m) [] t) = Inr (retype t m)))"

lemma retype_no_fields: "pm_fields m = [] \<Longrightarrow> retype t m = ProtoMsg (pm_desc m) [] t"
  by (cases m) simp

lemma cross_serve_answer:
  assumes "transmits lib req" "ce_lib env = lib" "cross_route env (url_path (cc_url (rpc_client r))) = Some h"
    "rpc_message r = req" "uh_schema h = Some m" "mth_input m = pm_desc req"
    "uh_impl h (retype GeneratedType req) s = (res, s')"
  shows "res = Err e \<Longrightarrow> fst (cross_serve env s r) = Inl (ce_wire_error env e)"
    and "res = Ok resp \<Longrightarrow> transmits lib resp \<Longrightarrow> \<exists>dm. fst (cross_serve env s r) = Inr dm
      \<and> deferred_unmarshal lib dm (new_message (dynamic_message_type (pm_desc resp))) = Ok (retype DynamicType resp)"
proof -
  from assms(1) obtain bs where bs: "pl_marshal lib req = Inr bs"
    "pl_unmarshal lib bs (generated (pm_desc req) []) = Inr (retype GeneratedType req)"
    by (auto simp: transmits_def generated_def)
  note serve = cross_serve_def assms(2,3,4,5,6,7) bs Let_def
  show "res = Err e \<Longrightarrow> fst (cross_serve env s r) = Inl (ce_wire_error env e)"
    by (simp add: serve)
  assume res: "res = Ok resp" and resp: "transmits lib resp"
  from resp obtain out where out: "pl_marshal lib resp = Inr out" "out = [] \<longrightarrow> pm_fields resp = []"
    "\<And>t. pl_unmarshal lib out (ProtoMsg (pm_desc resp) [] t) = Inr (retype t resp)"
    unfolding transmits_def by blast
  let ?dm = "\<lparr>dm_bytes = out, dm_codec = (if out = [] then None else Some ProtoCodec)\<rparr>"
  have "fst (cross_serve env s r) = Inr ?dm" by (simp add: serve res out(1))
  moreover have "deferred_unmarshal lib ?dm (new_message (dynamic_message_type (pm_desc resp))) = Ok (retype DynamicType resp)"
    using out(2,3) by (cases "out = []")
      (simp_all add: deferred_unmarshal_def new_message_def dynamic_message_type_def retype_no_fields of_sum_def)
  ultimately show "\<exists>dm. fst (cross_serve env s r) = Inr dm
      \<and> deferred_unmarshal lib dm (new_message (dynamic_message_type (pm_desc resp))) = Ok (retype DynamicType resp)"
    by blast
qed

section \<open>The relations, resolved by the gateway\<close>

lemma map_of_map_prod: "map_of (map (map_prod id f) xs) k = map_option f (map_of xs k)"
  by (induction xs) auto

lemma pm_fields_retype [simp]: "pm_fields (retype t m) = map (map_prod id (retype_value t)) (pm_fields m)"
  by (cases m) simp

lemma pm_desc_retype [simp]: "pm_desc (retype t m) = pm_desc m"
  by (cases m) simp

lemma get_text_retype [simp]: "get_text (retype t m) n = get_text m n"
  by (auto simp: get_text_def map_of_map_prod split: option.split pval.split)

lemma element_messages_retype: "element_messages (map (retype_value t) vs) = map (retype t) (element_messages vs)"
  by (induction vs rule: element_messages.induct) auto

lemma element_messages_PMsg: "element_messages (map PMsg ms) = ms"
  by (induction ms) auto

lemma get_messages_retype: "get_messages (retype t m) n = map (retype t) (get_messages m n)"
  by (auto simp: get_messages_def map_of_map_prod element_messages_retype split: option.split pval.split)

lemma child_of_msg_retype [simp]: "child_of_msg (retype t m) = child_of_msg m"
  by (simp add: child_of_msg_def)

lemma parent_of_msg_retype [simp]: "parent_of_msg (retype t m) = parent_of_msg m"
  by (simp add: parent_of_msg_def)

lemma child_of_msg_of_child [simp]: "child_of_msg (msg_of_child c) = c"
  by (simp add: child_of_msg_def msg_of_child_def generated_def text_entry_def get_text_def)

lemma parent_of_msg_of_parent [simp]: "parent_of_msg (msg_of_parent p) = p"
  by (simp add: parent_of_msg_def msg_of_parent_def generated_def text_entry_def get_text_def)

text \<open>The request for a batch, and what the server reads in it.\<close>

definition batch_request :: "desc_id \<Rightarrow> pmsg \<Rightarrow> pmsg list \<Rightarrow> pmsg" where
  "batch_request d params bases = pm_set params (list_field ''bases'' 1 d) (PList (map PMsg bases))"

lemma get_messages_batch: "get_messages (batch_request d params bases) 1 = bases"
  by (simp add: get_messages_def batch_request_def pm_set_def cross_field_simps update_conv' element_messages_PMsg)

lemma resolver_of:
  "resolves_with lib net get_child_parent ''parent'' cfg \<Longrightarrow> rc_resolver cfg =
     newRemoteResolver lib net cross_pool ''parent'' (list_field ''bases'' 1 7) (message_field ''parent'' 1 0)
       (list_field ''values'' 1 16) (dynamic_message_type 15) (cross_client get_child_parent)"
  "resolves_with lib net get_parent_children ''children'' cfg \<Longrightarrow> rc_resolver cfg =
     newRemoteResolver lib net cross_pool ''children'' (list_field ''bases'' 1 0) (message_field ''children'' 1 20)
       (list_field ''values'' 1 19) (dynamic_message_type 18) (cross_client get_parent_children)"
  by (auto simp: resolves_with_def getRelationConfig_def Let_def cross_fields cross_field_simps cross_method_def field_by_number_def)

lemma wrapped_values:
  "omap (\<lambda>v. obind (pv_message v) (\<lambda>m. Ok (Some (pm_get lib m (message_field n 1 d)))))
     (map (retype_value t) (map PMsg (map (\<lambda>x. generated w [(1, PMsg (f x))]) xs)))
   = Ok (map (\<lambda>x. Some (PMsg (retype t (f x)))) xs)"
  by (induction xs) (simp_all add: generated_def pm_get_def pv_message_def cross_field_simps)

text \<open>A resolver over a network that answers with one wrapped value for each base.\<close>

lemma newRemoteResolver_answer:
  assumes "pm_go params = DynamicType" "\<And>r. r = \<lparr>rpc_client = client, rpc_headers = toHeaders meta [],
      rpc_message = batch_request d params bases\<rparr> \<Longrightarrow> net (st_rpcs st) r = Inr dm"
    "deferred_unmarshal lib dm (new_message (dynamic_message_type rd)) =
       Ok (retype DynamicType (generated rd (list_entry 1 (map (\<lambda>x. generated w [(1, PMsg (f x))]) xs))))"
    "length xs = length bases" "xs \<noteq> []"
  shows "fst (newRemoteResolver lib net pool rel (list_field ''bases'' 1 d) (message_field n 1 fd)
      (list_field ''values'' 1 w) (dynamic_message_type rd) client meta bases params st)
    = Ok (map (\<lambda>x. Some (PMsg (retype DynamicType (f x)))) xs)"
proof -
  have "pm_get lib (retype DynamicType (generated rd (list_entry 1 (map (\<lambda>x. generated w [(1, PMsg (f x))]) xs))))
      (list_field ''values'' 1 w) = PList (map (retype_value DynamicType) (map PMsg (map (\<lambda>x. generated w [(1, PMsg (f x))]) xs)))"
    using assms(5) by (simp add: pm_get_def generated_def list_entry_def cross_field_simps)
  with assms show ?thesis
    by (simp add: newRemoteResolver_def Let_def batch_request_def pv_list_def wrapped_values del: map_map)
qed

lemma newRemoteResolver_fails:
  assumes "pm_go params = DynamicType" "\<And>r. r = \<lparr>rpc_client = client, rpc_headers = toHeaders meta [],
      rpc_message = batch_request d params bases\<rparr> \<Longrightarrow> net (st_rpcs st) r = Inl e"
  shows "fst (newRemoteResolver lib net pool rel (list_field ''bases'' 1 d) (message_field n 1 fd)
      (list_field ''values'' 1 w) (dynamic_message_type rd) client meta bases params st)
    = Err (Errorf ''resolving relation %q of %q: %w'' [AStr (camelCase rel), AStr (md_full_name (pool d)), AErr e])"
  using assms by (simp add: newRemoteResolver_def Let_def batch_request_def cross_field_simps)

lemma GetChildParent_length: "GetChildParent get bases = Ok ps \<Longrightarrow> length ps = length bases"
  unfolding GetChildParent_def by (rule omap_length)

lemma GetChildParent_not_Panic: "GetChildParent (GetParent s) bases \<noteq> Panic m"
  unfolding GetChildParent_def by (rule omap_not_Panic) (simp add: GetParent_def split: option.split)

text \<open>
  The gateway's resolver of \<^verbatim>\<open>parent\<close> answers what \<^verbatim>\<open>GetChildParent\<close> says of the parents that are
  stored when the request arrives.
\<close>

abbreviation child_bases :: "child list \<Rightarrow> pmsg list" where
  "child_bases cs \<equiv> map (\<lambda>c. retype DynamicType (msg_of_child c)) cs"

abbreviation parent_bases :: "parent list \<Rightarrow> pmsg list" where
  "parent_bases ps \<equiv> map (\<lambda>p. retype DynamicType (msg_of_parent p)) ps"

lemma relations_route:
  assumes "knit_elsewhere env"
  shows "\<exists>h. cross_route env (url_path (cc_url (cross_client get_child_parent))) = Some h
      \<and> uh_schema h = Some get_child_parent \<and> uh_impl h = sr_GetChildParent (resolver_impl (ce_child_order env))"
    and "\<exists>h. cross_route env (url_path (cc_url (cross_client get_parent_children))) = Some h
      \<and> uh_schema h = Some get_parent_children \<and> uh_impl h = sr_GetParentChildren (resolver_impl (ce_child_order env))"
proof -
  have m: "get_child_parent \<in> set (sv_methods relations_service)" "get_parent_children \<in> set (sv_methods relations_service)"
    by (simp_all add: relations_service_def cross_service_def)
  have p: "procedure_of get_child_parent = RelationsServiceGetChildParentProcedure"
    "procedure_of get_parent_children = RelationsServiceGetParentChildrenProcedure"
    "RelationsServiceGetChildParentProcedure \<noteq> RelationsServiceGetParentChildrenProcedure"
    by (simp_all add: procedure_of_def cross_method_def cross_name_def procedure_defs)
  have d: "relationsServiceGetChildParentMethodDescriptor = Some get_child_parent"
    "relationsServiceGetParentChildrenMethodDescriptor = Some get_parent_children"
    by (simp_all add: descriptor_defs method_by_name_def relations_service_def cross_service_def cross_method_def)
  show "\<exists>h. cross_route env (url_path (cc_url (cross_client get_child_parent))) = Some h
      \<and> uh_schema h = Some get_child_parent \<and> uh_impl h = sr_GetChildParent (resolver_impl (ce_child_order env))"
    unfolding url_path_endpoint cross_route_service(3) [OF assms procedure_mounts(3) [OF m(1)]]
    by (simp add: NewRelationsServiceHandler_def NewUnaryHandler_def p d)
  show "\<exists>h. cross_route env (url_path (cc_url (cross_client get_parent_children))) = Some h
      \<and> uh_schema h = Some get_parent_children \<and> uh_impl h = sr_GetParentChildren (resolver_impl (ce_child_order env))"
    unfolding url_path_endpoint cross_route_service(3) [OF assms procedure_mounts(3) [OF m(2)]]
    using p(3) [symmetric] by (simp add: NewRelationsServiceHandler_def NewUnaryHandler_def p d)
qed

lemma parent_resolver:
  assumes lib: "ce_lib env = lib" and knit: "knit_elsewhere env"
    and cfg: "resolves_with lib (cross_network env s0) get_child_parent ''parent'' cfg"
    and params: "pm_go params = DynamicType" "pm_desc params = 14" and cs: "cs \<noteq> []"
    and request: "transmits lib (batch_request 7 params (child_bases cs))"
    and answer: "\<And>ps. GetChildParent (GetParent (ss_parents (server_after env s0 (st_rpcs st)))) cs = Ok ps
      \<Longrightarrow> transmits lib (parent_results ps)"
  shows "fst (rc_resolver cfg meta (child_bases cs) params st) =
    (case GetChildParent (GetParent (ss_parents (server_after env s0 (st_rpcs st)))) cs of
       Ok ps \<Rightarrow> Ok (map (\<lambda>p. Some (PMsg (retype DynamicType (msg_of_parent p)))) ps)
     | Err e \<Rightarrow> Err (Errorf ''resolving relation %q of %q: %w''
         [AStr ''parent'', AStr ''buf.knit.crosstest.Child'', AErr (ce_wire_error env e)])
     | Panic m \<Rightarrow> Panic m)"
proof -
  let ?s = "server_after env s0 (st_rpcs st)" and ?r = "\<lparr>rpc_client = cross_client get_child_parent,
    rpc_headers = toHeaders meta [], rpc_message = batch_request 7 params (child_bases cs)\<rparr>"
  let ?get = "GetChildParent (GetParent (ss_parents ?s)) cs"
  from relations_route(1) [OF knit] obtain h where h: "cross_route env (url_path (cc_url (rpc_client ?r))) = Some h"
    "uh_schema h = Some get_child_parent" "uh_impl h = sr_GetChildParent (resolver_impl (ce_child_order env))" by auto
  have impl: "uh_impl h (retype GeneratedType (batch_request 7 params (child_bases cs))) ?s =
      (obind ?get (\<lambda>ps. Ok (parent_results ps)), ?s)"
    by (simp add: h(3) resolver_impl_def get_messages_retype get_messages_batch comp_def del: One_nat_def)
  have "mth_input get_child_parent = pm_desc (batch_request 7 params (child_bases cs))"
    using params(2) by (simp add: batch_request_def cross_method_def)
  note serve = cross_serve_answer [OF request lib h(1) _ h(2) this impl]
  show ?thesis
  proof (cases ?get)
    case (Ok ps)
    from serve(2) [OF _ _ answer [OF Ok]] Ok obtain dm where dm: "cross_network env s0 (st_rpcs st) ?r = Inr dm"
      "deferred_unmarshal lib dm (new_message (dynamic_message_type 15)) = Ok (retype DynamicType (parent_results ps))"
      by (auto simp: cross_network_def parent_results_def generated_def)
    have "ps \<noteq> []" "length ps = length (child_bases cs)" using GetChildParent_length [OF Ok] cs by auto
    with newRemoteResolver_answer [OF params(1) _ dm(2) [unfolded parent_results_def]] dm(1) Ok show ?thesis
      unfolding resolver_of(1) [OF cfg] by simp
  next
    case (Err e)
    then have "cross_network env s0 (st_rpcs st) ?r = Inl (ce_wire_error env e)"
      using serve(1) by (simp add: cross_network_def)
    with newRemoteResolver_fails [OF params(1)] Err show ?thesis
      unfolding resolver_of(1) [OF cfg] by (simp add: cross_fields cross_no_fields)
  next
    case (Panic m)
    with GetChildParent_not_Panic show ?thesis by blast
  qed
qed

lemma GetParentChildren_lists:
  "GetParentChildren (\<lambda>key. Ok (list key)) bases = Ok (map (\<lambda>p. list (pa_id p)) bases)"
  unfolding GetParentChildren_def by (induction bases) simp_all

lemma children_resolver:
  assumes lib: "ce_lib env = lib" and knit: "knit_elsewhere env"
    and cfg: "resolves_with lib (cross_network env s0) get_parent_children ''children'' cfg"
    and params: "pm_go params = DynamicType" "pm_desc params = 17" and ps: "ps \<noteq> []"
    and request: "transmits lib (batch_request 0 params (parent_bases ps))"
    and css: "css = map (\<lambda>p. ListChildren (ce_child_order env) (ss_children (server_after env s0 (st_rpcs st))) (pa_id p)) ps"
    and answer: "transmits lib (children_results css)"
  shows "fst (rc_resolver cfg meta (parent_bases ps) params st) =
    Ok (map (\<lambda>cs. Some (PMsg (retype DynamicType (children_page cs)))) css)"
proof -
  let ?s = "server_after env s0 (st_rpcs st)" and ?r = "\<lparr>rpc_client = cross_client get_parent_children,
    rpc_headers = toHeaders meta [], rpc_message = batch_request 0 params (parent_bases ps)\<rparr>"
  from relations_route(2) [OF knit] obtain h where h: "cross_route env (url_path (cc_url (rpc_client ?r))) = Some h"
    "uh_schema h = Some get_parent_children" "uh_impl h = sr_GetParentChildren (resolver_impl (ce_child_order env))" by auto
  have impl: "uh_impl h (retype GeneratedType (batch_request 0 params (parent_bases ps))) ?s = (Ok (children_results css), ?s)"
    by (simp add: h(3) resolver_impl_def get_messages_retype get_messages_batch GetParentChildren_lists comp_def css del: One_nat_def)
  have "mth_input get_parent_children = pm_desc (batch_request 0 params (parent_bases ps))"
    using params(2) by (simp add: batch_request_def cross_method_def)
  from cross_serve_answer(2) [OF request lib h(1) _ h(2) this impl _ answer] obtain dm where
    dm: "cross_network env s0 (st_rpcs st) ?r = Inr dm"
      "deferred_unmarshal lib dm (new_message (dynamic_message_type 18)) = Ok (retype DynamicType (children_results css))"
    by (auto simp: cross_network_def children_results_def generated_def)
  have "css \<noteq> []" "length css = length (parent_bases ps)" using ps by (simp_all add: css)
  with newRemoteResolver_answer [OF params(1) _ dm(2) [unfolded children_results_def]] dm(1) show ?thesis
    unfolding resolver_of(2) [OF cfg] by simp
qed

end
