(* ===== verification/Test_Stubs.thy ===== *)
theory Test_Stubs
  imports Connect_Stubs
begin

text \<open>
  The Connect stubs of the services that the tests of the gateway use
  (\<^verbatim>\<open>knittestconnect/services.connect.go\<close> and \<^verbatim>\<open>relations.connect.go\<close>). The descriptors of the proto
  files are generated as bytes; \<open>file\<close> stands for \<^verbatim>\<open>Services().ByName\<close> of the one a stub belongs to.
  One method streams its responses: its implementation has a type of its own.
\<close>

section \<open>Names, procedures and method descriptors\<close>

definition FooServiceName :: string where
  "FooServiceName = ''buf.knittest.FooService''"

definition FizzServiceName :: string where
  "FizzServiceName = ''buf.knittest.FizzService''"

definition FooServiceGetFooProcedure :: string where [procedure_defs]:
  "FooServiceGetFooProcedure = ''/buf.knittest.FooService/GetFoo''"

definition FooServiceMutateFooProcedure :: string where [procedure_defs]:
  "FooServiceMutateFooProcedure = ''/buf.knittest.FooService/MutateFoo''"

definition FooServiceQueryFoosProcedure :: string where [procedure_defs]:
  "FooServiceQueryFoosProcedure = ''/buf.knittest.FooService/QueryFoos''"

definition FizzServiceGetFizzProcedure :: string where [procedure_defs]:
  "FizzServiceGetFizzProcedure = ''/buf.knittest.FizzService/GetFizz''"

definition fooServiceGetFooMethodDescriptor :: "(string \<Rightarrow> service_desc option) \<Rightarrow> method_desc option" where [descriptor_defs]:
  "fooServiceGetFooMethodDescriptor file = Option.bind (file ''FooService'') (\<lambda>svc. method_by_name svc ''GetFoo'')"

definition fooServiceMutateFooMethodDescriptor :: "(string \<Rightarrow> service_desc option) \<Rightarrow> method_desc option" where [descriptor_defs]:
  "fooServiceMutateFooMethodDescriptor file = Option.bind (file ''FooService'') (\<lambda>svc. method_by_name svc ''MutateFoo'')"

definition fooServiceQueryFoosMethodDescriptor :: "(string \<Rightarrow> service_desc option) \<Rightarrow> method_desc option" where [descriptor_defs]:
  "fooServiceQueryFoosMethodDescriptor file = Option.bind (file ''FooService'') (\<lambda>svc. method_by_name svc ''QueryFoos'')"

definition fizzServiceGetFizzMethodDescriptor :: "(string \<Rightarrow> service_desc option) \<Rightarrow> method_desc option" where [descriptor_defs]:
  "fizzServiceGetFizzMethodDescriptor file = Option.bind (file ''FizzService'') (\<lambda>svc. method_by_name svc ''GetFizz'')"

section \<open>FooService\<close>

record ('f, 'g) FooService =
  sf_GetFoo :: 'f
  sf_MutateFoo :: 'f
  sf_QueryFoos :: 'g

record fooServiceClient =
  sfc_GetFoo :: stub_client
  sfc_MutateFoo :: stub_client
  sfc_QueryFoos :: stub_client

definition NewFooServiceClient :: "(string \<Rightarrow> service_desc option) \<Rightarrow> nat \<Rightarrow> string \<Rightarrow> client_option list \<Rightarrow> fooServiceClient" where
  "NewFooServiceClient file http_client base_url opts =
     (let base = trim_right (CHR ''/'') base_url
      in \<lparr>sfc_GetFoo = NewClient http_client (base @ FooServiceGetFooProcedure)
            (fooServiceGetFooMethodDescriptor file) NoSideEffects opts,
          sfc_MutateFoo = NewClient http_client (base @ FooServiceMutateFooProcedure)
            (fooServiceMutateFooMethodDescriptor file) IdempotencyUnknown opts,
          sfc_QueryFoos = NewClient http_client (base @ FooServiceQueryFoosProcedure)
            (fooServiceQueryFoosMethodDescriptor file) IdempotencyUnknown opts\<rparr>)"

text \<open>The client's methods: each calls its \<^verbatim>\<open>connect.Client\<close>.\<close>

definition fooService_methods :: "(stub_client \<Rightarrow> 'f) \<Rightarrow> (stub_client \<Rightarrow> 'g) \<Rightarrow> fooServiceClient \<Rightarrow> ('f, 'g) FooService" where
  "fooService_methods CallUnary CallServerStream c =
     \<lparr>sf_GetFoo = CallUnary (sfc_GetFoo c),
      sf_MutateFoo = CallUnary (sfc_MutateFoo c),
      sf_QueryFoos = CallServerStream (sfc_QueryFoos c)\<rparr>"

definition NewFooServiceHandler :: "(string \<Rightarrow> service_desc option) \<Rightarrow> ('f, 'g) FooService \<Rightarrow> string \<times> (string \<Rightarrow> ('f + 'g) stub_handler option)" where
  "NewFooServiceHandler file svc =
     (''/buf.knittest.FooService/'',
      \<lambda>path. if path = FooServiceGetFooProcedure then
          Some (NewUnaryHandler FooServiceGetFooProcedure (Inl (sf_GetFoo svc))
            (fooServiceGetFooMethodDescriptor file) NoSideEffects)
        else if path = FooServiceMutateFooProcedure then
          Some (NewUnaryHandler FooServiceMutateFooProcedure (Inl (sf_MutateFoo svc))
            (fooServiceMutateFooMethodDescriptor file) IdempotencyUnknown)
        else if path = FooServiceQueryFoosProcedure then
          Some (NewServerStreamHandler FooServiceQueryFoosProcedure (Inr (sf_QueryFoos svc))
            (fooServiceQueryFoosMethodDescriptor file) IdempotencyUnknown)
        else None)"

definition UnimplementedFooServiceHandler :: "('q \<Rightarrow> 's \<Rightarrow> 'r result \<times> 's, 'q \<Rightarrow> 'y \<Rightarrow> 's \<Rightarrow> unit result \<times> 's) FooService" where
  "UnimplementedFooServiceHandler =
     \<lparr>sf_GetFoo = (\<lambda>req s. (Err (unimplemented ''buf.knittest.FooService.GetFoo''), s)),
      sf_MutateFoo = (\<lambda>req s. (Err (unimplemented ''buf.knittest.FooService.MutateFoo''), s)),
      sf_QueryFoos = (\<lambda>req stream s. (Err (unimplemented ''buf.knittest.FooService.QueryFoos''), s))\<rparr>"

section \<open>FizzService\<close>

record 'f FizzService =
  sz_GetFizz :: 'f

record fizzServiceClient =
  szc_GetFizz :: stub_client

definition NewFizzServiceClient :: "(string \<Rightarrow> service_desc option) \<Rightarrow> nat \<Rightarrow> string \<Rightarrow> client_option list \<Rightarrow> fizzServiceClient" where
  "NewFizzServiceClient file http_client base_url opts =
     (let base = trim_right (CHR ''/'') base_url
      in \<lparr>szc_GetFizz = NewClient http_client (base @ FizzServiceGetFizzProcedure)
            (fizzServiceGetFizzMethodDescriptor file) NoSideEffects opts\<rparr>)"

text \<open>The client's methods: each calls its \<^verbatim>\<open>connect.Client\<close>.\<close>

definition fizzService_methods :: "(stub_client \<Rightarrow> 'f) \<Rightarrow> fizzServiceClient \<Rightarrow> 'f FizzService" where
  "fizzService_methods CallUnary c =
     \<lparr>sz_GetFizz = CallUnary (szc_GetFizz c)\<rparr>"

definition NewFizzServiceHandler :: "(string \<Rightarrow> service_desc option) \<Rightarrow> 'f FizzService \<Rightarrow> string \<times> (string \<Rightarrow> 'f stub_handler option)" where
  "NewFizzServiceHandler file svc =
     (''/buf.knittest.FizzService/'',
      \<lambda>path. if path = FizzServiceGetFizzProcedure then
          Some (NewUnaryHandler FizzServiceGetFizzProcedure (sz_GetFizz svc)
            (fizzServiceGetFizzMethodDescriptor file) NoSideEffects)
        else None)"

definition UnimplementedFizzServiceHandler :: "('q \<Rightarrow> 's \<Rightarrow> 'r result \<times> 's) FizzService" where
  "UnimplementedFizzServiceHandler =
     \<lparr>sz_GetFizz = (\<lambda>req s. (Err (unimplemented ''buf.knittest.FizzService.GetFizz''), s))\<rparr>"

section \<open>Names, procedures and method descriptors\<close>

definition RelationsServiceName_knittest :: string where
  "RelationsServiceName_knittest = ''buf.knittest.RelationsService''"

definition RelationsServiceGetFooStyleProcedure :: string where [procedure_defs]:
  "RelationsServiceGetFooStyleProcedure = ''/buf.knittest.RelationsService/GetFooStyle''"

definition RelationsServiceGetFooBalanceCentsProcedure :: string where [procedure_defs]:
  "RelationsServiceGetFooBalanceCentsProcedure = ''/buf.knittest.RelationsService/GetFooBalanceCents''"

definition RelationsServiceGetFooBarsProcedure :: string where [procedure_defs]:
  "RelationsServiceGetFooBarsProcedure = ''/buf.knittest.RelationsService/GetFooBars''"

definition RelationsServiceGetFooDescriptionProcedure :: string where [procedure_defs]:
  "RelationsServiceGetFooDescriptionProcedure = ''/buf.knittest.RelationsService/GetFooDescription''"

definition RelationsServiceGetBarBazProcedure :: string where [procedure_defs]:
  "RelationsServiceGetBarBazProcedure = ''/buf.knittest.RelationsService/GetBarBaz''"

definition RelationsServiceGetBarBedazzlesProcedure :: string where [procedure_defs]:
  "RelationsServiceGetBarBedazzlesProcedure = ''/buf.knittest.RelationsService/GetBarBedazzles''"

definition RelationsServiceGetFizzBuzzesProcedure :: string where [procedure_defs]:
  "RelationsServiceGetFizzBuzzesProcedure = ''/buf.knittest.RelationsService/GetFizzBuzzes''"

definition relationsServiceGetFooStyleMethodDescriptor :: "(string \<Rightarrow> service_desc option) \<Rightarrow> method_desc option" where [descriptor_defs]:
  "relationsServiceGetFooStyleMethodDescriptor file = Option.bind (file ''RelationsService'') (\<lambda>svc. method_by_name svc ''GetFooStyle'')"

definition relationsServiceGetFooBalanceCentsMethodDescriptor :: "(string \<Rightarrow> service_desc option) \<Rightarrow> method_desc option" where [descriptor_defs]:
  "relationsServiceGetFooBalanceCentsMethodDescriptor file = Option.bind (file ''RelationsService'') (\<lambda>svc. method_by_name svc ''GetFooBalanceCents'')"

definition relationsServiceGetFooBarsMethodDescriptor :: "(string \<Rightarrow> service_desc option) \<Rightarrow> method_desc option" where [descriptor_defs]:
  "relationsServiceGetFooBarsMethodDescriptor file = Option.bind (file ''RelationsService'') (\<lambda>svc. method_by_name svc ''GetFooBars'')"

definition relationsServiceGetFooDescriptionMethodDescriptor :: "(string \<Rightarrow> service_desc option) \<Rightarrow> method_desc option" where [descriptor_defs]:
  "relationsServiceGetFooDescriptionMethodDescriptor file = Option.bind (file ''RelationsService'') (\<lambda>svc. method_by_name svc ''GetFooDescription'')"

definition relationsServiceGetBarBazMethodDescriptor :: "(string \<Rightarrow> service_desc option) \<Rightarrow> method_desc option" where [descriptor_defs]:
  "relationsServiceGetBarBazMethodDescriptor file = Option.bind (file ''RelationsService'') (\<lambda>svc. method_by_name svc ''GetBarBaz'')"

definition relationsServiceGetBarBedazzlesMethodDescriptor :: "(string \<Rightarrow> service_desc option) \<Rightarrow> method_desc option" where [descriptor_defs]:
  "relationsServiceGetBarBedazzlesMethodDescriptor file = Option.bind (file ''RelationsService'') (\<lambda>svc. method_by_name svc ''GetBarBedazzles'')"

definition relationsServiceGetFizzBuzzesMethodDescriptor :: "(string \<Rightarrow> service_desc option) \<Rightarrow> method_desc option" where [descriptor_defs]:
  "relationsServiceGetFizzBuzzesMethodDescriptor file = Option.bind (file ''RelationsService'') (\<lambda>svc. method_by_name svc ''GetFizzBuzzes'')"

section \<open>RelationsService\<close>

record 'f RelationsService_knittest =
  st_GetFooStyle :: 'f
  st_GetFooBalanceCents :: 'f
  st_GetFooBars :: 'f
  st_GetFooDescription :: 'f
  st_GetBarBaz :: 'f
  st_GetBarBedazzles :: 'f
  st_GetFizzBuzzes :: 'f

record relationsServiceClient_knittest =
  stc_GetFooStyle :: stub_client
  stc_GetFooBalanceCents :: stub_client
  stc_GetFooBars :: stub_client
  stc_GetFooDescription :: stub_client
  stc_GetBarBaz :: stub_client
  stc_GetBarBedazzles :: stub_client
  stc_GetFizzBuzzes :: stub_client

definition NewRelationsServiceClient_knittest :: "(string \<Rightarrow> service_desc option) \<Rightarrow> nat \<Rightarrow> string \<Rightarrow> client_option list \<Rightarrow> relationsServiceClient_knittest" where
  "NewRelationsServiceClient_knittest file http_client base_url opts =
     (let base = trim_right (CHR ''/'') base_url
      in \<lparr>stc_GetFooStyle = NewClient http_client (base @ RelationsServiceGetFooStyleProcedure)
            (relationsServiceGetFooStyleMethodDescriptor file) NoSideEffects opts,
          stc_GetFooBalanceCents = NewClient http_client (base @ RelationsServiceGetFooBalanceCentsProcedure)
            (relationsServiceGetFooBalanceCentsMethodDescriptor file) NoSideEffects opts,
          stc_GetFooBars = NewClient http_client (base @ RelationsServiceGetFooBarsProcedure)
            (relationsServiceGetFooBarsMethodDescriptor file) NoSideEffects opts,
          stc_GetFooDescription = NewClient http_client (base @ RelationsServiceGetFooDescriptionProcedure)
            (relationsServiceGetFooDescriptionMethodDescriptor file) NoSideEffects opts,
          stc_GetBarBaz = NewClient http_client (base @ RelationsServiceGetBarBazProcedure)
            (relationsServiceGetBarBazMethodDescriptor file) NoSideEffects opts,
          stc_GetBarBedazzles = NewClient http_client (base @ RelationsServiceGetBarBedazzlesProcedure)
            (relationsServiceGetBarBedazzlesMethodDescriptor file) NoSideEffects opts,
          stc_GetFizzBuzzes = NewClient http_client (base @ RelationsServiceGetFizzBuzzesProcedure)
            (relationsServiceGetFizzBuzzesMethodDescriptor file) NoSideEffects opts\<rparr>)"

text \<open>The client's methods: each calls its \<^verbatim>\<open>connect.Client\<close>.\<close>

definition relationsService_methods_knittest :: "(stub_client \<Rightarrow> 'f) \<Rightarrow> relationsServiceClient_knittest \<Rightarrow> 'f RelationsService_knittest" where
  "relationsService_methods_knittest CallUnary c =
     \<lparr>st_GetFooStyle = CallUnary (stc_GetFooStyle c),
      st_GetFooBalanceCents = CallUnary (stc_GetFooBalanceCents c),
      st_GetFooBars = CallUnary (stc_GetFooBars c),
      st_GetFooDescription = CallUnary (stc_GetFooDescription c),
      st_GetBarBaz = CallUnary (stc_GetBarBaz c),
      st_GetBarBedazzles = CallUnary (stc_GetBarBedazzles c),
      st_GetFizzBuzzes = CallUnary (stc_GetFizzBuzzes c)\<rparr>"

definition NewRelationsServiceHandler_knittest :: "(string \<Rightarrow> service_desc option) \<Rightarrow> 'f RelationsService_knittest \<Rightarrow> string \<times> (string \<Rightarrow> 'f stub_handler option)" where
  "NewRelationsServiceHandler_knittest file svc =
     (''/buf.knittest.RelationsService/'',
      \<lambda>path. if path = RelationsServiceGetFooStyleProcedure then
          Some (NewUnaryHandler RelationsServiceGetFooStyleProcedure (st_GetFooStyle svc)
            (relationsServiceGetFooStyleMethodDescriptor file) NoSideEffects)
        else if path = RelationsServiceGetFooBalanceCentsProcedure then
          Some (NewUnaryHandler RelationsServiceGetFooBalanceCentsProcedure (st_GetFooBalanceCents svc)
            (relationsServiceGetFooBalanceCentsMethodDescriptor file) NoSideEffects)
        else if path = RelationsServiceGetFooBarsProcedure then
          Some (NewUnaryHandler RelationsServiceGetFooBarsProcedure (st_GetFooBars svc)
            (relationsServiceGetFooBarsMethodDescriptor file) NoSideEffects)
        else if path = RelationsServiceGetFooDescriptionProcedure then
          Some (NewUnaryHandler RelationsServiceGetFooDescriptionProcedure (st_GetFooDescription svc)
            (relationsServiceGetFooDescriptionMethodDescriptor file) NoSideEffects)
        else if path = RelationsServiceGetBarBazProcedure then
          Some (NewUnaryHandler RelationsServiceGetBarBazProcedure (st_GetBarBaz svc)
            (relationsServiceGetBarBazMethodDescriptor file) NoSideEffects)
        else if path = RelationsServiceGetBarBedazzlesProcedure then
          Some (NewUnaryHandler RelationsServiceGetBarBedazzlesProcedure (st_GetBarBedazzles svc)
            (relationsServiceGetBarBedazzlesMethodDescriptor file) NoSideEffects)
        else if path = RelationsServiceGetFizzBuzzesProcedure then
          Some (NewUnaryHandler RelationsServiceGetFizzBuzzesProcedure (st_GetFizzBuzzes svc)
            (relationsServiceGetFizzBuzzesMethodDescriptor file) NoSideEffects)
        else None)"

definition UnimplementedRelationsServiceHandler_knittest :: "('q \<Rightarrow> 's \<Rightarrow> 'r result \<times> 's) RelationsService_knittest" where
  "UnimplementedRelationsServiceHandler_knittest =
     \<lparr>st_GetFooStyle = (\<lambda>req s. (Err (unimplemented ''buf.knittest.RelationsService.GetFooStyle''), s)),
      st_GetFooBalanceCents = (\<lambda>req s. (Err (unimplemented ''buf.knittest.RelationsService.GetFooBalanceCents''), s)),
      st_GetFooBars = (\<lambda>req s. (Err (unimplemented ''buf.knittest.RelationsService.GetFooBars''), s)),
      st_GetFooDescription = (\<lambda>req s. (Err (unimplemented ''buf.knittest.RelationsService.GetFooDescription''), s)),
      st_GetBarBaz = (\<lambda>req s. (Err (unimplemented ''buf.knittest.RelationsService.GetBarBaz''), s)),
      st_GetBarBedazzles = (\<lambda>req s. (Err (unimplemented ''buf.knittest.RelationsService.GetBarBedazzles''), s)),
      st_GetFizzBuzzes = (\<lambda>req s. (Err (unimplemented ''buf.knittest.RelationsService.GetFizzBuzzes''), s))\<rparr>"

section \<open>A client reaches the handler's method\<close>

lemma test_stubs_compose:
  "fooService_methods (\<lambda>c. projl (call_route base (NewFooServiceHandler file foo) (Inl nf) c))
      (\<lambda>c. projr (call_route base (NewFooServiceHandler file foo) (Inr ng) c)) (NewFooServiceClient file http base opts) = foo"
  "fizzService_methods (call_route base (NewFizzServiceHandler file fizz) nf) (NewFizzServiceClient file http base opts) = fizz"
  "relationsService_methods_knittest (call_route base (NewRelationsServiceHandler_knittest file rel) nf)
      (NewRelationsServiceClient_knittest file http base opts) = rel"
  by (simp_all add: fooService_methods_def fizzService_methods_def relationsService_methods_knittest_def
      NewFooServiceClient_def NewFizzServiceClient_def NewRelationsServiceClient_knittest_def
      NewFooServiceHandler_def NewFizzServiceHandler_def NewRelationsServiceHandler_knittest_def
      call_route_client NewUnaryHandler_def NewServerStreamHandler_def procedure_defs has_prefix_def Let_def)

end
