(* ===== verification/Cross_Properties.thy ===== *)
theory Cross_Properties
  imports Cross_Wire Test_Stubs Knit_Example
begin

text \<open>
  The properties of the test server: of its two services, of the generated stubs around them (and
  of those the tests of the gateway use), and of the server's own gateway, whose requests come
  back to these services.
\<close>

section \<open>The services\<close>

text \<open>C38: However the handlers of the services interleave, no id is given out twice (before the
  counters wrap around), and whatever is stored is stored under its own id, one that was given
  out; a child's id starts with that of a parent that was created.\<close>

theorem crosstest_ids:
  assumes "cross_run cross_start es s" "length es < 2 ^ 63"
  shows "distinct (parent_issues es @ child_issues es)
    \<and> (\<forall>k p. map_of (rs_entries (cs_parents s)) k = Some p \<longrightarrow> pa_id p = k \<and> k \<in> set (parent_issues es))
    \<and> (\<forall>k c. map_of (rs_entries (cs_children s)) k = Some c
        \<longrightarrow> ch_id c = k \<and> k \<in> set (child_issues es) \<and> owner_id c \<in> set (parent_issues es))"
  using issued_distinct [OF assms] stored_ids [OF assms(1)] child_owner [OF assms(1)]
  by (simp add: owner_id_def) metis

lemma demo_cross_run:
  "cross_run cross_start [ParentIssued ''1'', ParentStored ''1'']
     (cross_start\<lparr>cs_parents := \<lparr>rs_counter = 1, rs_entries = [(''1'', \<lparr>pa_id = ''1'', pa_name = ''Ada''\<rparr>)]\<rparr>\<rparr>)"
proof -
  have one: "format_int 1 = ''1''" by code_simp
  show ?thesis
    using CreateParent_run [of "\<lparr>pa_id = [], pa_name = ''Ada''\<rparr>" cross_start "\<lparr>pa_id = ''1'', pa_name = ''Ada''\<rparr>"
        "\<lparr>rs_counter = 1, rs_entries = [(''1'', \<lparr>pa_id = ''1'', pa_name = ''Ada''\<rparr>)]\<rparr>"]
    by (simp add: CreateParent_def cross_start_def next_id_def empty_resources_def one store_entry_def Let_def)
qed

theorem crosstest_ids_witness:
  "distinct (parent_issues [ParentIssued ''1'', ParentStored ''1''] @ child_issues [ParentIssued ''1'', ParentStored ''1''])"
  using crosstest_ids [OF demo_cross_run] by simp

text \<open>C39: The two relations of the services. \<^verbatim>\<open>GetChildParent\<close> answers with the parent each child
  was created under; \<^verbatim>\<open>ListChildren\<close> with the children of every parent whose id starts with the
  given one: the parent's own, and those of its namesakes by prefix.\<close>

theorem crosstest_relations:
  assumes "cross_run cross_start es s" "CHR ''/'' \<notin> set key" "\<And>xs. set (order xs) = set xs"
  shows "(\<forall>bases ps. GetChildParent (GetParent (cs_parents s)) bases = Ok ps \<longrightarrow> map pa_id ps = map owner_id bases)
    \<and> (\<forall>req c cs. CreateChild (GetParent (cs_parents s)) key req (cs_children s) = (Ok c, cs) \<longrightarrow> owner_id c = key)
    \<and> set (ListChildren order (cs_children s) key) =
        {c. (\<exists>k. map_of (rs_entries (cs_children s)) k = Some c) \<and> has_prefix (owner_id c) key}"
  using parents.GetChildParent_owner [OF reachable_parents_ok [OF assms(1)]]
    parents.CreateChild_owner(1) [OF reachable_parents_ok [OF assms(1)]] ListChildren_exact [OF assms]
  by blast

theorem crosstest_relations_witness:
  "set (ListChildren rev (cs_children cross_start) ''1'') = {}"
  using crosstest_relations [OF demo_cross_run, of "''1''" rev] by (simp add: cross_start_def empty_resources_def)

section \<open>The generated stubs\<close>

text \<open>C40: A generated client talking to the generated handler of a service is that service: every
  method of the client reaches the method of the same name, with the same descriptor and
  idempotency, whatever the base URL.\<close>

theorem stubs_are_transparent:
  "parentService_methods (call_route base (NewParentServiceHandler ps) nf1) (NewParentServiceClient http base opts) = ps
   \<and> childService_methods (call_route base (NewChildServiceHandler cs) nf2) (NewChildServiceClient http base opts) = cs
   \<and> relationsService_methods (call_route base (NewRelationsServiceHandler rs) nf3) (NewRelationsServiceClient http base opts) = rs
   \<and> fooService_methods (\<lambda>c. projl (call_route base (NewFooServiceHandler file foo) (Inl nf4) c))
        (\<lambda>c. projr (call_route base (NewFooServiceHandler file foo) (Inr nf5) c)) (NewFooServiceClient file http base opts) = foo
   \<and> fizzService_methods (call_route base (NewFizzServiceHandler file fizz) nf6) (NewFizzServiceClient file http base opts) = fizz
   \<and> relationsService_methods_knittest (call_route base (NewRelationsServiceHandler_knittest rfile rel) nf7)
        (NewRelationsServiceClient_knittest rfile http base opts) = rel"
  by (intro conjI stubs_compose test_stubs_compose)

text \<open>C37: The test server's gateway starts with all twelve methods; the URL it calls for a method is
  routed by the server's mux to the handler of that very method, and no other path reaches a
  handler of the services.\<close>

theorem gateway_reaches_handlers:
  assumes "types_linked lib" "knit_elsewhere env"
  shows "\<exists>g. crosstest_gateway lib net = (g, Ok ())
    \<and> (\<forall>m \<in> set cross_methods. \<exists>mc h. gw_methods g (mth_full_name m) = Some mc \<and> mc_descriptor mc = m
        \<and> cross_route env (url_path (cc_url (mc_client mc))) = Some h
        \<and> uh_schema h = Some m \<and> uh_idempotency h = mth_idempotency m)
    \<and> (\<forall>path. cross_route env path \<noteq> None \<longrightarrow> path \<in> procedure_of ` set cross_methods)"
proof -
  obtain g where g: "crosstest_gateway lib net = (g, Ok ())" "\<forall>m \<in> set cross_methods. registered (gw_methods g) m"
    using crosstest_registers [OF assms(1), of net] by blast
  moreover have "path \<in> procedure_of ` set cross_methods" if "cross_route env path \<noteq> None" for path
    using that cross_route_only by blast
  moreover have "\<exists>mc h. gw_methods g (mth_full_name m) = Some mc \<and> mc_descriptor mc = m
        \<and> cross_route env (url_path (cc_url (mc_client mc))) = Some h
        \<and> uh_schema h = Some m \<and> uh_idempotency h = mth_idempotency m" if "m \<in> set cross_methods" for m
    using cross_route_methods [OF assms(2) that] g(2) [rule_format, OF that]
    by (metis registered_def url_path_endpoint)
  ultimately show ?thesis by blast
qed

section \<open>An instance of the server\<close>

definition ada :: parent where "ada = \<lparr>pa_id = ''1'', pa_name = ''Ada''\<rparr>"

definition first_child :: child where "first_child = \<lparr>ch_id = ''1/1''\<rparr>"

definition demo_server :: server_state where
  "demo_server = \<lparr>ss_parents = \<lparr>rs_counter = 1, rs_entries = [(''1'', ada)]\<rparr>,
     ss_children = \<lparr>rs_counter = 1, rs_entries = [(''1/1'', first_child)]\<rparr>\<rparr>"

text \<open>A library that has codes for the messages of two calls.\<close>

definition wire_messages :: "pmsg list" where
  "wire_messages = [batch_request 7 (new_message (dynamic_message_type 14)) (child_bases [first_child]), parent_results [ada],
     batch_request 0 (new_message (dynamic_message_type 17)) (parent_bases [ada]), children_results [[first_child]]]"

definition wire_lib :: protolib where
  "wire_lib = demo_lib\<lparr>
     pl_marshal := (\<lambda>m. case find (\<lambda>i. wire_messages ! i = m) [0, 1, 2, 3] of
        Some i \<Rightarrow> Inr [of_nat i] | None \<Rightarrow> Inl (ExternalError ''unknown message'')),
     pl_unmarshal := (\<lambda>bs m. Inr (retype (pm_go m) (wire_messages ! unat (hd bs)))),
     pl_find_message := (\<lambda>n. Inr \<lparr>mt_desc = 0, mt_fresh = GeneratedType\<rparr>)\<rparr>"

definition wire_env :: cross_env where
  "wire_env = \<lparr>ce_lib = wire_lib, ce_parent_order = id, ce_child_order = id,
     ce_knit_path = ''/buf.knit.gateway.v1alpha1.KnitService/'', ce_wire_error = id, ce_http_error = (\<lambda>n. ExternalError [])\<rparr>"

lemma wire_env_facts: "types_linked wire_lib" "knit_elsewhere wire_env" "ce_lib wire_env = wire_lib"
  by (simp_all add: types_linked_def wire_lib_def knit_elsewhere_def wire_env_def has_prefix_def)

lemma wire_distinct: "distinct wire_messages"
  by (simp add: wire_messages_def batch_request_def parent_results_def children_results_def new_message_def
      dynamic_message_type_def generated_def pm_set_def)

lemma wire_transmits:
  assumes "m \<in> set wire_messages"
  shows "transmits wire_lib m"
proof -
  have len: "length wire_messages = 4" by (simp add: wire_messages_def)
  from assms obtain i where i: "i < 4" "m = wire_messages ! i"
    unfolding in_set_conv_nth len by blast
  have "wire_messages ! j = wire_messages ! i \<longleftrightarrow> j = i" if "j < 4" for j
    using nth_eq_iff_index_eq [OF wire_distinct, of j i] that i(1) by (simp add: len)
  then have "find (\<lambda>j. wire_messages ! j = wire_messages ! i) [0, 1, 2, 3] = Some i"
    using i(1) by (auto simp: less_Suc_eq eval_nat_numeral)
  then have "pl_marshal wire_lib m = Inr [of_nat i]" by (simp add: wire_lib_def i(2))
  moreover have "unat (of_nat i :: 8 word) = i" using i(1) by (simp add: unat_of_nat)
  ultimately show ?thesis
    unfolding transmits_def by (simp add: wire_lib_def i(2))
qed

theorem gateway_reaches_handlers_witness:
  "\<exists>g. crosstest_gateway wire_lib (cross_network wire_env demo_server) = (g, Ok ())"
  using gateway_reaches_handlers [OF wire_env_facts(1,2)] by blast

section \<open>Relations through the gateway\<close>

text \<open>C35: What a Fetch joins as the \<^verbatim>\<open>parent\<close> of children is what the services' own
  \<^verbatim>\<open>GetChildParent\<close> says of the parents that are stored when the request arrives: the gateway's
  resolver, the stubs, the mux and the wire between them add nothing, and a missing parent is
  the error of the whole batch.\<close>

theorem gateway_resolves_parents:
  assumes "ce_lib env = lib" "types_linked lib" "knit_elsewhere env"
    "crosstest_gateway lib (cross_network env s0) = (g, Ok ())"
    "lookup_relation g ''buf.knit.crosstest.Child'' ''parent'' = Some cfg"
    "pm_go params = DynamicType" "pm_desc params = 14" "cs \<noteq> []"
    "parents = ss_parents (server_after env s0 (st_rpcs st))"
    "transmits lib (batch_request 7 params (child_bases cs))"
    "\<And>ps. GetChildParent (GetParent parents) cs = Ok ps \<Longrightarrow> transmits lib (parent_results ps)"
  shows "fst (rc_resolver cfg meta (child_bases cs) params st) =
    (case GetChildParent (GetParent parents) cs of
       Ok ps \<Rightarrow> Ok (map (\<lambda>p. Some (PMsg (retype DynamicType (msg_of_parent p)))) ps)
     | Err e \<Rightarrow> Err (Errorf ''resolving relation %q of %q: %w''
         [AStr ''parent'', AStr ''buf.knit.crosstest.Child'', AErr (ce_wire_error env e)])
     | Panic m \<Rightarrow> Panic m)"
proof -
  have "resolves_with lib (cross_network env s0) get_child_parent ''parent'' cfg"
    using crosstest_registers [OF assms(2), of "cross_network env s0"] assms(4,5) by auto
  from parent_resolver [OF assms(1,3) this assms(6-8,10)] assms(9,11) show ?thesis by blast
qed

theorem gateway_resolves_parents_witness:
  "\<exists>g cfg. crosstest_gateway wire_lib (cross_network wire_env demo_server) = (g, Ok ())
    \<and> lookup_relation g ''buf.knit.crosstest.Child'' ''parent'' = Some cfg
    \<and> fst (rc_resolver cfg \<lparr>rm_operations = [], rm_headers = []\<rparr> (child_bases [first_child])
        (new_message (dynamic_message_type 14)) empty_store) = Ok [Some (PMsg (retype DynamicType (msg_of_parent ada)))]"
proof -
  obtain g cfg where g: "crosstest_gateway wire_lib (cross_network wire_env demo_server) = (g, Ok ())"
    "lookup_relation g ''buf.knit.crosstest.Child'' ''parent'' = Some cfg"
    using crosstest_registers [OF wire_env_facts(1)] by blast
  have get: "GetChildParent (GetParent (ss_parents demo_server)) [first_child] = Ok [ada]"
    by (simp add: GetChildParent_def GetParent_def demo_server_def first_child_def ada_def)
  have "fst (rc_resolver cfg \<lparr>rm_operations = [], rm_headers = []\<rparr> (child_bases [first_child])
        (new_message (dynamic_message_type 14)) empty_store) =
      Ok (map (\<lambda>p. Some (PMsg (retype DynamicType (msg_of_parent p)))) [ada])"
  proof (subst gateway_resolves_parents [OF wire_env_facts(3,1,2) g, where parents = "ss_parents demo_server"])
    show "transmits wire_lib (batch_request 7 (new_message (dynamic_message_type 14)) (child_bases [first_child]))"
      by (rule wire_transmits) (simp add: wire_messages_def)
    show "GetChildParent (GetParent (ss_parents demo_server)) [first_child] = Ok ps \<Longrightarrow> transmits wire_lib (parent_results ps)" for ps
      using wire_transmits [of "parent_results [ada]"] by (simp add: get wire_messages_def)
  qed (simp_all add: get server_after_def empty_store_def new_message_def dynamic_message_type_def)
  with g show ?thesis by auto
qed

text \<open>C36: Likewise for the \<^verbatim>\<open>children\<close> of parents: one page for each parent, with what \<^verbatim>\<open>ListChildren\<close>
  lists for it; the size of a page that the client asks for makes no difference.\<close>

theorem gateway_resolves_children:
  assumes "ce_lib env = lib" "types_linked lib" "knit_elsewhere env"
    "crosstest_gateway lib (cross_network env s0) = (g, Ok ())"
    "lookup_relation g ''buf.knit.crosstest.Parent'' ''children'' = Some cfg"
    "pm_go params = DynamicType" "pm_desc params = 17" "ps \<noteq> []"
    "children = ss_children (server_after env s0 (st_rpcs st))"
    "css = map (\<lambda>p. ListChildren (ce_child_order env) children (pa_id p)) ps"
    "transmits lib (batch_request 0 params (parent_bases ps))" "transmits lib (children_results css)"
  shows "fst (rc_resolver cfg meta (parent_bases ps) params st) =
    Ok (map (\<lambda>cs. Some (PMsg (retype DynamicType (children_page cs)))) css)"
proof -
  have "resolves_with lib (cross_network env s0) get_parent_children ''children'' cfg"
    using crosstest_registers [OF assms(2), of "cross_network env s0"] assms(4,5) by auto
  from children_resolver [OF assms(1,3) this assms(6-8,11) assms(10) [unfolded assms(9)] assms(12)] show ?thesis .
qed

theorem gateway_resolves_children_witness:
  "\<exists>g cfg. crosstest_gateway wire_lib (cross_network wire_env demo_server) = (g, Ok ())
    \<and> lookup_relation g ''buf.knit.crosstest.Parent'' ''children'' = Some cfg
    \<and> fst (rc_resolver cfg \<lparr>rm_operations = [], rm_headers = []\<rparr> (parent_bases [ada])
        (new_message (dynamic_message_type 17)) empty_store) = Ok [Some (PMsg (retype DynamicType (children_page [first_child])))]"
proof -
  obtain g cfg where g: "crosstest_gateway wire_lib (cross_network wire_env demo_server) = (g, Ok ())"
    "lookup_relation g ''buf.knit.crosstest.Parent'' ''children'' = Some cfg"
    using crosstest_registers [OF wire_env_facts(1)] by blast
  have list: "ListChildren id (ss_children demo_server) ''1'' = [first_child]"
    by (simp add: ListChildren_def demo_server_def first_child_def has_prefix_def)
  have "fst (rc_resolver cfg \<lparr>rm_operations = [], rm_headers = []\<rparr> (parent_bases [ada])
        (new_message (dynamic_message_type 17)) empty_store) =
      Ok (map (\<lambda>cs. Some (PMsg (retype DynamicType (children_page cs)))) [[first_child]])"
  proof (rule gateway_resolves_children [OF wire_env_facts(3,1,2) g _ _ _ refl])
    show "transmits wire_lib (batch_request 0 (new_message (dynamic_message_type 17)) (parent_bases [ada]))"
      "transmits wire_lib (children_results [[first_child]])"
      by (rule wire_transmits, simp add: wire_messages_def)+
  qed (simp_all add: list wire_env_def ada_def server_after_def empty_store_def new_message_def dynamic_message_type_def)
  with g show ?thesis by auto
qed

end
