(* ===== verification/Spec2Isabelle.thy ===== *)
theory Spec2Isabelle
  imports Knit_Joined Knit_Sema App_Properties Cross_Properties
begin

text \<open>
  Knit is a gateway in front of Connect, gRPC and gRPC-Web services. A client sends requests with
  masks, which select fields of the responses and join \<^emph>\<open>relations\<close>: fields that no message
  has, resolved by RPCs of other services. This development models the Go packages of the
  repository: the gateway (\<^verbatim>\<open>handler.go\<close>, \<^verbatim>\<open>schema.go\<close>, \<^verbatim>\<open>format.go\<close>, \<^verbatim>\<open>stitcher.go\<close>, \<^verbatim>\<open>relation.go\<close>,
  \<^verbatim>\<open>knit.go\<close>, \<^verbatim>\<open>codec.go\<close>), the process \<^verbatim>\<open>knitgateway\<close> that runs it (\<^verbatim>\<open>internal/app/knitgateway\<close>,
  \<^verbatim>\<open>cmd/knitgateway\<close>), and the services of the cross-language tests (\<^verbatim>\<open>internal/crosstest\<close>).

  \<^bold>\<open>How the parts interact.\<close> Services are registered with a \<open>gateway\<close> (\<open>AddService\<close>), which
  records their methods and, for annotated methods, relations. A \<open>Fetch\<close>, \<open>Do\<close> or \<open>Listen\<close>
  (\<open>handler_do\<close>, \<open>Listen\<close>) first computes the schemas of all its requests
  (\<open>computeResponseSchemas\<close>), which validates their masks; then it calls the methods; each
  response is formatted along its mask (\<open>formatMessage\<close>), which leaves a \<open>patch\<close> for every
  relation; the stitcher (\<open>stitch\<close>) resolves the patches round by round, one RPC for each
  group of patches (\<open>newRemoteResolver\<close>), and writes the values into the structs the patches
  point to. The process loads a configuration (\<open>LoadConfig\<close>), makes a watcher for each descriptor
  source (\<open>CreateGateway\<close>), waits for the schemas, builds a gateway of them (\<open>CreateHandler\<close>), and
  replaces it whenever a schema changes (\<open>swap_step\<close>).

  \<^bold>\<open>Conventions\<close> (\<open>Knit_Prelude\<close>, \<open>Knit_Text\<close>, \<open>Knit_Error\<close>). A Go function that can fail returns an
  \<open>outcome\<close>: \<open>Ok\<close>, \<open>Err\<close> with an error value that keeps the format and arguments of the source, or
  \<open>Panic\<close>. A Go string is a list of bytes. Integers have their width (\<open>64 word\<close>); finite
  floats are rationals or, in the configuration, a datatype with NaN and the infinities. A map
  is an association list or a HOL map; where Go iterates over one, the order is an argument, so
  that what is proved holds for every order. Objects that are mutated after they were shared
  live in the store of \<open>Knit_Store\<close> (structs, backing arrays of path slices, metadata objects,
  and the log of the RPCs that were sent).

  \<^bold>\<open>The gateway, theory by theory.\<close>
  \<^item> \<open>Knit_Model\<close>, \<open>Knit_Store\<close>: descriptors, messages, masks, schemas, values, the store. A message
    descriptor is a \<open>desc_id\<close> into a pool, since descriptors are cyclic.
  \<^item> \<open>Knit_Names\<close>, \<open>Knit_Text\<close>, \<open>Knit_Time\<close>: names of fields, camel case and snake case, decimal, base64,
    RFC 3339 times and durations of \<^verbatim>\<open>format.go\<close>, with their round trips (\<open>text_encoding\<close>).
  \<^item> \<open>Knit_Codec\<close> (\<^verbatim>\<open>codec.go\<close>): deferred unmarshalling.
  \<^item> \<open>Knit_Relation\<close> (\<^verbatim>\<open>relation.go\<close>): relation methods and their resolver; the interface
    \<open>batch_resolver\<close> is what the stitcher relies on.
  \<^item> \<open>Knit_Gateway\<close> (\<^verbatim>\<open>knit.go\<close>): registration and its invariant \<open>gateway_ok\<close>, kept also by a
    registration that fails half way.
  \<^item> \<open>Knit_Schema\<close> (\<^verbatim>\<open>schema.go\<close>): the code against the declarative \<open>mask_ok\<close> and \<open>schema_of\<close>.
  \<^item> \<open>Knit_Format\<close> (\<^verbatim>\<open>format.go\<close>); \<open>Knit_Patches\<close>: what formatting does to the store and what its patches
    are like, among them the measure by which stitching ends.
  \<^item> \<open>Knit_Stitcher\<close>, \<open>Knit_Sema\<close> (\<^verbatim>\<open>stitcher.go\<close>): groups, parameters, resolver calls, delivery of values and
    errors, rounds; the goroutines of a round under the semaphore.
  \<^item> \<open>Knit_Handler\<close> (\<^verbatim>\<open>handler.go\<close>): \<open>Fetch\<close>, \<open>Do\<close>, \<open>Listen\<close>, caught errors, header propagation.
  \<^item> \<open>Knit_Typed\<close>: messages that conform to their descriptors, and that nothing panics on them.
  \<^item> \<open>Knit_Body\<close>, \<open>Knit_Join\<close>, \<open>Knit_Answer\<close>: the meaning of a body. \<open>shows_message\<close> reads a value as
    a message along a mask, relations included; the formatter establishes it up to the pending
    patches, every round of the stitcher keeps it and fills in the patches, and at the end
    nothing is pending.
  \<^item> \<open>Knit_Conform\<close>: such a value conforms to the schema that was computed beforehand.
  \<^item> \<open>Knit_Example\<close>, \<open>Knit_Joined\<close>: a concrete gateway and a whole \<^verbatim>\<open>Fetch\<close> on it that joins a
    relation; the hypotheses of the properties hold there.

  \<^bold>\<open>The process.\<close>
  \<^item> \<open>App_Base\<close>: Go's \<^verbatim>\<open>int\<close>, \<^verbatim>\<open>float64\<close> and \<^verbatim>\<open>time.Duration\<close>, and the record of what is called of
    the operating system and the standard library.
  \<^item> \<open>App_TLS\<close> (\<^verbatim>\<open>tls.go\<close>), \<open>App_Client\<close> (HTTP clients and interceptors), \<open>App_Cache\<close> (\<^verbatim>\<open>cache.go\<close>),
    \<open>App_Descriptors\<close> (\<^verbatim>\<open>descriptors.go\<close>), \<open>App_Config\<close> (\<^verbatim>\<open>config.go\<close>): every check in the order of
    the code, and what an accepted configuration satisfies.
  \<^item> \<open>App_Gateway\<close>, \<open>App_Swap\<close> (\<^verbatim>\<open>gateway.go\<close>): the sequential part, and the goroutines as a step relation
    with its safety, liveness and refinement properties.
  \<^item> \<open>App_Admin\<close> (\<^verbatim>\<open>admin.go\<close>), \<open>App_Logging\<close> (\<^verbatim>\<open>logging_handler.go\<close>), \<open>App_Main\<close> (\<^verbatim>\<open>main.go\<close>).
  \<^item> \<open>App_Example\<close>, \<open>App_Properties\<close>: a concrete process, and the properties of the process.

  \<^bold>\<open>The test services.\<close>
  \<^item> \<open>Cross_Services\<close>: the handlers of parents and children as functions of their stores, and
    \<open>cross_step\<close>, the atomic operations of all handlers that run at once, with the invariant
    \<open>cross_inv\<close>. \<open>parent_client\<close> is what the child service relies on.
  \<^item> \<open>Cross_Server\<close>: the test server's gateway on the descriptors of \<^verbatim>\<open>test.proto\<close>, and that all its
    registrations succeed.
  \<^item> \<open>Connect_Stubs\<close>, \<open>Cross_Stubs\<close>, \<open>Test_Stubs\<close>: the generated Connect stubs (\<^verbatim>\<open>internal/gen\<close>): procedures,
    clients, routes. A client on top of a handler is the service itself.
  \<^item> \<open>Cross_Wire\<close>: the server's mux and the server as the network of its own gateway: the services'
    state after the RPCs that were sent answers the next one. The gateway's resolvers of the two
    relations then compute what the services' own resolvers do (\<open>parent_resolver\<close>,
    \<open>children_resolver\<close>).
  \<^item> \<open>Cross_Properties\<close>: the properties of the test server, each with an instance.

  \<^bold>\<open>Parameters.\<close> Code that is not in the repository is an argument: protobuf-go's reflection,
  marshalling and registries (\<open>protolib\<close>), the network, which answers an RPC given the RPCs sent
  before it, the YAML decoder, \<^verbatim>\<open>url.Parse\<close>, crypto/tls and crypto/x509, the cache libraries and
  the watchers of prototransform. What the properties rely on is named: \<open>library_typed\<close> (messages
  conform to their descriptors), \<open>stitch_env_ok\<close> and \<open>call_order_ok\<close> (orders are
  permutations), \<open>key_pair_nonempty\<close>, \<open>transmits\<close> (what is marshalled can be unmarshalled). Each has an instance in the examples.

  \<^bold>\<open>Bounds and termination.\<close> No definition has fuel that could run out. A mask is a finite tree, and
  each round of stitching leaves patches with strictly shallower masks, which is the
  termination measure of \<open>stitch_from\<close>. The loop over the reflection queue is a
  \<open>partial_function\<close> (\<open>drain_queue\<close>), and its end is proved as such, with the number of requests.
  The steps of the process after a signal are bounded, and so are those of a round under the
  semaphore. The uniqueness of the ids of the test services holds for fewer than \<open>2 ^ 63\<close>
  creations, since the counter wraps.

  \<^bold>\<open>Not modelled.\<close> The generated protobuf messages (\<^verbatim>\<open>*.pb.go\<close>), which are data for protobuf-go;
  connect-go, protobuf-go and the other libraries; \<open>AsHandler\<close>, which only hands the handler to
  generated code outside the repository; \<^verbatim>\<open>printUsage\<close>; listening sockets and HTTP servers, the
  handler of rs/cors; cancellation of contexts beyond the errors it leads to; and the
  interleaving of a round's goroutines inside one resolver call, whose writes go to different
  fields, each under a lock.
\<close>

section \<open>Requests to the gateway\<close>

text \<open>C1: A successful \<^verbatim>\<open>Fetch\<close> or \<^verbatim>\<open>Do\<close> answers every request, in the order of the requests
  whatever the order in which the calls ran: response \<open>i\<close> names the method of request \<open>i\<close> and
  carries the schema that the mask of request \<open>i\<close> asks for, relations included. It
  succeeds only when every request was valid.\<close>

theorem do_answers_every_request:
  assumes "call_order_ok env" "handler_do env requests for_fetch s = (Ok resps, t)"
  shows "length resps = length requests
    \<and> (\<forall>i < length requests. rs_method (resps ! i) = rq_method (requests ! i)
        \<and> rs_schema (resps ! i) = Some (schema_of (he_pool env) (he_gateway env)
            (mth_output (mc_descriptor (the (gw_methods (he_gateway env) (rq_method (requests ! i))))))
            (rq_mask (requests ! i))))
    \<and> (\<forall>rq \<in> set requests.
        request_ok (he_lib env) (he_pool env) (he_gateway env) for_fetch RpcKindUnary rq)"
  using handler_do_responses [OF assms] by blast

theorem do_answers_every_request_witness:
  "\<exists>resps t. handler_do plain_env [joined_request] True empty_store = (Ok resps, t)
    \<and> length resps = 1 \<and> rs_schema (resps ! 0) = Some (schema_of demo_pool demo_gateway 1 (rq_mask joined_request))"
proof -
  obtain resps t where run: "handler_do plain_env [joined_request] True empty_store = (Ok resps, t)"
    by (rule joined_run)
  from do_answers_every_request [OF plain_env_ok(3) run] run show ?thesis
    by (auto simp: plain_env_simps demo_lookups joined_request_def demo_config_def demo_method_simps)
qed

text \<open>C2: What a response shows. The body of response \<open>i\<close> of a successful \<^verbatim>\<open>Fetch\<close> or \<^verbatim>\<open>Do\<close>
  shows, along the mask of request \<open>i\<close>, a message that the backend answered to request \<open>i\<close>:
  its fields as they are, and for each relation the answer of that relation's resolver, with
  the parameters of the mask, for the very message it is joined to, recursively. An entry of a
  field is missing only when the field is not populated, an entry of a relation only when the
  resolver answered with nothing or failed; the whole body is an error value only when the
  request catches errors. It holds whatever the orders of the goroutines and of Go's maps.\<close>

theorem bodies_show_answers:
  assumes "stitch_env_ok net (he_stitch env)" "orders_ok (he_stitch env)" "call_order_ok env"
    "handler_do env requests for_fetch s = (Ok resps, t)" "i < length requests"
    "gw_methods (he_gateway env) (rq_method (requests ! i)) = Some conf"
  shows "catches (\<not> for_fetch) (requests ! i) \<and> is_error_value (he_lib env) (rs_body (resps ! i))
    \<or> (\<exists>m. call_answer env (requests ! i) conf m
        \<and> shows_message (he_lib env) (he_pool env) (he_gateway env) t (mc_type_resolver conf)
            (rq_mask (requests ! i)) m (rs_body (resps ! i)))"
  using handler_do_shows [OF assms(1-5)] assms(6) by simp

theorem bodies_show_answers_witness:
  "\<exists>resps t m. handler_do plain_env [joined_request] True empty_store = (Ok resps, t)
    \<and> shows_message demo_lib demo_pool demo_gateway t None (rq_mask joined_request) m (rs_body (resps ! 0))"
proof -
  obtain resps t where run: "handler_do plain_env [joined_request] True empty_store = (Ok resps, t)"
    by (rule joined_run)
  from bodies_show_answers [OF plain_env_ok run, of 0 get_user] run show ?thesis
    by (auto simp: plain_env_simps demo_lookups joined_request_def catches_def demo_config_def)
qed

text \<open>C3: The schema that goes with a response describes its body: it was computed before anything
  was called, and whatever the backends answered, the body conforms to it (or is an error
  value, if the request catches errors).\<close>

theorem bodies_conform_to_schemas:
  assumes "stitch_env_ok net (he_stitch env)" "orders_ok (he_stitch env)" "call_order_ok env"
    "as_struct_named (he_lib env)" "handler_do env requests for_fetch s = (Ok resps, t)" "i < length requests"
  shows "\<exists>sc. rs_schema (resps ! i) = Some sc
    \<and> (catches (\<not> for_fetch) (requests ! i) \<and> is_error_value (he_lib env) (rs_body (resps ! i))
       \<or> conforms (he_lib env) t sc (rs_body (resps ! i)))"
  by (rule handler_do_conforms [OF assms])

theorem bodies_conform_to_schemas_witness:
  "\<exists>resps t. handler_do plain_env [joined_request] True empty_store = (Ok resps, t)
    \<and> conforms demo_lib t (the (rs_schema (resps ! 0))) (rs_body (resps ! 0))"
proof -
  obtain resps t where run: "handler_do plain_env [joined_request] True empty_store = (Ok resps, t)"
    by (rule joined_run)
  have "as_struct_named (he_lib plain_env)" by (simp add: plain_env_simps demo_as_struct_named)
  from bodies_conform_to_schemas [OF plain_env_ok this run, of 0] run show ?thesis
    by (auto simp: plain_env_simps joined_request_def catches_def)
qed

text \<open>C4: Validation is all or nothing and comes first: if one request names an unknown method,
  is of the wrong kind or (for \<^verbatim>\<open>Fetch\<close>) may have side effects, or has an invalid mask,
  the whole call fails, no RPC is sent and nothing else happens.\<close>

theorem invalid_request_sends_nothing:
  assumes "rq \<in> set requests"
    "\<not> request_ok (he_lib env) (he_pool env) (he_gateway env) for_fetch RpcKindUnary rq"
  shows "\<exists>r. handler_do env requests for_fetch s = (r, s) \<and> \<not> is_ok r"
  using handler_do_invalid [of requests env for_fetch s] assms by blast

theorem invalid_request_sends_nothing_witness:
  "\<exists>r. handler_do demo_env [demo_request, demo_request\<lparr>rq_method := ''demo.Users.Nope''\<rparr>] True empty_store
      = (r, empty_store) \<and> \<not> is_ok r"
  by (rule invalid_request_sends_nothing [where rq = "demo_request\<lparr>rq_method := ''demo.Users.Nope''\<rparr>"])
    (simp_all add: request_ok_def he_gateway_def demo_env_def demo_gateway_def demo_empty_gateway_def)

text \<open>C14: \<^verbatim>\<open>Listen\<close> sends one response for each message of the stream, up to the first failure,
  all for the requested method; the schema goes with the first response only; it reports
  success only when the stream ended without an error and every message was answered.\<close>

theorem listen_sends_schema_once:
  assumes "listen_loop env req conf meta ep stream_err n (Some sc) m dms s = (sent, r, t)"
  shows "length sent \<le> length dms
    \<and> (r = Ok () \<longrightarrow> length sent = length dms \<and> stream_err = None)
    \<and> (\<forall>resp \<in> set sent. rs_method resp = rq_method req)
    \<and> (\<forall>i < length sent. rs_schema (sent ! i) = (if i = 0 then Some sc else None))"
  using listen_loop_sent [OF assms] by (cases sent) (auto simp: nth_Cons split: nat.split)

theorem listen_sends_schema_once_witness:
  "\<exists>sent r t. listen_loop plain_env joined_request (demo_config ''WatchUser'' (demo_method ''WatchUser'' 0 1 None))
      0 None None 0 (Some (Schema ''x'' [])) (new_message (dynamic_message_type 1)) [demo_answer 1] empty_store
      = (sent, r, t) \<and> length sent \<le> 1"
proof -
  obtain sent r t where run: "listen_loop plain_env joined_request
      (demo_config ''WatchUser'' (demo_method ''WatchUser'' 0 1 None)) 0 None None 0 (Some (Schema ''x'' []))
      (new_message (dynamic_message_type 1)) [demo_answer 1] empty_store = (sent, r, t)"
    using prod_cases3 by blast
  from listen_sends_schema_once [OF run] run show ?thesis by auto
qed

section \<open>Validation\<close>

text \<open>C7: The code accepts exactly the valid masks, and the schema it computes for one is the
  declarative one. A mask is valid when, at every level, no name occurs twice, every entry
  names a field or a registered relation of the message (with parameters only if it takes
  them), and only messages that are not well-known types have a mask of their own.\<close>

theorem schema_exact:
  "computeSchema lib pool g d msk path = Ok sc \<longleftrightarrow> mask_ok pool g d msk \<and> sc = schema_of pool g d msk"
  by (rule computeSchema_Ok_iff)

text \<open>C13: On descriptors that protobuf allows, computing a schema never panics, and every mask
  it rejects is rejected as the caller's fault: with the code failed precondition or
  invalid argument.\<close>

theorem schema_error_codes:
  assumes "descriptors_wf pool g"
  shows "case computeSchema lib pool g d msk path of
      Ok sc \<Rightarrow> mask_ok pool g d msk
    | Err e \<Rightarrow> error_code e = Some CodeFailedPrecondition \<or> error_code e = Some CodeInvalidArgument
    | Panic p \<Rightarrow> False"
  using computeSchema_outcome(1) [OF assms, of lib d msk path] computeSchema_Ok_iff(1) [of lib pool g d msk path]
  by (auto simp: mask_error_def split: outcome.split)

lemma demo_descriptors_wf: "descriptors_wf demo_pool demo_gateway"
  by (auto simp: descriptors_wf_def demo_pool_def demo_message_def demo_field_def fd_wf_def map_key_ok_def
      elem_desc_def isMessage_def scalar_of_def lookup_relation_def demo_gateway_def demo_empty_gateway_def
      demo_posts_def Let_def split: option.splits if_splits)

theorem schema_error_codes_witness:
  "case computeSchema demo_lib demo_pool demo_gateway 2 [MaskField ''nope'' None [] NoOnError] [''p''] of
      Ok sc \<Rightarrow> mask_ok demo_pool demo_gateway 2 [MaskField ''nope'' None [] NoOnError]
    | Err e \<Rightarrow> error_code e = Some CodeFailedPrecondition \<or> error_code e = Some CodeInvalidArgument
    | Panic p \<Rightarrow> False"
  by (rule schema_error_codes [OF demo_descriptors_wf])

section \<open>Registration\<close>

text \<open>C11: Registering a service, also when it fails half way, leaves a gateway in which every
  method is filed under its own name and every relation under the name and message it is
  for, does not clash with a field of that message, and passed the checks of a resolver; what
  was registered before stays as it was; it never panics; and when it succeeds every method
  of the service is registered, and so is every relation that one of them resolves.\<close>

theorem registration_invariant:
  assumes "gateway_ok lib net pool g" "addService lib net pool g svc known opts = (g', r)"
  shows "gateway_ok lib net pool g' \<and> gateway_le g g' \<and> (\<forall>p. r \<noteq> Panic p)
    \<and> (r = Ok () \<longrightarrow> (\<forall>m \<in> set (sv_methods svc). method_added pool g' m))"
  using addService_facts [OF assms(2)] assms(1) by blast

theorem registration_invariant_witness:
  "gateway_ok demo_lib demo_net demo_pool demo_gateway"
  using registration_invariant [OF demo_empty_gateway_ok demo_AddService [unfolded AddService_def]] by blast

text \<open>C17: A call of a relation's resolver sends exactly one RPC however many bases it is for;
  the RPC carries every base in order, and the operations and headers of its metadata.\<close>

theorem resolver_sends_one_rpc:
  assumes "newRemoteResolver lib net pool n bf rf result_field rt client meta bases params s = (r, s')"
    and "pm_go params = DynamicType"
  shows "st_rpcs s' = st_rpcs s @
    [\<lparr>rpc_client = client, rpc_headers = toHeaders meta [],
      rpc_message = pm_set params bf (PList (map PMsg bases))\<rparr>]
    \<and> (\<forall>vals. r = Ok vals \<longrightarrow> length vals = length bases)"
  using newRemoteResolver_one_rpc [OF assms] newRemoteResolver_length assms(1) by blast

theorem resolver_sends_one_rpc_witness:
  "length (st_rpcs (snd (newRemoteResolver demo_lib demo_net demo_pool ''posts'' (rc_base_field demo_posts)
      (rc_descriptor demo_posts) (demo_field ''values'' 1 MessageKind 5 False Repeated)
      (dynamic_message_type 4) (demo_client ''GetPosts'') \<lparr>rm_operations = [], rm_headers = []\<rparr>
      [demo_user, demo_user] (new_message (dynamic_message_type 3)) empty_store))) = 1"
proof -
  obtain r s' where run: "newRemoteResolver demo_lib demo_net demo_pool ''posts'' (rc_base_field demo_posts)
      (rc_descriptor demo_posts) (demo_field ''values'' 1 MessageKind 5 False Repeated)
      (dynamic_message_type 4) (demo_client ''GetPosts'') \<lparr>rm_operations = [], rm_headers = []\<rparr>
      [demo_user, demo_user] (new_message (dynamic_message_type 3)) empty_store = (r, s')" by fastforce
  then show ?thesis
    using resolver_sends_one_rpc [OF run] by (simp add: new_message_def dynamic_message_type_def empty_store_def)
qed

section \<open>Stitching\<close>

text \<open>C15: Every round of stitching leaves strictly shallower patches than it started with,
  whatever the backends answer. That is why stitching terminates: it is a total function.\<close>

theorem stitching_terminates:
  assumes "stitch_round env n patches s = (Ok (Some patches'), t)"
  shows "patches_depth patches' < patches_depth patches"
  using stitch_round_depth [OF assms] .

lemma local_round: "fst (stitch_round local_env 0 [[local_patch None, local_patch None]] empty_store) = Ok (Some [])"
  by code_simp

theorem stitching_terminates_witness:
  "patches_depth [] < patches_depth [[local_patch None, local_patch None]]"
  using stitching_terminates [of local_env 0 "[[local_patch None, local_patch None]]" empty_store "[]"
      "snd (stitch_round local_env 0 [[local_patch None, local_patch None]] empty_store)"] local_round
  by (metis prod.collapse)

section \<open>Headers and names\<close>




lemma demo_patch_caught: "caught_patch (he_stitch demo_env) (local_patch (Some ep))"
proof -
  have sel: "se_pool (he_stitch demo_env) = demo_pool" "se_gateway (he_stitch demo_env) = demo_gateway"
    by (simp_all add: demo_env_def)
  have "entry_ok demo_pool demo_gateway 2 (MaskField ''posts'' None [] NoOnError)"
    by (simp add: entry_ok.simps entry_field_def demo_names demo_lookups demo_posts_def demo_field_def map_key_ok_def
        mask_ok.simps elem_desc_def isMessage_def)
  then show ?thesis
    by (simp add: caught_patch_def patch_ok_def local_patch_def demo_user_typed sel)
      (simp add: demo_user_def demo_names)
qed

section \<open>Formatting and stitching do not panic\<close>

text \<open>C5: Formatting a message that conforms to its descriptor under a valid mask never panics, and every
  patch that it makes is for a conforming message and a relation that the gateway knows.\<close>

theorem formatting_typed:
  assumes "library_typed (fe_lib env) (fe_pool env)" "typed_msg (fe_pool env) msg"
    "mask_ok (fe_pool env) g (pm_desc msg) msk"
  shows "case fst (formatMessage env msg msk path s) of
      Ok (v, ps) \<Rightarrow> \<forall>p \<in> set ps. patch_ok (fe_pool env) g p
    | Err e \<Rightarrow> True | Panic p \<Rightarrow> False"
  using format_ensures(1) [OF assms, of path s]
  by (auto simp: ensures_def split: outcome.splits)

theorem formatting_typed_witness:
  "\<exists>r. fst (formatMessage (format_env_of (he_stitch demo_env) 0 None) demo_user [posts_mask] \<lparr>sl_array = 0, sl_len = 0\<rparr> empty_store) = r
    \<and> (\<forall>p. r \<noteq> Panic p)"
proof -
  let ?env = "format_env_of (he_stitch demo_env) 0 None"
  have sel: "fe_lib ?env = demo_lib" "fe_pool ?env = demo_pool" by (simp_all add: format_env_of_def demo_env_def)
  have "mask_ok demo_pool demo_gateway (pm_desc demo_user) [posts_mask]" by code_simp
  with demo_lib_typed demo_user_typed have "library_typed (fe_lib ?env) (fe_pool ?env)" "typed_msg (fe_pool ?env) demo_user"
    "mask_ok (fe_pool ?env) demo_gateway (pm_desc demo_user) [posts_mask]"
    by (simp_all add: sel)
  from formatting_typed [OF this, of "\<lparr>sl_array = 0, sl_len = 0\<rparr>" empty_store] show ?thesis
    by (auto split: outcome.splits)
qed

text \<open>C6: Stitching patches whose errors are caught never panics, whatever the backends answer: each
  round hands on caught patches only.\<close>

theorem caught_patches_never_panic:
  assumes "stitch_env_ok net env" "\<forall>p \<in> set (concat patches). caught_patch env p"
  shows "fst (stitch_from env n patches s) \<noteq> Panic msg"
  using stitch_from_ensures [OF assms(1), of patches n s] assms(2)
  by (auto simp: ensures_def split: outcome.splits)

theorem caught_patches_never_panic_witness:
  "\<forall>ep msg. fst (stitch_from (he_stitch demo_env) 0 [[local_patch (Some ep)]] empty_store) \<noteq> Panic msg"
  by (intro allI, rule caught_patches_never_panic [OF demo_stitch_env_ok]) (simp add: demo_patch_caught)

text \<open>C18: What becomes of a resolver's error depends on the first patch of the group for all of them: if
  the first patch does not catch errors the whole request fails; if it does, every other patch must
  catch them too, or the goroutine dereferences nil and the process panics.\<close>

theorem resolver_error_outcome:
  assumes "rc_resolver config (st_metas s (gk_meta key)) (map pt_target batch) params s = (r, t)"
    "batch_result env batch r = Err e"
  shows "fst (run_batch env (key, config, batch) params s) =
    (if pt_err (hd batch) = None then
       Err (Errorf ''resolver for relation %q of type %q failed: %w''
         [AStr (mf_name (pt_mask (hd batch))), AStr (patch_type_name env (hd batch)), AErr e])
     else if \<forall>p \<in> set batch. pt_err p \<noteq> None then Ok [] else Panic ''nil dereference'')"
  by (rule run_batch_error [OF assms])

definition failing_posts :: relation_config where
  "failing_posts = demo_posts\<lparr>rc_resolver := (\<lambda>meta bases params s. (Err (ExternalError ''unavailable''), s))\<rparr>"

definition mixed_batch :: "patch list" where
  "mixed_batch = [local_patch (Some \<lparr>ep_target = 0, ep_name = ''posts''\<rparr>), local_patch None]"

theorem resolver_error_outcome_witness:
  "fst (run_batch local_env (patch_key local_env (local_patch None), failing_posts, mixed_batch)
     (ProtoMsg 3 [] DynamicType) empty_store) = Panic ''nil dereference''"
  by (subst resolver_error_outcome [of _ _ _ _ _ "Err (ExternalError ''unavailable'')" empty_store _ "ExternalError ''unavailable''"])
    (simp_all add: failing_posts_def batch_result_def mixed_batch_def local_patch_def)

section \<open>Text and limits\<close>

text \<open>C20: The text forms that clients read back determine the data: 64-bit integers in decimal, bytes in
  base64 with and without padding, and names in snake case.\<close>

theorem text_roundtrips:
  "parse_int64 (format_int i) = i \<and> parse_uint64 (format_uint u) = u
   \<and> base64_decode (base64_encode pad bytes) = bytes
   \<and> (CHR ''_'' \<in> set name \<or> camelCase (snakeCase name) = name)
   \<and> camelCase (camelCase name) = camelCase name"
  using int64_text.dec_enc uint64_text.dec_enc snake_text.dec_enc [of name] camelCase_idem by auto

text \<open>C21: Two keys of a map that conform to its key type have the same text only when they are the same
  key: no entry of a map is lost when it becomes a struct.\<close>

theorem map_keys_injective:
  assumes "key_typed k key" "key_typed k key'"
    "formatMapKeyValue lib k key path = Ok t" "formatMapKeyValue lib k key' path' = Ok t"
  shows "key = key'"
  by (rule map_key_text_inj [OF assms])

theorem map_keys_injective_witness:
  "formatMapKeyValue demo_lib BoolKind (KBool True) [] \<noteq> formatMapKeyValue demo_lib BoolKind (KBool False) []"
proof
  assume "formatMapKeyValue demo_lib BoolKind (KBool True) [] = formatMapKeyValue demo_lib BoolKind (KBool False) []"
  then show False
    using map_keys_injective [of BoolKind "KBool True" "KBool False" demo_lib "[]" "''true''" "[]"]
    by (simp add: key_typed.simps formatMapKeyValue_def format_bool_def)
qed

text \<open>C16: The semaphore of a stitcher bounds a round: with a positive limit no more resolvers run at a
  time than the limit; every goroutine starts and finishes once; and until all have finished, one can
  start or finish.\<close>

theorem parallelism_bounded:
  assumes "(round_step ^^ k) (round_start limit n) s"
  shows "(limit \<le> 0 \<or> int (rn_running s) \<le> limit)
    \<and> rn_waiting s + rn_running s + rn_finished s = n
    \<and> k \<le> 2 * n \<and> (rn_finished s = n \<or> (\<exists>t. round_step s t))"
proof -
  have inv: "round_inv limit n s" by (rule round_inv_relpow [OF assms])
  then have "rn_waiting s + rn_running s + rn_finished s = n" by (simp add: round_inv_def)
  moreover have "k \<le> 2 * n"
    using round_rank_steps [OF assms] by (simp add: round_rank_def round_start_def)
  moreover have "rn_finished s = n \<or> (\<exists>t. round_step s t)"
    using round_progress [OF inv] inv by (cases "rn_finished s < n") (auto simp: round_inv_def)
  ultimately show ?thesis
    using round_inv_bound [OF inv] inv by (cases "0 < limit") (auto simp: round_inv_def)
qed

theorem parallelism_bounded_witness:
  "\<exists>s. (round_step ^^ 1) (round_start 1 2) s \<and> int (rn_running s) \<le> 1 \<and> rn_waiting s = 1"
proof -
  have "round_step (round_start 1 2) ((round_start 1 2)\<lparr>rn_sema := BoundedSema 1 1, rn_waiting := 1,
      rn_running := Suc (rn_running (round_start 1 2))\<rparr>)"
    by (rule round_step.start) (simp_all add: round_start_def newSema_def)
  then have run: "(round_step ^^ 1) (round_start 1 2) ((round_start 1 2)\<lparr>rn_sema := BoundedSema 1 1, rn_waiting := 1,
      rn_running := Suc (rn_running (round_start 1 2))\<rparr>)" by auto
  from parallelism_bounded [OF run] run show ?thesis by auto
qed

end
